(* ===== verification/Prelude.thy ===== *)
theory Prelude
  imports Main "HOL-Library.Word" "HOL-Library.Monad_Syntax"
begin

section \<open>Prelude: machine integers, C loops and the two generic interfaces\<close>

text \<open>
  What every component of the development shares.
  \<^item> Names for the C integer types of the x86-64 build: \<open>size_t\<close>, \<open>uintptr_t\<close> and every
    pointer are 64 bits wide, \<open>int\<close> and the enums 32 bits.
  \<^item> The two shapes of counted loop the kernel uses: \<open>for_range\<close> (a body that changes a
    state) and \<open>for_find\<close> (a body that may return from the enclosing function).
    Both count with a \<open>size_t\<close>, as the C does.
    A body that performs undefined behaviour, or never returns, is \<^const>\<open>None\<close>, and so is
    then the loop.
  \<^item> Two locales that several components instantiate: \<open>invariant_system\<close> (a step that keeps an
    invariant keeps it along every run) and \<open>simulation\<close> (a step that follows an abstract
    step makes every run follow the abstract run).
\<close>

type_synonym u8 = "8 word"
type_synonym u16 = "16 word"
type_synonym u32 = "32 word"
type_synonym u64 = "64 word"
type_synonym usize = "64 word"
type_synonym ptr = "64 word"

named_theorems struct_defs \<open>definitions of the constants and structures of the source\<close>
named_theorems mem_simps \<open>rewriting reads of a memory that has been written\<close>

subsection \<open>Word arithmetic\<close>

lemma unat_of_nat64: "n < 2 ^ 64 \<Longrightarrow> unat (of_nat n :: u64) = n"
  by (simp add: unsigned_of_nat take_bit_nat_eq_self)

lemma of_nat64_inj:
  assumes "n < 2 ^ 64" "k < 2 ^ 64"
  shows "(of_nat n :: u64) = of_nat k \<longleftrightarrow> n = k"
  using unat_of_nat64 [OF assms(1)] unat_of_nat64 [OF assms(2)] by metis

lemma of_nat64_neq_0: "0 < n \<Longrightarrow> n < 2 ^ 64 \<Longrightarrow> (of_nat n :: u64) \<noteq> 0"
  using of_nat64_inj [of n 0] by simp

lemma unat_lt_64: "unat (x :: u64) < 2 ^ 64"
proof -
  have "unat x < 2 ^ LENGTH(64)" by (rule unsigned_less)
  then show ?thesis by simp
qed

lemma unat_inc_less: "(i :: u64) < n \<Longrightarrow> unat (i + 1) = Suc (unat i)"
  using unat_lt_64 [of n]
  by (simp add: word_less_nat_alt unat_word_ariths)

lemma less_inc_self: "(i :: u64) < n \<Longrightarrow> i < i + 1"
  using unat_inc_less [of i n] by (simp add: word_less_nat_alt)

lemma less_inc_iff: "(i :: u64) < n \<Longrightarrow> x < i + 1 \<longleftrightarrow> x < i \<or> x = i"
  using unat_inc_less [of i n] by (auto simp: word_less_nat_alt less_Suc_eq word_unat_eq_iff)

lemma inc_le: "(i :: u64) < n \<Longrightarrow> i + 1 \<le> n"
  using unat_inc_less [of i n] by (simp add: word_less_nat_alt word_le_nat_alt)

lemma unat_plus_no_overflow:
  "unat (a :: u64) + unat b < 2 ^ 64 \<Longrightarrow> unat (a + b) = unat a + unat b"
  by (simp add: unat_word_ariths)

lemma unat_minus_le: "(b :: u64) \<le> a \<Longrightarrow> unat (a - b) = unat a - unat b"
  by (simp add: unat_sub)

text \<open>\<open>__builtin_add_overflow\<close>: \<^const>\<open>None\<close> when the sum does not fit.\<close>

definition checked_add :: "u64 \<Rightarrow> u64 \<Rightarrow> u64 option" where
  "checked_add a b = (if unat a + unat b < 2 ^ 64 then Some (a + b) else None)"

lemma checked_add_Some_iff:
  "checked_add a b = Some c \<longleftrightarrow> unat a + unat b < 2 ^ 64 \<and> c = a + b"
  by (auto simp: checked_add_def)

lemma checked_add_unat: "checked_add a b = Some c \<Longrightarrow> unat c = unat a + unat b"
  by (auto simp: checked_add_Some_iff unat_plus_no_overflow)

subsection \<open>The fault monad\<close>

lemma bind_Some_iff:
  "Option.bind x f = Some y \<longleftrightarrow> (\<exists>v. x = Some v \<and> f v = Some y)"
  by (cases x) auto

subsection \<open>Counted loops\<close>

text \<open>
  \<open>for (size_t i = 0; i < n; i++) body;\<close> The counter cannot wrap: it stays below \<open>n\<close>.
\<close>

function for_range :: "usize \<Rightarrow> usize \<Rightarrow> (usize \<Rightarrow> 's \<Rightarrow> 's option) \<Rightarrow> 's \<Rightarrow> 's option" where
  "for_range i n body s =
     (if i < n then Option.bind (body i s) (for_range (i + 1) n body) else Some s)"
  by pat_completeness auto
termination
  by (relation "measure (\<lambda>(i, n, _). unat n - unat i)")
     (auto simp: unat_inc_less word_less_nat_alt)

text \<open>
  \<open>for (size_t i = 0; i < n; i++) if (...) return r;\<close> The outer option is the fault, the inner
  one says whether the loop returned.
\<close>

function for_find :: "usize \<Rightarrow> usize \<Rightarrow> (usize \<Rightarrow> 'r option option) \<Rightarrow> 'r option option" where
  "for_find i n body =
     (if i < n
      then Option.bind (body i)
             (\<lambda>r. case r of None \<Rightarrow> for_find (i + 1) n body | Some v \<Rightarrow> Some (Some v))
      else Some None)"
  by pat_completeness auto
termination
  by (relation "measure (\<lambda>(i, n, _). unat n - unat i)")
     (auto simp: unat_inc_less word_less_nat_alt)

declare for_range.simps [simp del] for_find.simps [simp del]

lemma for_range_done: "\<not> i < n \<Longrightarrow> for_range i n body s = Some s"
  by (simp add: for_range.simps)

lemma for_range_step:
  "i < n \<Longrightarrow> for_range i n body s = Option.bind (body i s) (for_range (i + 1) n body)"
  by (simp add: for_range.simps)

lemma for_find_done: "\<not> i < n \<Longrightarrow> for_find i n body = Some None"
  by (simp add: for_find.simps)

lemma for_find_step:
  "i < n \<Longrightarrow> for_find i n body =
     Option.bind (body i)
       (\<lambda>r. case r of None \<Rightarrow> for_find (i + 1) n body | Some v \<Rightarrow> Some (Some v))"
  by (subst for_find.simps) simp

text \<open>The rule for total correctness of a counted loop: an invariant that each turn makes
  true for the next counter value.\<close>

lemma for_range_rule:
  assumes "I i s" and "i \<le> n"
    and "\<And>j t. I j t \<Longrightarrow> j < n \<Longrightarrow> \<exists>t'. body j t = Some t' \<and> I (j + 1) t'"
  shows "\<exists>t. for_range i n body s = Some t \<and> I n t"
  using assms(1,2)
proof (induction "unat n - unat i" arbitrary: i s rule: less_induct)
  case less
  show ?case
  proof (cases "i < n")
    case True
    obtain t' where t': "body i s = Some t'" "I (i + 1) t'"
      using assms(3) [OF less.prems(1) True] by blast
    from True have "unat (i + 1) = Suc (unat i)" by (rule unat_inc_less)
    moreover from True have "unat i < unat n" by (simp add: word_less_nat_alt)
    ultimately have "\<exists>t. for_range (i + 1) n body t' = Some t \<and> I n t"
      by (intro less.hyps t') (auto simp: word_le_nat_alt)
    with True t' show ?thesis by (simp add: for_range_step)
  next
    case False
    with less.prems have "i = n" by simp
    with less.prems show ?thesis by (simp add: for_range_done)
  qed
qed

text \<open>The rule for partial correctness: what every completed loop satisfies.\<close>

lemma for_range_invariant:
  assumes "for_range i n body s = Some t" and "I s"
    and "\<And>j u u'. I u \<Longrightarrow> i \<le> j \<Longrightarrow> j < n \<Longrightarrow> body j u = Some u' \<Longrightarrow> I u'"
  shows "I t"
  using assms
proof (induction i n body s rule: for_range.induct)
  case (1 i n body s)
  show ?case
  proof (cases "i < n")
    case True
    with "1.prems"(1) obtain u where u: "body i s = Some u" "for_range (i + 1) n body u = Some t"
      by (auto simp: for_range_step bind_Some_iff)
    have step: "I v'" if "I v" "i + 1 \<le> j" "j < n" "body j v = Some v'" for j v v'
    proof (rule "1.prems"(3) [OF that(1) _ that(3,4)])
      from that(2) unat_inc_less [OF True] show "i \<le> j" by (simp add: word_le_nat_alt)
    qed
    have "I u" using "1.prems"(2,3) True u(1) by blast
    then show ?thesis by (rule "1.IH" [OF True u]) (blast intro: step)
  next
    case False
    with "1.prems" show ?thesis by (simp add: for_range_done)
  qed
qed

text \<open>
  Searching loops: when every body call is defined, the loop returns the first hit.
  \<open>first_hit\<close> is the search over counter values as plain lists.
\<close>

definition first_hit :: "(nat \<Rightarrow> 'r option) \<Rightarrow> nat \<Rightarrow> nat \<Rightarrow> 'r option" where
  "first_hit g i n = (case find (\<lambda>k. g k \<noteq> None) [i..<n] of None \<Rightarrow> None | Some k \<Rightarrow> g k)"

lemma first_hit_done [simp]: "n \<le> i \<Longrightarrow> first_hit g i n = None"
  by (simp add: first_hit_def)

lemma first_hit_step:
  "i < n \<Longrightarrow> first_hit g i n = (case g i of None \<Rightarrow> first_hit g (Suc i) n | Some r \<Rightarrow> Some r)"
  by (auto simp: first_hit_def upt_conv_Cons split: option.splits)

lemma for_find_first_hit:
  assumes "\<And>k. unat i \<le> k \<Longrightarrow> k < unat n \<Longrightarrow> body (of_nat k) = Some (g k)"
  shows "for_find i n body = Some (first_hit g (unat i) (unat n))"
  using assms
proof (induction i n body rule: for_find.induct)
  case (1 i n body)
  show ?case
  proof (cases "i < n")
    case True
    then have less: "unat i < unat n" by (simp add: word_less_nat_alt)
    then have b: "body i = Some (g (unat i))" using "1.prems" [of "unat i"] by simp
    show ?thesis
    proof (cases "g (unat i)")
      case None
      have "for_find (i + 1) n body = Some (first_hit g (unat (i + 1)) (unat n))"
        using "1.prems" unat_inc_less [OF True]
        by (intro "1.IH" [OF True b None]) auto
      with True b None less show ?thesis
        by (simp add: for_find_step first_hit_step unat_inc_less)
    next
      case (Some r)
      with True b less show ?thesis by (simp add: for_find_step first_hit_step)
    qed
  next
    case False
    then show ?thesis by (simp add: for_find_done word_less_nat_alt)
  qed
qed

lemma first_hit_None_iff: "first_hit g i n = None \<longleftrightarrow> (\<forall>k. i \<le> k \<and> k < n \<longrightarrow> g k = None)"
  by (auto simp: first_hit_def find_None_iff find_Some_iff split: option.splits)

lemma first_hit_SomeD:
  assumes "first_hit g i n = Some r"
  shows "\<exists>k. i \<le> k \<and> k < n \<and> g k = Some r \<and> (\<forall>j. i \<le> j \<and> j < k \<longrightarrow> g j = None)"
  using assms
proof (induction "n - i" arbitrary: i)
  case 0
  then show ?case by simp
next
  case (Suc d)
  then have less: "i < n" by simp
  show ?case
  proof (cases "g i")
    case None
    from Suc.hyps(2) have "d = n - Suc i" by simp
    moreover from None Suc.prems less have "first_hit g (Suc i) n = Some r"
      by (simp add: first_hit_step)
    ultimately obtain k where k: "Suc i \<le> k" "k < n" "g k = Some r"
      "\<forall>j. Suc i \<le> j \<and> j < k \<longrightarrow> g j = None"
      using Suc.hyps(1) by blast
    have "g j = None" if "i \<le> j" "j < k" for j
      using that None k(4) by (cases "j = i") auto
    with k show ?thesis by (intro exI [of _ k]) auto
  next
    case (Some r')
    with Suc.prems less show ?thesis by (auto simp: first_hit_step)
  qed
qed

subsection \<open>Runs, invariants and simulation\<close>

text \<open>A run of a fallible step over a list of inputs.\<close>

fun run_steps :: "('s \<Rightarrow> 'i \<Rightarrow> 's option) \<Rightarrow> 's \<Rightarrow> 'i list \<Rightarrow> 's option" where
  "run_steps step s [] = Some s"
| "run_steps step s (i # is) = Option.bind (step s i) (\<lambda>t. run_steps step t is)"

locale invariant_system =
  fixes step :: "'s \<Rightarrow> 'i \<Rightarrow> 's option"
    and inv :: "'s \<Rightarrow> bool"
  assumes step_inv: "inv s \<Longrightarrow> step s i = Some t \<Longrightarrow> inv t"
begin

lemma run_inv: "inv s \<Longrightarrow> run_steps step s is = Some t \<Longrightarrow> inv t"
  by (induction "is" arbitrary: s) (auto simp: bind_Some_iff intro: step_inv)

lemma run_frame:
  assumes "\<And>s i t. inv s \<Longrightarrow> step s i = Some t \<Longrightarrow> f t = f s"
  shows "inv s \<Longrightarrow> run_steps step s is = Some t \<Longrightarrow> f t = f s"
proof (induction "is" arbitrary: s)
  case (Cons i "is")
  then obtain u where "step s i = Some u" "run_steps step u is = Some t"
    by (auto simp: bind_Some_iff)
  with Cons assms step_inv show ?case by metis
qed simp

end

locale total_system = invariant_system +
  assumes step_total: "inv s \<Longrightarrow> \<exists>t. step s i = Some t"
begin

lemma run_total: "inv s \<Longrightarrow> \<exists>t. run_steps step s is = Some t \<and> inv t"
proof (induction "is" arbitrary: s)
  case (Cons i "is")
  then obtain u where "step s i = Some u" using step_total by blast
  with Cons step_inv show ?case by fastforce
qed simp

end

text \<open>A run that also collects what each step returns.\<close>

fun run_outputs :: "('s \<Rightarrow> 'i \<Rightarrow> ('s \<times> 'o) option) \<Rightarrow> 's \<Rightarrow> 'i list \<Rightarrow> ('s \<times> 'o list) option" where
  "run_outputs step s [] = Some (s, [])"
| "run_outputs step s (i # is) =
     Option.bind (step s i)
       (\<lambda>(t, r). Option.bind (run_outputs step t is) (\<lambda>(u, rs). Some (u, r # rs)))"

fun spec_outputs :: "('a \<Rightarrow> 'i \<Rightarrow> 'a \<times> 'o) \<Rightarrow> 'a \<Rightarrow> 'i list \<Rightarrow> 'a \<times> 'o list" where
  "spec_outputs astep a [] = (a, [])"
| "spec_outputs astep a (i # is) =
     (let (b, r) = astep a i; (c, rs) = spec_outputs astep b is in (c, r # rs))"

locale simulation =
  fixes step :: "'s \<Rightarrow> 'i \<Rightarrow> ('s \<times> 'o) option"
    and astep :: "'a \<Rightarrow> 'i \<Rightarrow> 'a \<times> 'o"
    and R :: "'s \<Rightarrow> 'a \<Rightarrow> bool"
  assumes step_sim: "R s a \<Longrightarrow> \<exists>t. step s i = Some (t, snd (astep a i)) \<and> R t (fst (astep a i))"
begin

text \<open>Every run is defined, returns what the specification returns, and ends related to it.\<close>

lemma run_sim:
  "R s a \<Longrightarrow> \<exists>t. run_outputs step s is = Some (t, snd (spec_outputs astep a is)) \<and>
     R t (fst (spec_outputs astep a is))"
proof (induction "is" arbitrary: s a)
  case (Cons i "is")
  obtain b r where b: "astep a i = (b, r)" by (cases "astep a i")
  with step_sim [OF Cons.prems, of i] obtain t where t: "step s i = Some (t, r)" "R t b" by auto
  obtain c rs where c: "spec_outputs astep b is = (c, rs)" by (cases "spec_outputs astep b is")
  with Cons.IH [OF t(2)] obtain u where "run_outputs step t is = Some (u, rs)" "R u c" by auto
  with b t c show ?case by simp
qed simp

end

sublocale simulation \<subseteq> total_system "\<lambda>s i. map_option fst (step s i)" "\<lambda>s. \<exists>a. R s a"
proof
  fix s i t assume "\<exists>a. R s a" and t: "map_option fst (step s i) = Some t"
  then obtain a where "R s a" by blast
  from step_sim [OF this, of i] t show "\<exists>a. R t a" by auto
next
  fix s i assume "\<exists>a. R s a"
  then obtain a where "R s a" by blast
  from step_sim [OF this, of i] show "\<exists>t. map_option fst (step s i) = Some t" by auto
qed

subsection \<open>Encodings\<close>

text \<open>What a packed hardware structure promises: the fields put in can be read back.\<close>

locale codec =
  fixes enc :: "'a \<Rightarrow> 'b" and dec :: "'b \<Rightarrow> 'a" and ok :: "'a \<Rightarrow> bool"
  assumes dec_enc: "ok x \<Longrightarrow> dec (enc x) = x"
begin

lemma enc_eq_iff: "ok x \<Longrightarrow> ok y \<Longrightarrow> enc x = enc y \<longleftrightarrow> x = y"
  using dec_enc by metis

lemma table_roundtrip: "list_all ok xs \<Longrightarrow> map dec (map enc xs) = xs"
  by (induction xs) (auto simp: dec_enc)

lemma table_inj: "list_all ok xs \<Longrightarrow> list_all ok ys \<Longrightarrow> map enc xs = map enc ys \<Longrightarrow> xs = ys"
  using table_roundtrip by metis

end

text \<open>\<open>(struct s){0}\<close>: the all-zero value of a structure, as the type class \<open>zero\<close>.\<close>

instantiation unit :: zero
begin

definition zero_unit :: unit where
  "zero_unit = ()"

instance ..

end

end
