(* ===== verification/CMemory.thy ===== *)
theory CMemory
  imports Prelude
begin

unbundle bit_operations_syntax

section \<open>Byte memory\<close>

text \<open>
  Memory is a partial map from 64-bit addresses to bytes. An address outside its domain is
  unmapped: reading or writing it is undefined behaviour in the C and \<^const>\<open>None\<close> here.
  Address arithmetic wraps modulo \<open>2 ^ 64\<close>, as \<open>uintptr_t\<close> does. A range of \<open>n\<close> bytes at
  \<open>p\<close> is the set of addresses \<open>q\<close> with \<open>q - p < n\<close>, which stays right when it wraps.

  The locale \<open>byte_store\<close> is the interface the byte loops of the library rely on: three laws
  of a load and a store. It proves once what a filling loop and a copying loop do, and the
  interpretation \<open>bytes\<close> provides the laws for the partial map.
\<close>

type_synonym mem = "ptr \<rightharpoonup> u8"

definition load :: "ptr \<Rightarrow> mem \<Rightarrow> u8 option" where
  "load p m = m p"

definition store :: "ptr \<Rightarrow> u8 \<Rightarrow> mem \<Rightarrow> mem option" where
  "store p b m = (case m p of None \<Rightarrow> None | Some _ \<Rightarrow> Some (m(p \<mapsto> b)))"

definition in_range :: "ptr \<Rightarrow> ptr \<Rightarrow> usize \<Rightarrow> bool" where
  "in_range q p n \<longleftrightarrow> q - p < n"

definition mapped :: "ptr \<Rightarrow> usize \<Rightarrow> mem \<Rightarrow> bool" where
  "mapped p n m \<longleftrightarrow> (\<forall>q. in_range q p n \<longrightarrow> q \<in> dom m)"

definition disjoint_ranges :: "ptr \<Rightarrow> usize \<Rightarrow> ptr \<Rightarrow> usize \<Rightarrow> bool" where
  "disjoint_ranges p n q k \<longleftrightarrow> (\<forall>a. \<not> (in_range a p n \<and> in_range a q k))"

lemma in_range_offset: "in_range (p + i) p n \<longleftrightarrow> i < n"
  by (simp add: in_range_def)

lemma in_range_empty [simp]: "\<not> in_range q p 0"
  by (simp add: in_range_def)

lemma in_range_mono: "in_range q p n \<Longrightarrow> n \<le> k \<Longrightarrow> in_range q p k"
  by (simp add: in_range_def)

lemma mapped_empty [simp]: "mapped p 0 m"
  by (simp add: mapped_def)

lemma mapped_load: "mapped p n m \<Longrightarrow> i < n \<Longrightarrow> \<exists>b. load (p + i) m = Some b"
  by (auto simp: mapped_def load_def in_range_offset dest!: spec [of _ "p + i"])

lemma mapped_dom: "dom m' = dom m \<Longrightarrow> mapped p n m' = mapped p n m"
  by (simp add: mapped_def)

lemma mapped_mono: "mapped p n m \<Longrightarrow> (\<And>a. in_range a q k \<Longrightarrow> in_range a p n) \<Longrightarrow> mapped q k m"
  by (auto simp: mapped_def)

lemma store_dom: "store p b m = Some m' \<Longrightarrow> dom m' = dom m"
  by (auto simp: store_def split: option.splits if_splits)

lemma store_update: "store p b m = Some m' \<Longrightarrow> m' = m(p \<mapsto> b)"
  by (auto simp: store_def split: option.splits)

subsection \<open>The interface of the byte loops\<close>

locale byte_store =
  fixes ld :: "u64 \<Rightarrow> 'm \<Rightarrow> u8 option"
    and st :: "u64 \<Rightarrow> u8 \<Rightarrow> 'm \<Rightarrow> 'm option"
  assumes st_defined: "ld p m \<noteq> None \<Longrightarrow> \<exists>m'. st p b m = Some m'"
    and ld_st_same: "st p b m = Some m' \<Longrightarrow> ld p m' = Some b"
    and ld_st_other: "st p b m = Some m' \<Longrightarrow> q \<noteq> p \<Longrightarrow> ld q m' = ld q m"
begin

text \<open>\<open>for (i = 0; i < n; i++) out[i] = f(i);\<close>\<close>

lemma fill_loop:
  assumes "\<And>i. i < n \<Longrightarrow> ld (p + i) m \<noteq> None"
  shows "\<exists>m'. for_range 0 n (\<lambda>i. st (p + i) (f i)) m = Some m' \<and>
           (\<forall>q. ld q m' = (if q - p < n then Some (f (q - p)) else ld q m))"
proof (rule for_range_rule)
  show "\<forall>q. ld q m = (if q - p < 0 then Some (f (q - p)) else ld q m)" by simp
next
  fix j t
  assume I: "\<forall>q. ld q t = (if q - p < j then Some (f (q - p)) else ld q m)" and j: "j < n"
  have "ld (p + j) t \<noteq> None" using I assms [OF j] by simp
  then obtain t' where t': "st (p + j) (f j) t = Some t'" using st_defined by blast
  have "ld q t' = (if q - p < j + 1 then Some (f (q - p)) else ld q m)" for q
  proof (cases "q = p + j")
    case True
    have "j < j + 1" using j by (rule less_inc_self)
    with True show ?thesis using ld_st_same [OF t'] by simp
  next
    case False
    then have "q - p \<noteq> j" by auto
    then have "q - p < j + 1 \<longleftrightarrow> q - p < j"
      using less_inc_iff [OF j] by auto
    with False show ?thesis using ld_st_other [OF t' False] I by simp
  qed
  with t' show "\<exists>t'. st (p + j) (f j) t = Some t' \<and>
      (\<forall>q. ld q t' = (if q - p < j + 1 then Some (f (q - p)) else ld q m))" by blast
qed simp

text \<open>\<open>for (i = 0; i < n; i++) out[i] = in[i];\<close> Source and destination may overlap: what is
  claimed is that the loop completes and changes nothing outside the destination.\<close>

lemma copy_loop_safe:
  assumes "\<And>i. i < n \<Longrightarrow> ld (p + i) m \<noteq> None" "\<And>i. i < n \<Longrightarrow> ld (q + i) m \<noteq> None"
  shows "\<exists>m'. for_range 0 n (\<lambda>i m. Option.bind (ld (q + i) m) (\<lambda>b. st (p + i) b m)) m = Some m' \<and>
           (\<forall>a. \<not> a - p < n \<longrightarrow> ld a m' = ld a m) \<and> (\<forall>a. (ld a m' = None) = (ld a m = None))"
proof -
  let ?I = "\<lambda>(i::u64) t. (\<forall>a. \<not> a - p < n \<longrightarrow> ld a t = ld a m) \<and>
    (\<forall>a. (ld a t = None) = (ld a m = None))"
  have "\<exists>t. for_range 0 n (\<lambda>i m. Option.bind (ld (q + i) m) (\<lambda>b. st (p + i) b m)) m = Some t \<and>
      ?I n t"
  proof (rule for_range_rule [where I = ?I])
    fix j t assume I: "?I j t" and j: "j < n"
    have "ld (q + j) t \<noteq> None" using I assms(2) [OF j] by simp
    then obtain b where b: "ld (q + j) t = Some b" by blast
    have "ld (p + j) t \<noteq> None" using I assms(1) [OF j] by simp
    then obtain t' where t': "st (p + j) b t = Some t'" using st_defined by blast
    have "?I (j + 1) t'"
    proof (intro conjI allI impI)
      fix a assume "\<not> a - p < n"
      then have "a \<noteq> p + j" using j by auto
      then have "ld a t' = ld a t" by (rule ld_st_other [OF t'])
      also have "\<dots> = ld a m" using I \<open>\<not> a - p < n\<close> by blast
      finally show "ld a t' = ld a m" .
    next
      fix a show "(ld a t' = None) = (ld a m = None)"
        using I ld_st_same [OF t'] ld_st_other [OF t', of a] assms(1) [OF j]
        by (cases "a = p + j") auto
    qed
    with b t' show "\<exists>t'. Option.bind (ld (q + j) t) (\<lambda>b. st (p + j) b t) = Some t' \<and> ?I (j + 1) t'"
      by auto
  qed auto
  then show ?thesis by blast
qed

text \<open>When they do not overlap, the destination ends up holding the source.\<close>

lemma copy_loop_exact:
  assumes "\<And>i. i < n \<Longrightarrow> ld (p + i) m \<noteq> None" "\<And>i. i < n \<Longrightarrow> ld (q + i) m \<noteq> None"
    and "\<And>i j. i < n \<Longrightarrow> j < n \<Longrightarrow> q + i \<noteq> p + j"
  shows "\<exists>m'. for_range 0 n (\<lambda>i m. Option.bind (ld (q + i) m) (\<lambda>b. st (p + i) b m)) m = Some m' \<and>
           (\<forall>a. ld a m' = (if a - p < n then ld (q + (a - p)) m else ld a m))"
proof -
  let ?I = "\<lambda>i t. \<forall>a. ld a t = (if a - p < i then ld (q + (a - p)) m else ld a m)"
  show ?thesis
  proof (rule for_range_rule [where I = "\<lambda>i t. i \<le> n \<and> ?I i t", THEN ex_forward])
    fix j t assume I: "j \<le> n \<and> ?I j t" and j: "j < n"
    have src: "ld (q + j) t = ld (q + j) m"
    proof -
      have "\<not> (q + j) - p < j"
      proof
        assume "(q + j) - p < j"
        then have "(q + j) - p < n" using j by simp
        then show False using assms(3) [OF j, of "(q + j) - p"] by simp
      qed
      then show ?thesis using I by simp
    qed
    obtain b where b: "ld (q + j) t = Some b" using src assms(2) [OF j] by auto
    have "ld (p + j) t \<noteq> None" using I assms(1) [OF j] by simp
    then obtain t' where t': "st (p + j) b t = Some t'" using st_defined by blast
    have "ld a t' = (if a - p < j + 1 then ld (q + (a - p)) m else ld a m)" for a
    proof (cases "a = p + j")
      case True
      have "j < j + 1" using j by (rule less_inc_self)
      with True show ?thesis using ld_st_same [OF t'] b src by simp
    next
      case False
      then have "a - p \<noteq> j" by auto
      then have "a - p < j + 1 \<longleftrightarrow> a - p < j"
        using less_inc_iff [OF j] by auto
      with False show ?thesis using ld_st_other [OF t' False] I by simp
    qed
    moreover have "j + 1 \<le> n" by (rule inc_le [OF j])
    ultimately show "\<exists>t'. Option.bind (ld (q + j) t) (\<lambda>b. st (p + j) b t) = Some t' \<and>
        (j + 1 \<le> n \<and> ?I (j + 1) t')" using b t' by auto
  qed auto
qed

end

interpretation bytes: byte_store load store
  by unfold_locales (auto simp: load_def store_def split: option.splits)

subsection \<open>Byte strings in memory\<close>

text \<open>\<open>holds m p bs\<close>: the bytes \<open>bs\<close> lie at \<open>p\<close>.\<close>

fun holds :: "mem \<Rightarrow> ptr \<Rightarrow> u8 list \<Rightarrow> bool" where
  "holds m p [] = True"
| "holds m p (b # bs) = (m p = Some b \<and> holds m (p + 1) bs)"

lemma holds_iff: "holds m p bs \<longleftrightarrow> (\<forall>i < length bs. m (p + of_nat i) = Some (bs ! i))"
proof (induction bs arbitrary: p)
  case (Cons b bs)
  show ?case
  proof
    assume h: "holds m p (b # bs)"
    show "\<forall>i < length (b # bs). m (p + of_nat i) = Some ((b # bs) ! i)"
    proof (intro allI impI)
      fix i assume "i < length (b # bs)"
      with h Cons.IH [of "p + 1"] show "m (p + of_nat i) = Some ((b # bs) ! i)"
        by (cases i) (auto simp: add.assoc [symmetric])
    qed
  next
    assume h: "\<forall>i < length (b # bs). m (p + of_nat i) = Some ((b # bs) ! i)"
    have "m (p + 1 + of_nat i) = Some (bs ! i)" if "i < length bs" for i
      using h [rule_format, of "Suc i"] that by (simp add: add.assoc)
    with h [rule_format, of 0] Cons.IH [of "p + 1"] show "holds m p (b # bs)" by simp
  qed
qed simp

lemma holds_nth: "holds m p bs \<Longrightarrow> i < length bs \<Longrightarrow> m (p + of_nat i) = Some (bs ! i)"
  by (simp add: holds_iff)

lemma holds_append:
  "holds m p (bs @ cs) \<longleftrightarrow> holds m p bs \<and> holds m (p + of_nat (length bs)) cs"
  by (induction bs arbitrary: p) (auto simp: add.assoc add.commute add.left_commute)

lemma holds_take: "holds m p bs \<Longrightarrow> holds m p (take n bs)"
  by (auto simp: holds_iff)

lemma holds_word:
  assumes "holds m p bs" and "unat i < length bs"
  shows "m (p + i) = Some (bs ! unat i)"
  using holds_nth [OF assms] by simp

lemma holds_unique: "holds m p bs \<Longrightarrow> holds m p cs \<Longrightarrow> length bs = length cs \<Longrightarrow> bs = cs"
  by (auto simp: holds_iff list_eq_iff_nth_eq)

lemma holds_mapped: "holds m p bs \<Longrightarrow> length bs < 2 ^ 64 \<Longrightarrow> mapped p (of_nat (length bs)) m"
  unfolding mapped_def in_range_def
proof (intro allI impI)
  fix q assume h: "holds m p bs" "length bs < 2 ^ 64" "q - p < of_nat (length bs)"
  then have "unat (q - p) < length bs" by (simp add: word_less_nat_alt unat_of_nat64)
  from holds_word [OF h(1) this] show "q \<in> dom m" by auto
qed

text \<open>A frame rule: bytes outside the written range are still there.\<close>

lemma holds_frame:
  assumes "holds m p bs" and "\<And>i. i < length bs \<Longrightarrow> m' (p + of_nat i) = m (p + of_nat i)"
  shows "holds m' p bs"
  using assms by (simp add: holds_iff)

lemma disjoint_frame:
  assumes d: "disjoint_ranges p n q (of_nat k)" and k: "k < 2 ^ 64" "i < k"
  shows "\<not> in_range (q + of_nat i) p n"
proof -
  have "in_range (q + of_nat i) q (of_nat k)"
    using k by (simp add: in_range_offset word_less_nat_alt unat_of_nat64)
  with d show ?thesis by (auto simp: disjoint_ranges_def)
qed

subsection \<open>Little-endian fields\<close>

fun le_bytes :: "nat \<Rightarrow> 'a::len word \<Rightarrow> u8 list" where
  "le_bytes 0 w = []"
| "le_bytes (Suc n) w = ucast w # le_bytes n (drop_bit 8 w)"

abbreviation u16_bytes :: "u16 \<Rightarrow> u8 list" where
  "u16_bytes \<equiv> le_bytes 2"

abbreviation u32_bytes :: "u32 \<Rightarrow> u8 list" where
  "u32_bytes \<equiv> le_bytes 4"

abbreviation u64_bytes :: "u64 \<Rightarrow> u8 list" where
  "u64_bytes \<equiv> le_bytes 8"

fun word_of_bytes :: "u8 list \<Rightarrow> 'a::len word" where
  "word_of_bytes [] = 0"
| "word_of_bytes (b # bs) = ucast b OR push_bit 8 (word_of_bytes bs)"

fun store_bytes :: "ptr \<Rightarrow> u8 list \<Rightarrow> mem \<Rightarrow> mem option" where
  "store_bytes p [] m = Some m"
| "store_bytes p (b # bs) m = Option.bind (store p b m) (store_bytes (p + 1) bs)"

fun load_bytes :: "ptr \<Rightarrow> nat \<Rightarrow> mem \<Rightarrow> u8 list option" where
  "load_bytes p 0 m = Some []"
| "load_bytes p (Suc n) m =
     Option.bind (load p m) (\<lambda>b. Option.bind (load_bytes (p + 1) n m) (\<lambda>bs. Some (b # bs)))"

lemma length_le_bytes [simp]: "length (le_bytes n w) = n"
  by (induction n arbitrary: w) auto

lemma word_of_le_bytes_ucast: "word_of_bytes (le_bytes n w) = ucast (take_bit (8 * n) w)"
proof (induction n arbitrary: w)
  case (Suc n)
  show ?case
    by (rule bit_word_eqI) (auto simp: Suc bit_simps)
qed simp

lemma word_of_le_bytes: "word_of_bytes (le_bytes n w) = take_bit (8 * n) w"
  by (simp add: word_of_le_bytes_ucast)

lemma le_bytes_roundtrip: "LENGTH('a) \<le> 8 * n \<Longrightarrow> word_of_bytes (le_bytes n w) = (w :: 'a::len word)"
  by (simp add: word_of_le_bytes take_bit_word_eq_self)

lemma store_bytes_dom: "store_bytes p bs m = Some m' \<Longrightarrow> dom m' = dom m"
proof (induction bs arbitrary: p m)
  case (Cons b bs)
  then obtain t where "store p b m = Some t" "store_bytes (p + 1) bs t = Some m'"
    by (auto simp: bind_Some_iff)
  with Cons.IH store_dom show ?case by metis
qed simp

lemma load_bytes_holds: "load_bytes p n m = Some bs \<longleftrightarrow> holds m p bs \<and> length bs = n"
  by (induction n arbitrary: p bs) (auto simp: bind_Some_iff load_def length_Suc_conv)

text \<open>What storing a run of bytes does, provided the range does not reach around the address
  space.\<close>

lemma store_bytes_apply:
  assumes "mapped p (of_nat (length bs)) m" and "length bs < 2 ^ 64"
  shows "\<exists>m'. store_bytes p bs m = Some m' \<and>
    (\<forall>q. m' q = (if in_range q p (of_nat (length bs)) then Some (bs ! unat (q - p)) else m q))"
  using assms
proof (induction bs arbitrary: p m)
  case (Cons b bs)
  have len: "unat (of_nat (length (b # bs)) :: u64) = Suc (length bs)"
    using Cons.prems(2) by (simp only: unat_of_nat64 length_Cons)
  have lenb: "unat (of_nat (length bs) :: u64) = length bs"
    using Cons.prems(2) by (intro unat_of_nat64) simp
  have "in_range p p (of_nat (length (b # bs)))"
    using len by (simp add: in_range_def word_less_nat_alt del: length_Cons of_nat_Suc)
  with Cons.prems(1) obtain c where "m p = Some c" unfolding mapped_def by blast
  then have st: "store p b m = Some (m(p \<mapsto> b))" by (simp add: store_def)
  have rng: "in_range q p (of_nat (length (b # bs))) \<longleftrightarrow>
      q = p \<or> in_range q (p + 1) (of_nat (length bs))" for q
  proof (cases "q = p")
    case False
    then have "unat (q - p) = Suc (unat (q - (p + 1)))"
      using unat_inc_less [of "q - (p + 1)" "- 1"] by (simp add: less_le algebra_simps)
    with False show ?thesis
      using len lenb by (simp add: in_range_def word_less_nat_alt del: of_nat_Suc)
  qed (use len in \<open>simp add: in_range_def word_less_nat_alt del: length_Cons of_nat_Suc\<close>)
  have mp: "mapped (p + 1) (of_nat (length bs)) (m(p \<mapsto> b))"
    using Cons.prems(1) rng unfolding mapped_def by auto
  have "length bs < 2 ^ 64" using Cons.prems(2) by simp
  from Cons.IH [OF mp this] obtain m' where m':
    "store_bytes (p + 1) bs (m(p \<mapsto> b)) = Some m'"
    "\<forall>q. m' q = (if in_range q (p + 1) (of_nat (length bs)) then Some (bs ! unat (q - (p + 1)))
       else (m(p \<mapsto> b)) q)" by blast
  have notp: "\<not> in_range p (p + 1) (of_nat (length bs))"
  proof -
    have "p - (p + 1) = (- 1 :: u64)" by simp
    moreover have "unat (- 1 :: u64) = 2 ^ 64 - 1" by (simp add: unsigned_minus_1_eq_mask mask_eq_exp_minus_1)
    ultimately show ?thesis using Cons.prems(2) lenb by (simp add: in_range_def word_less_nat_alt)
  qed
  have "m' q = (if in_range q p (of_nat (length (b # bs))) then Some ((b # bs) ! unat (q - p)) else m q)"
    for q
  proof (cases "q = p")
    case True
    with m' notp rng show ?thesis by simp
  next
    case False
    then have "unat (q - p) = Suc (unat (q - (p + 1)))"
      using unat_inc_less [of "q - (p + 1)" "- 1"] by (simp add: less_le algebra_simps)
    with m' rng False show ?thesis by simp
  qed
  with st m'(1) show ?case by (auto simp del: length_Cons)
qed simp

end
