(* ===== verification/KLib.thy ===== *)
theory KLib
  imports CMemory
begin

section \<open>Memory and string primitives (kernel/lib/mem.c, kernel/lib/string.c)\<close>

text \<open>
  One definition per C function, over the byte memory. A pointer result is the first component;
  a memory that the function may change is threaded through. \<^const>\<open>None\<close> is undefined
  behaviour (an access outside the mapped memory), or, for \<open>kstrlen\<close>, a scan that never finds
  a terminator. The lemmas below give, for each function, when it is defined and what it then
  does; they rest on the loop lemmas of the \<open>byte_store\<close> interface.
\<close>

definition kmemset :: "ptr \<Rightarrow> u32 \<Rightarrow> usize \<Rightarrow> mem \<Rightarrow> (ptr \<times> mem) option" where
  "kmemset dst value len m =
     (if dst = 0 then Some (0, m)
      else Option.bind (for_range 0 len (\<lambda>i. store (dst + i) (ucast value)) m)
             (\<lambda>m'. Some (dst, m')))"

definition kmemcpy :: "ptr \<Rightarrow> ptr \<Rightarrow> usize \<Rightarrow> mem \<Rightarrow> (ptr \<times> mem) option" where
  "kmemcpy dst src len m =
     (if len = 0 then Some (dst, m)
      else if dst = 0 \<or> src = 0 then Some (0, m)
      else Option.bind
             (for_range 0 len (\<lambda>i m. Option.bind (load (src + i) m) (\<lambda>b. store (dst + i) b m)) m)
             (\<lambda>m'. Some (dst, m')))"

definition kmemcpy_checked :: "ptr \<Rightarrow> usize \<Rightarrow> ptr \<Rightarrow> usize \<Rightarrow> mem \<Rightarrow> (bool \<times> mem) option" where
  "kmemcpy_checked dst dst_len src src_len m =
     (if src_len > dst_len then Some (False, m)
      else Option.bind (kmemcpy dst src src_len m) (\<lambda>(r, m'). Some (r = dst, m')))"

partial_function (option) kstrlen_loop :: "ptr \<Rightarrow> usize \<Rightarrow> mem \<Rightarrow> usize option" where
  "kstrlen_loop text len m =
     Option.bind (load (text + len) m)
       (\<lambda>c. if c \<noteq> 0 then kstrlen_loop text (len + 1) m else Some len)"

definition kstrlen :: "ptr \<Rightarrow> mem \<Rightarrow> usize option" where
  "kstrlen text m = (if text = 0 then Some 0 else kstrlen_loop text 0 m)"

definition kmem_equal :: "ptr \<Rightarrow> ptr \<Rightarrow> usize \<Rightarrow> mem \<Rightarrow> bool option" where
  "kmem_equal lhs rhs len m =
     (if len = 0 then Some True
      else if lhs = 0 \<or> rhs = 0 then Some False
      else Option.bind
             (for_find 0 len
               (\<lambda>i. Option.bind (load (lhs + i) m) (\<lambda>l. Option.bind (load (rhs + i) m)
                  (\<lambda>r. Some (if l \<noteq> r then Some () else None)))))
             (\<lambda>found. Some (found = None)))"

declare kstrlen_loop.simps [code]

subsection \<open>Filling and copying\<close>

lemma mapped_loads: "mapped p n m \<Longrightarrow> i < n \<Longrightarrow> load (p + i) m \<noteq> None"
  using mapped_load by fastforce

lemma kmemset_null: "kmemset 0 v n m = Some (0, m)"
  by (simp add: kmemset_def)

lemma kmemset_spec:
  assumes "dst \<noteq> 0" and "mapped dst len m"
  shows "\<exists>m'. kmemset dst v len m = Some (dst, m') \<and>
    (\<forall>q. m' q = (if in_range q dst len then Some (ucast v) else m q))"
proof -
  have "\<And>i. i < len \<Longrightarrow> load (dst + i) m \<noteq> None" by (rule mapped_loads [OF assms(2)])
  from bytes.fill_loop [OF this, where f = "\<lambda>_. ucast v"] obtain m' where
    "for_range 0 len (\<lambda>i. store (dst + i) (ucast v)) m = Some m'"
    "\<forall>q. load q m' = (if q - dst < len then Some (ucast v) else load q m)" by blast
  with assms(1) show ?thesis by (simp add: kmemset_def load_def in_range_def)
qed

lemma kmemcpy_zero [simp]: "kmemcpy dst src 0 m = Some (dst, m)"
  by (simp add: kmemcpy_def)

text \<open>Overlapping or not, a copy between mapped ranges is defined, and touches the destination
  only.\<close>

lemma kmemcpy_safe:
  assumes "dst \<noteq> 0" "src \<noteq> 0" and "mapped dst len m" "mapped src len m"
  shows "\<exists>m'. kmemcpy dst src len m = Some (dst, m') \<and> dom m' = dom m \<and>
    (\<forall>q. \<not> in_range q dst len \<longrightarrow> m' q = m q)"
proof -
  from bytes.copy_loop_safe [OF mapped_loads [OF assms(3)] mapped_loads [OF assms(4)]]
  obtain m' where "for_range 0 len (\<lambda>i m. Option.bind (load (src + i) m) (\<lambda>b. store (dst + i) b m)) m
      = Some m'"
    "\<forall>a. \<not> a - dst < len \<longrightarrow> load a m' = load a m" "\<forall>a. (load a m' = None) = (load a m = None)"
    by blast
  moreover from this(3) have "dom m' = dom m" by (simp add: dom_def load_def)
  ultimately show ?thesis using assms(1,2)
    by (cases "len = 0") (auto simp: kmemcpy_def load_def in_range_def)
qed

lemma kmemcpy_exact:
  assumes "dst \<noteq> 0" "src \<noteq> 0" and "mapped dst (of_nat (length bs)) m" and "holds m src bs"
    and "length bs < 2 ^ 64"
    and "disjoint_ranges dst (of_nat (length bs)) src (of_nat (length bs))"
  shows "\<exists>m'. kmemcpy dst src (of_nat (length bs)) m = Some (dst, m') \<and> holds m' dst bs \<and>
    dom m' = dom m \<and> (\<forall>q. \<not> in_range q dst (of_nat (length bs)) \<longrightarrow> m' q = m q)"
proof (cases "bs = []")
  case False
  let ?n = "of_nat (length bs) :: u64"
  have n: "unat ?n = length bs" using assms(5) by (rule unat_of_nat64)
  from False assms(5) have n0: "?n \<noteq> 0" by (intro of_nat64_neq_0) simp_all
  have sm: "mapped src ?n m" by (rule holds_mapped [OF assms(4,5)])
  have dj: "src + i \<noteq> dst + j" if "i < ?n" "j < ?n" for i j
    using assms(6) that in_range_offset [of src i ?n] in_range_offset [of dst j ?n]
    unfolding disjoint_ranges_def by metis
  obtain m' where loop: "for_range 0 ?n (\<lambda>i m. Option.bind (load (src + i) m)
      (\<lambda>b. store (dst + i) b m)) m = Some m'"
    and m': "\<And>a. load a m' = (if a - dst < ?n then load (src + (a - dst)) m else load a m)"
    using bytes.copy_loop_exact [OF mapped_loads [OF assms(3)] mapped_loads [OF sm] dj] by auto
  have "holds m' dst bs"
    unfolding holds_iff
  proof (intro allI impI)
    fix i assume i: "i < length bs"
    then have "of_nat i < ?n" using n assms(5) by (simp add: word_less_nat_alt unat_of_nat64)
    then show "m' (dst + of_nat i) = Some (bs ! i)"
      using m' [of "dst + of_nat i"] holds_nth [OF assms(4) i] by (simp add: load_def)
  qed
  moreover have "dom m' = dom m"
  proof -
    obtain m'' where "kmemcpy dst src ?n m = Some (dst, m'')" "dom m'' = dom m"
      using kmemcpy_safe [OF assms(1,2,3) sm] by blast
    with loop n0 assms(1,2) show ?thesis by (auto simp: kmemcpy_def)
  qed
  ultimately show ?thesis using loop m' n0 assms(1,2)
    by (auto simp: kmemcpy_def load_def in_range_def)
qed simp

text \<open>A copy is defined whenever its ranges are mapped; NULL is only reported.\<close>

lemma kmemcpy_null: "len \<noteq> 0 \<Longrightarrow> dst = 0 \<or> src = 0 \<Longrightarrow> kmemcpy dst src len m = Some (0, m)"
  by (auto simp: kmemcpy_def)

lemma kmemcpy_checked_too_long:
  "dst_len < src_len \<Longrightarrow> kmemcpy_checked dst dst_len src src_len m = Some (False, m)"
  by (simp add: kmemcpy_checked_def)

lemma kmemcpy_checked_exact:
  assumes "dst \<noteq> 0" "src \<noteq> 0" and "mapped dst dst_len m" and "holds m src bs"
    and "length bs < 2 ^ 64" and "of_nat (length bs) \<le> dst_len"
    and "disjoint_ranges dst dst_len src (of_nat (length bs))"
  shows "\<exists>m'. kmemcpy_checked dst dst_len src (of_nat (length bs)) m = Some (True, m') \<and>
    holds m' dst bs \<and> dom m' = dom m \<and>
    (\<forall>q. \<not> in_range q dst (of_nat (length bs)) \<longrightarrow> m' q = m q)"
proof -
  let ?n = "of_nat (length bs) :: u64"
  have "mapped dst ?n m" using assms(3) in_range_mono [OF _ assms(6)] by (rule mapped_mono)
  moreover have "disjoint_ranges dst ?n src ?n"
    using assms(7) in_range_mono [OF _ assms(6)] by (auto simp: disjoint_ranges_def)
  ultimately obtain m' where "kmemcpy dst src ?n m = Some (dst, m')" "holds m' dst bs"
    "dom m' = dom m" "\<forall>q. \<not> in_range q dst ?n \<longrightarrow> m' q = m q"
    using kmemcpy_exact [OF assms(1,2) _ assms(4,5)] by blast
  with assms(6) show ?thesis by (simp add: kmemcpy_checked_def not_less [symmetric])
qed

subsection \<open>C strings\<close>

text \<open>A terminated string at \<open>p\<close>.\<close>

definition cstring_at :: "mem \<Rightarrow> ptr \<Rightarrow> u8 list \<Rightarrow> bool" where
  "cstring_at m p s \<longleftrightarrow> p \<noteq> 0 \<and> holds m p (s @ [0]) \<and> 0 \<notin> set s \<and> length s < 2 ^ 64 - 1"

lemma kstrlen_loop_spec:
  assumes "cstring_at m p s" and "unat i \<le> length s"
  shows "kstrlen_loop p i m = Some (of_nat (length s))"
  using assms(2)
proof (induction "length s - unat i" arbitrary: i)
  case 0
  then have i: "unat i = length s" by simp
  have "m (p + i) = Some 0"
    using assms(1) holds_word [of m p "s @ [0]" i] i by (simp add: cstring_at_def nth_append)
  moreover have "i = of_nat (length s)" using i by (simp add: i [symmetric])
  ultimately show ?case by (simp add: kstrlen_loop.simps load_def)
next
  case (Suc d)
  then have less: "unat i < length s" by simp
  have "m (p + i) = Some (s ! unat i)"
    using assms(1) holds_word [of m p "s @ [0]" i] less by (simp add: cstring_at_def nth_append)
  moreover have "s ! unat i \<noteq> 0" using assms(1) less by (auto simp: cstring_at_def in_set_conv_nth)
  moreover have "unat (i + 1) = Suc (unat i)"
  proof (rule unat_inc_less)
    show "i < - 1" using less assms(1)
      by (simp add: cstring_at_def word_less_nat_alt unsigned_minus_1_eq_mask mask_eq_exp_minus_1)
  qed
  ultimately show ?case using Suc less by (simp add: kstrlen_loop.simps [of p i] load_def)
qed

lemma kstrlen_spec: "cstring_at m p s \<Longrightarrow> kstrlen p m = Some (of_nat (length s))"
  using kstrlen_loop_spec [of m p s 0] by (simp add: kstrlen_def cstring_at_def)

lemma kstrlen_null: "kstrlen 0 m = Some 0"
  by (simp add: kstrlen_def)

lemma cstring_holds: "cstring_at m p s \<Longrightarrow> holds m p s"
  by (simp add: cstring_at_def holds_append)

lemma cstring_frame:
  assumes "cstring_at m p s"
    and "\<And>i. i < length s + 1 \<Longrightarrow> m' (p + of_nat i) = m (p + of_nat i)"
  shows "cstring_at m' p s"
  using assms holds_frame [of m p "s @ [0]" m'] by (auto simp: cstring_at_def)

subsection \<open>Comparing\<close>

lemma kmem_equal_spec:
  assumes "p \<noteq> 0" "q \<noteq> 0" and "holds m p as" "holds m q bs"
    and "length bs = length as" "length as < 2 ^ 64"
  shows "kmem_equal p q (of_nat (length as)) m = Some (as = bs)"
proof (cases "as = []")
  case True
  with assms(5) show ?thesis by (simp add: kmem_equal_def)
next
  case False
  let ?n = "of_nat (length as) :: u64"
  let ?g = "\<lambda>k. if as ! k \<noteq> bs ! k then Some () else None"
  have n: "unat ?n = length as" using assms(6) by (rule unat_of_nat64)
  with False have n0: "?n \<noteq> 0" by (metis length_0_conv unat_0)
  have loop: "for_find 0 ?n (\<lambda>i. Option.bind (load (p + i) m) (\<lambda>l. Option.bind (load (q + i) m)
      (\<lambda>r. Some (if l \<noteq> r then Some () else None)))) = Some (first_hit ?g (unat (0 :: u64)) (unat ?n))"
  proof (rule for_find_first_hit)
    fix k assume "k < unat ?n"
    with n have k: "k < length as" by simp
    show "Option.bind (load (p + of_nat k) m) (\<lambda>l. Option.bind (load (q + of_nat k) m)
        (\<lambda>r. Some (if l \<noteq> r then Some () else None))) = Some (?g k)"
      using holds_nth [OF assms(3) k] holds_nth [OF assms(4), of k] k assms(5)
      by (simp add: load_def)
  qed
  have eq: "first_hit ?g 0 (length as) = None \<longleftrightarrow> as = bs"
    by (auto simp: first_hit_None_iff assms(5) intro!: nth_equalityI split: if_splits)
  have "kmem_equal p q ?n m = Some (first_hit ?g 0 (length as) = None)"
    by (simp only: kmem_equal_def loop n unat_0 n0 assms(1,2) if_False simp_thms bind.bind_lunit)
  with eq show ?thesis by (simp only:)
qed

lemma kmem_equal_defined:
  assumes "mapped p n m" "mapped q n m"
  shows "\<exists>b. kmem_equal p q n m = Some b"
proof -
  let ?body = "\<lambda>i. Option.bind (load (p + i) m) (\<lambda>l. Option.bind (load (q + i) m)
      (\<lambda>r. Some (if l \<noteq> r then Some () else None)))"
  let ?g = "\<lambda>k. the (?body (of_nat k))"
  have "for_find 0 n ?body = Some (first_hit ?g (unat (0 :: u64)) (unat n))"
  proof (rule for_find_first_hit [where g = ?g])
    fix k assume "k < unat n"
    then have k: "(of_nat k :: u64) < n"
      using unat_lt_64 [of n] by (simp add: word_less_nat_alt unat_of_nat64)
    show "?body (of_nat k) = Some (?g k)"
      using mapped_load [OF assms(1) k] mapped_load [OF assms(2) k] by auto
  qed
  then show ?thesis unfolding kmem_equal_def by auto
qed

end
