(* ===== verification/KFs.thy ===== *)
theory KFs
  imports KLib
begin

section \<open>The read-only in-memory filesystem (kernel/fs.c, kernel/include/kernel/fs.h)\<close>

text \<open>
  A node is a record; nodes live in a typed heap \<open>node_at\<close>, because node pointers outlive a
  remount: the file table of a task keeps the pointer it was given. The array the filesystem
  was mounted with is its base pointer and count, and \<open>&mounted_nodes[i]\<close> is base plus
  \<open>32 * i\<close> (\<open>sizeof(struct kfs_node)\<close>). Paths and contents are bytes of the byte memory.
  A pointer to a handle or to a \<open>size_t\<close> result is \<^const>\<open>None\<close> for NULL and the pointed-to
  value otherwise; a \<open>struct kfs_stat *\<close> is an address, since the system call layer passes user
  addresses through it, and the structure is written as its 13 bytes of fields.

  \<open>fs_rep fs m files\<close> relates the mounted nodes to an abstract table: one entry per node, the
  path and contents of a valid node, \<^const>\<open>None\<close> for an invalid one. The theorems say that
  lookup finds the first entry with the given path, that reading returns the slice of its
  contents, and that neither touches memory outside the destination.
\<close>

datatype kfs_error = KFS_OK | KFS_EINVAL | KFS_ENOENT

fun kfs_error_code :: "kfs_error \<Rightarrow> u32" where
  "kfs_error_code KFS_OK = 0"
| "kfs_error_code KFS_EINVAL = 22"
| "kfs_error_code KFS_ENOENT = 2"

definition KFS_MODE_FILE :: u32 where
  [struct_defs]: "KFS_MODE_FILE = 0x8000"

record kfs_node =
  node_path :: ptr
  node_data :: ptr
  node_size :: usize
  node_mode :: u32

definition sizeof_kfs_node :: usize where
  [struct_defs]: "sizeof_kfs_node = 32"

record struct_kfs_stat =
  st_size :: usize
  st_mode :: u32
  st_is_file :: bool

definition sizeof_kfs_stat :: usize where
  [struct_defs]: "sizeof_kfs_stat = 16"

record kfs_handle =
  h_node :: ptr
  h_offset :: usize

record kfs =
  node_at :: "ptr \<rightharpoonup> kfs_node"
  mounted_nodes :: ptr
  mounted_count :: usize

subsection \<open>The operations\<close>

definition node_is_valid :: "kfs \<Rightarrow> ptr \<Rightarrow> bool option" where
  "node_is_valid fs node =
     (if node = 0 then Some False
      else do {
        nd \<leftarrow> node_at fs node;
        Some (if node_path nd = 0 \<or> node_mode nd \<noteq> KFS_MODE_FILE then False
              else if node_size nd > 0 \<and> node_data nd = 0 then False
              else True)
      })"

definition kfs_mount :: "ptr \<Rightarrow> usize \<Rightarrow> kfs \<Rightarrow> kfs" where
  "kfs_mount nodes count fs = fs\<lparr>mounted_nodes := nodes, mounted_count := count\<rparr>"

definition kfs_lookup :: "kfs \<Rightarrow> ptr \<Rightarrow> usize \<Rightarrow> mem \<Rightarrow> ptr option" where
  "kfs_lookup fs path path_len m =
     (if path = 0 \<or> path_len = 0 \<or> mounted_nodes fs = 0 then Some 0
      else do {
        r \<leftarrow> for_find 0 (mounted_count fs) (\<lambda>i.
               let node = mounted_nodes fs + sizeof_kfs_node * i in do {
                 valid \<leftarrow> node_is_valid fs node;
                 if \<not> valid then Some None
                 else do {
                   nd \<leftarrow> node_at fs node;
                   len \<leftarrow> kstrlen (node_path nd) m;
                   if len \<noteq> path_len then Some None
                   else do {
                     eq \<leftarrow> kmem_equal (node_path nd) path path_len m;
                     Some (if eq then Some node else None)
                   }
                 }
               });
        Some (case r of None \<Rightarrow> 0 | Some node \<Rightarrow> node)
      })"

definition kfs_open :: "kfs \<Rightarrow> ptr \<Rightarrow> kfs_handle option \<Rightarrow> mem \<Rightarrow> (kfs_error \<times> kfs_handle option) option" where
  "kfs_open fs path out_handle m =
     (if path = 0 \<or> out_handle = None then Some (KFS_EINVAL, out_handle)
      else do {
        len \<leftarrow> kstrlen path m;
        node \<leftarrow> kfs_lookup fs path len m;
        Some (if node = 0 then (KFS_ENOENT, Some \<lparr>h_node = 0, h_offset = 0\<rparr>)
              else (KFS_OK, Some \<lparr>h_node = node, h_offset = 0\<rparr>))
      })"

text \<open>The three field stores of a \<open>struct kfs_stat\<close>: size at 0, mode at 8, flag at 12; the
  three bytes of tail padding are not written.\<close>

definition store_kfs_stat :: "ptr \<Rightarrow> struct_kfs_stat \<Rightarrow> mem \<Rightarrow> mem option" where
  "store_kfs_stat out st m = do {
     m1 \<leftarrow> store_bytes out (u64_bytes (st_size st)) m;
     m2 \<leftarrow> store_bytes (out + 8) (u32_bytes (st_mode st)) m1;
     store_bytes (out + 12) [if st_is_file st then 1 else 0] m2
   }"

definition load_kfs_stat :: "ptr \<Rightarrow> mem \<Rightarrow> struct_kfs_stat option" where
  "load_kfs_stat p m = do {
     sz \<leftarrow> load_bytes p 8 m;
     md \<leftarrow> load_bytes (p + 8) 4 m;
     fl \<leftarrow> load (p + 12) m;
     Some \<lparr>st_size = word_of_bytes sz, st_mode = word_of_bytes md, st_is_file = (fl \<noteq> 0)\<rparr>
   }"

definition kfs_stat_node :: "kfs \<Rightarrow> ptr \<Rightarrow> ptr \<Rightarrow> mem \<Rightarrow> (kfs_error \<times> mem) option" where
  "kfs_stat_node fs node out m = do {
     valid \<leftarrow> node_is_valid fs node;
     if \<not> valid \<or> out = 0 then Some (KFS_EINVAL, m)
     else do {
       nd \<leftarrow> node_at fs node;
       m' \<leftarrow> store_kfs_stat out \<lparr>st_size = node_size nd, st_mode = node_mode nd, st_is_file = True\<rparr> m;
       Some (KFS_OK, m')
     }
   }"

definition kfs_stat :: "kfs \<Rightarrow> ptr \<Rightarrow> ptr \<Rightarrow> mem \<Rightarrow> (kfs_error \<times> mem) option" where
  "kfs_stat fs path out m =
     (if path = 0 \<or> out = 0 then Some (KFS_EINVAL, m)
      else do {
        len \<leftarrow> kstrlen path m;
        node \<leftarrow> kfs_lookup fs path len m;
        if node = 0 then do {
          m' \<leftarrow> store_kfs_stat out \<lparr>st_size = 0, st_mode = 0, st_is_file = False\<rparr> m;
          Some (KFS_ENOENT, m')
        } else kfs_stat_node fs node out m
      })"

definition kfs_read_node :: "kfs \<Rightarrow> ptr \<Rightarrow> usize \<Rightarrow> ptr \<Rightarrow> usize \<Rightarrow> mem \<Rightarrow> (usize \<times> mem) option" where
  "kfs_read_node fs node offset dst len m = do {
     valid \<leftarrow> node_is_valid fs node;
     if \<not> valid \<or> (len > 0 \<and> dst = 0) then Some (0, m)
     else do {
       nd \<leftarrow> node_at fs node;
       if offset \<ge> node_size nd then Some (0, m)
       else let available = node_size nd - offset;
                to_copy = (if len < available then len else available)
       in do {
         m' \<leftarrow> for_range 0 to_copy
                 (\<lambda>i m. do { b \<leftarrow> load (node_data nd + (offset + i)) m; store (dst + i) b m }) m;
         Some (to_copy, m')
       }
     }
   }"

definition kfs_read ::
  "kfs \<Rightarrow> kfs_handle option \<Rightarrow> ptr \<Rightarrow> usize \<Rightarrow> usize option \<Rightarrow> mem
   \<Rightarrow> (kfs_error \<times> kfs_handle option \<times> usize option \<times> mem) option" where
  "kfs_read fs handle dst len out_read m =
     (let out_read = map_option (\<lambda>_. 0) out_read in
      case handle of
        None \<Rightarrow> Some (KFS_EINVAL, handle, out_read, m)
      | Some h \<Rightarrow> do {
          valid \<leftarrow> node_is_valid fs (h_node h);
          if \<not> valid then Some (KFS_EINVAL, handle, out_read, m)
          else if len > 0 \<and> dst = 0 then Some (KFS_EINVAL, handle, out_read, m)
          else do {
            (bytes_read, m') \<leftarrow> kfs_read_node fs (h_node h) (h_offset h) dst len m;
            Some (KFS_OK, Some (h\<lparr>h_offset := h_offset h + bytes_read\<rparr>),
                  map_option (\<lambda>_. bytes_read) out_read, m')
          }
        })"


subsection \<open>Representation of the abstract file table\<close>

type_synonym entry = "(u8 list \<times> u8 list) option"

definition valid_node :: "kfs \<Rightarrow> ptr \<Rightarrow> bool" where
  "valid_node fs node \<longleftrightarrow> node_is_valid fs node = Some True"

definition node_rep :: "kfs \<Rightarrow> mem \<Rightarrow> ptr \<Rightarrow> u8 list \<Rightarrow> u8 list \<Rightarrow> bool" where
  "node_rep fs m node pth content \<longleftrightarrow> valid_node fs node \<and>
     (\<exists>nd. node_at fs node = Some nd \<and> cstring_at m (node_path nd) pth \<and>
       node_size nd = of_nat (length content) \<and> length content < 2 ^ 64 \<and>
       holds m (node_data nd) content)"

definition entry_rep :: "kfs \<Rightarrow> mem \<Rightarrow> ptr \<Rightarrow> entry \<Rightarrow> bool" where
  "entry_rep fs m node e \<longleftrightarrow> node \<noteq> 0 \<and>
     (case e of None \<Rightarrow> node_is_valid fs node = Some False
      | Some (pth, content) \<Rightarrow> node_rep fs m node pth content)"

definition node_ptr :: "kfs \<Rightarrow> nat \<Rightarrow> ptr" where
  "node_ptr fs i = mounted_nodes fs + sizeof_kfs_node * of_nat i"

definition fs_rep :: "kfs \<Rightarrow> mem \<Rightarrow> entry list \<Rightarrow> bool" where
  "fs_rep fs m files \<longleftrightarrow>
     (if mounted_nodes fs = 0 then files = []
      else length files = unat (mounted_count fs) \<and>
           (\<forall>i < length files. entry_rep fs m (node_ptr fs i) (files ! i)))"

text \<open>The abstract filesystem: a finite map from paths to contents, the first entry winning.\<close>

fun fs_map :: "entry list \<Rightarrow> (u8 list \<rightharpoonup> u8 list)" where
  "fs_map [] = Map.empty"
| "fs_map (None # es) = fs_map es"
| "fs_map (Some (pth, content) # es) = (fs_map es)(pth \<mapsto> content)"

definition find_entry :: "entry list \<Rightarrow> u8 list \<Rightarrow> nat option" where
  "find_entry files name =
     first_hit (\<lambda>k. case files ! k of Some (pth, _) \<Rightarrow> if pth = name then Some k else None
                    | None \<Rightarrow> None) 0 (length files)"

lemma find_entry_SomeD:
  assumes "find_entry files name = Some i"
  shows "i < length files \<and> (\<exists>c. files ! i = Some (name, c) \<and> fs_map files name = Some c)"
proof -
  let ?g = "\<lambda>k. case files ! k of Some (pth, _) \<Rightarrow> if pth = name then Some k else None | None \<Rightarrow> None"
  from first_hit_SomeD [OF assms [unfolded find_entry_def]] obtain k where k: "k < length files"
    "?g k = Some i" "\<forall>j < k. ?g j = None" by auto
  then obtain c where c: "files ! i = Some (name, c)" and ki: "k = i"
    by (auto split: option.splits if_splits)
  have "fs_map files name = Some c"
    using k(1,3) c unfolding ki
  proof (induction files arbitrary: i)
    case (Cons e es)
    show ?case
    proof (cases i)
      case 0
      with Cons.prems show ?thesis by simp
    next
      case (Suc j)
      have "fs_map es name = Some c"
      proof (rule Cons.IH)
        show "\<forall>l<j. (case es ! l of None \<Rightarrow> None
            | Some (pth, _) \<Rightarrow> if pth = name then Some l else None) = None"
          using Cons.prems(2) Suc by (fastforce split: option.splits)
      qed (use Cons.prems Suc in auto)
      moreover have "e = None \<or> (\<exists>q d. e = Some (q, d) \<and> q \<noteq> name)"
        using Cons.prems(2) Suc by (cases e) (auto dest: spec [of _ 0] split: if_splits)
      ultimately show ?thesis by auto
    qed
  qed simp
  with k(1) c ki show ?thesis by blast
qed

lemma fs_map_NoneI: "(\<And>c. Some (name, c) \<notin> set files) \<Longrightarrow> fs_map files name = None"
  by (induction files rule: fs_map.induct) auto

lemma find_entry_NoneD: "find_entry files name = None \<Longrightarrow> fs_map files name = None"
proof (rule fs_map_NoneI)
  fix c assume "find_entry files name = None"
  then have "\<forall>k < length files. files ! k \<noteq> Some (name, c)"
    by (fastforce simp: find_entry_def first_hit_None_iff split: option.splits if_splits)
  then show "Some (name, c) \<notin> set files" by (metis in_set_conv_nth)
qed

lemma find_entry_None_iff: "find_entry files name = None \<longleftrightarrow> fs_map files name = None"
  using find_entry_NoneD find_entry_SomeD by (cases "find_entry files name") fastforce+

lemma node_rep_valid: "node_rep fs m node pth content \<Longrightarrow> valid_node fs node"
  by (simp add: node_rep_def)

lemma valid_nodeD:
  assumes "valid_node fs node"
  obtains nd where "node \<noteq> 0" "node_at fs node = Some nd" "node_path nd \<noteq> 0"
    "node_mode nd = KFS_MODE_FILE" "node_size nd > 0 \<Longrightarrow> node_data nd \<noteq> 0"
  using assms by (auto simp: valid_node_def node_is_valid_def bind_Some_iff split: if_splits)

subsection \<open>Lookup\<close>

lemma lookup_body:
  assumes "entry_rep fs m node e" and "holds m p name" and "p \<noteq> 0" and "length name < 2 ^ 64"
  shows "do { valid \<leftarrow> node_is_valid fs node;
              if \<not> valid then Some None
              else do {
                nd \<leftarrow> node_at fs node;
                len \<leftarrow> kstrlen (node_path nd) m;
                if len \<noteq> of_nat (length name) then Some None
                else do {
                  eq \<leftarrow> kmem_equal (node_path nd) p (of_nat (length name)) m;
                  Some (if eq then Some node else None)
                }
              }
            } =
         Some (case e of Some (pth, _) \<Rightarrow> if pth = name then Some node else None | None \<Rightarrow> None)"
proof (cases e)
  case None
  with assms(1) show ?thesis by (simp add: entry_rep_def)
next
  case (Some pc)
  obtain pth content where pc: "pc = (pth, content)" by (cases pc)
  with Some assms(1) have nr: "node_rep fs m node pth content" by (simp add: entry_rep_def)
  then obtain nd where nd: "node_at fs node = Some nd" "cstring_at m (node_path nd) pth"
    "node_is_valid fs node = Some True" by (auto simp: node_rep_def valid_node_def)
  have len: "kstrlen (node_path nd) m = Some (of_nat (length pth))"
    by (rule kstrlen_spec [OF nd(2)])
  have pl: "length pth < 2 ^ 64" using nd(2) by (simp add: cstring_at_def)
  show ?thesis
  proof (cases "length pth = length name")
    case True
    have "node_path nd \<noteq> 0" using nd(2) by (simp add: cstring_at_def)
    then have eq: "kmem_equal (node_path nd) p (of_nat (length name)) m = Some (pth = name)"
      unfolding True [symmetric]
      by (rule kmem_equal_spec [OF _ assms(3) cstring_holds [OF nd(2)] assms(2) True [symmetric] pl])
    from nd(1,3) len eq show ?thesis unfolding Some pc True by simp
  next
    case False
    then have "(of_nat (length pth) :: u64) \<noteq> of_nat (length name)"
      using pl assms(4) by (simp only: of_nat64_inj not_False_eq_True)
    with nd(1,3) len False show ?thesis unfolding Some pc by auto
  qed
qed

lemma first_hit_map:
  "first_hit (\<lambda>k. map_option (h k) (g k)) i n =
   (case find (\<lambda>k. g k \<noteq> None) [i..<n] of None \<Rightarrow> None | Some k \<Rightarrow> map_option (h k) (g k))"
  by (simp add: first_hit_def)

lemma kfs_lookup_spec:
  assumes rep: "fs_rep fs m files" and h: "holds m p name" and p: "p \<noteq> 0"
    and len: "length name < 2 ^ 64" and ne: "name \<noteq> []"
  shows "kfs_lookup fs p (of_nat (length name)) m =
    Some (case find_entry files name of None \<Rightarrow> 0 | Some i \<Rightarrow> node_ptr fs i)"
proof (cases "mounted_nodes fs = 0")
  case True
  with rep show ?thesis by (simp add: kfs_lookup_def fs_rep_def find_entry_def)
next
  case False
  let ?sel = "\<lambda>k. case files ! k of Some (pth, _) \<Rightarrow> if pth = name then Some k else None | None \<Rightarrow> None"
  let ?g = "\<lambda>k. case files ! k of Some (pth, _) \<Rightarrow> if pth = name then Some (node_ptr fs k) else None
    | None \<Rightarrow> None"
  let ?body = "\<lambda>i. let node = mounted_nodes fs + sizeof_kfs_node * i in
      do { valid \<leftarrow> node_is_valid fs node;
           if \<not> valid then Some None
           else do { nd \<leftarrow> node_at fs node; l \<leftarrow> kstrlen (node_path nd) m;
                     if l \<noteq> of_nat (length name) then Some None
                     else do { eq \<leftarrow> kmem_equal (node_path nd) p (of_nat (length name)) m;
                               Some (if eq then Some node else None) } } }"
  from rep False have n: "length files = unat (mounted_count fs)"
    and er: "\<And>i. i < length files \<Longrightarrow> entry_rep fs m (node_ptr fs i) (files ! i)"
    by (auto simp: fs_rep_def)
  have n0: "(of_nat (length name) :: u64) \<noteq> 0"
    using ne len by (intro of_nat64_neq_0) simp_all
  have loop: "for_find 0 (mounted_count fs) ?body = Some (first_hit ?g (unat (0 :: u64)) (unat (mounted_count fs)))"
  proof (rule for_find_first_hit)
    fix k assume "k < unat (mounted_count fs)"
    with n er have "entry_rep fs m (node_ptr fs k) (files ! k)" by simp
    from lookup_body [OF this h p len] show "?body (of_nat k) = Some (?g k)"
      by (simp only: Let_def node_ptr_def)
  qed
  have sel: "first_hit ?g 0 (length files) = map_option (node_ptr fs) (find_entry files name)"
  proof -
    have g: "?g = (\<lambda>k. map_option (node_ptr fs) (?sel k))"
      by (auto simp: fun_eq_iff split: option.splits)
    show ?thesis unfolding g find_entry_def first_hit_def by (simp split: option.splits)
  qed
  have "kfs_lookup fs p (of_nat (length name)) m =
      Some (case first_hit ?g 0 (length files) of None \<Rightarrow> 0 | Some node \<Rightarrow> node)"
    by (simp only: kfs_lookup_def p n0 False simp_thms if_False loop n unat_0 bind.bind_lunit)
  with sel show ?thesis by (simp split: option.splits)
qed


subsection \<open>Reading\<close>

definition read_len :: "usize \<Rightarrow> usize \<Rightarrow> usize \<Rightarrow> usize" where
  "read_len sz offset len = (if offset \<ge> sz then 0 else min len (sz - offset))"

lemma read_len_le: "read_len sz offset len \<le> len"
  by (simp add: read_len_def)

lemma read_len_sum:
  assumes "offset \<le> sz"
  shows "offset + read_len sz offset len \<le> sz" "offset \<le> offset + read_len sz offset len"
proof -
  let ?k = "read_len sz offset len"
  have "?k \<le> sz - offset" using assms by (auto simp: read_len_def)
  then have k: "unat ?k \<le> unat sz - unat offset"
    using assms by (simp add: word_le_nat_alt unat_minus_le)
  then have "unat offset + unat ?k < 2 ^ 64"
    using unat_lt_64 [of sz] assms by (simp add: word_le_nat_alt)
  then have "unat (offset + ?k) = unat offset + unat ?k" by (rule unat_plus_no_overflow)
  with k assms show "offset + ?k \<le> sz" "offset \<le> offset + ?k"
    by (auto simp: word_le_nat_alt)
qed

lemma read_src_range:
  assumes "i < read_len sz offset len"
  shows "offset + i < sz"
proof -
  from assms have lt: "\<not> offset \<ge> sz" and i: "i < sz - offset"
    by (auto simp: read_len_def split: if_splits)
  from i lt have "unat i < unat sz - unat offset"
    by (simp add: word_less_nat_alt unat_minus_le)
  then have "unat offset + unat i < unat sz" by simp
  moreover from this have "unat (offset + i) = unat offset + unat i"
    using unat_lt_64 [of sz] by (intro unat_plus_no_overflow) simp
  ultimately show ?thesis by (simp add: word_less_nat_alt)
qed

lemma min_if: "(if (a :: u64) < b then a else b) = min a b"
  by (auto simp: min_def)

lemma kfs_read_node_unfold:
  assumes "valid_node fs node" "node_at fs node = Some nd" and "len \<noteq> 0 \<Longrightarrow> dst \<noteq> 0"
  shows "kfs_read_node fs node offset dst len m =
    Option.bind (for_range 0 (read_len (node_size nd) offset len)
       (\<lambda>i m. Option.bind (load (node_data nd + offset + i) m) (\<lambda>b. store (dst + i) b m)) m)
       (\<lambda>m'. Some (read_len (node_size nd) offset len, m'))"
  using assms
  by (auto simp: kfs_read_node_def valid_node_def read_len_def min_if Let_def add.assoc
      for_range_done word_neq_0_conv)

text \<open>Memory safety needs only that the file's bytes and the destination are mapped.\<close>

lemma kfs_read_node_safe:
  assumes v: "valid_node fs node" and nd: "node_at fs node = Some nd"
    and src: "mapped (node_data nd) (node_size nd) m"
    and dst: "len \<noteq> 0 \<Longrightarrow> dst \<noteq> 0" "mapped dst len m"
  shows "\<exists>m'. kfs_read_node fs node offset dst len m = Some (read_len (node_size nd) offset len, m') \<and>
    dom m' = dom m \<and> (\<forall>q. \<not> in_range q dst len \<longrightarrow> m' q = m q)"
proof -
  let ?k = "read_len (node_size nd) offset len"
  have "load (dst + i) m \<noteq> None" if "i < ?k" for i
    using mapped_loads [OF dst(2)] less_le_trans [OF that read_len_le] by blast
  moreover have "load (node_data nd + offset + i) m \<noteq> None" if "i < ?k" for i
    using mapped_loads [OF src read_src_range [OF that]] by (simp add: add.assoc)
  ultimately obtain m' where loop: "for_range 0 ?k (\<lambda>i m. Option.bind (load (node_data nd + offset + i) m)
      (\<lambda>b. store (dst + i) b m)) m = Some m'"
    and fr: "\<forall>a. \<not> a - dst < ?k \<longrightarrow> load a m' = load a m"
    and dm: "\<forall>a. (load a m' = None) = (load a m = None)"
    using bytes.copy_loop_safe [of ?k dst m "node_data nd + offset"] by blast
  have "dom m' = dom m" using dm by (simp add: dom_def load_def)
  moreover have "m' q = m q" if "\<not> in_range q dst len" for q
    using fr that less_le_trans [OF _ read_len_le] by (fastforce simp: load_def in_range_def)
  ultimately show ?thesis using loop v nd dst(1) by (simp add: kfs_read_node_unfold)
qed

text \<open>Functional correctness: the destination receives the slice of the contents.\<close>

definition slice :: "u8 list \<Rightarrow> usize \<Rightarrow> usize \<Rightarrow> u8 list" where
  "slice content offset len = take (unat len) (drop (unat offset) content)"

lemma read_len_slice:
  assumes "length content < 2 ^ 64"
  shows "read_len (of_nat (length content)) offset len = of_nat (length (slice content offset len))"
proof -
  let ?s = "of_nat (length content) :: u64"
  have s: "unat ?s = length content" using assms by (rule unat_of_nat64)
  have "unat (read_len ?s offset len) = length (slice content offset len)"
  proof (cases "offset \<ge> ?s")
    case True
    with s show ?thesis by (simp add: read_len_def slice_def word_le_nat_alt)
  next
    case False
    with s show ?thesis
      by (simp add: read_len_def slice_def min_def word_le_nat_alt unat_minus_le)
  qed
  then show ?thesis by (metis word_unat_eq_iff unat_of_nat64 unat_lt_64)
qed

lemma slice_empty: "length content \<le> unat offset \<Longrightarrow> slice content offset len = []"
  by (simp add: slice_def)

lemma kfs_read_node_exact:
  assumes rep: "node_rep fs m node pth content" and nd: "node_at fs node = Some nd"
    and dst: "len \<noteq> 0 \<Longrightarrow> dst \<noteq> 0" "mapped dst len m"
    and disj: "disjoint_ranges dst len (node_data nd) (node_size nd)"
  shows "\<exists>m'. kfs_read_node fs node offset dst len m = Some (of_nat (length (slice content offset len)), m') \<and>
    holds m' dst (slice content offset len) \<and> dom m' = dom m \<and>
    (\<forall>q. \<not> in_range q dst (of_nat (length (slice content offset len))) \<longrightarrow> m' q = m q)"
proof -
  let ?k = "read_len (node_size nd) offset len"
  from rep nd have v: "valid_node fs node" and szq: "node_size nd = of_nat (length content)"
    and cl: "length content < 2 ^ 64" and h: "holds m (node_data nd) content"
    by (auto simp: node_rep_def)
  have k: "?k = of_nat (length (slice content offset len))"
    unfolding szq by (rule read_len_slice [OF cl])
  have src: "mapped (node_data nd) (node_size nd) m"
    unfolding szq by (rule holds_mapped [OF h cl])
  obtain m0 where m0: "kfs_read_node fs node offset dst len m = Some (?k, m0)"
    "dom m0 = dom m" "\<forall>q. \<not> in_range q dst len \<longrightarrow> m0 q = m q"
    using kfs_read_node_safe [OF v nd src dst] by blast
  have "load (dst + i) m \<noteq> None" if "i < ?k" for i
    using mapped_loads [OF dst(2)] less_le_trans [OF that read_len_le] by blast
  moreover have "load (node_data nd + offset + i) m \<noteq> None" if "i < ?k" for i
    using mapped_loads [OF src read_src_range [OF that]] by (simp add: add.assoc)
  moreover have "node_data nd + offset + i \<noteq> dst + j" if "i < ?k" "j < ?k" for i j
  proof
    assume eq: "node_data nd + offset + i = dst + j"
    have "in_range (node_data nd + (offset + i)) (node_data nd) (node_size nd)"
      using read_src_range [OF that(1)] by (simp only: in_range_offset)
    moreover have "in_range (dst + j) dst len"
      using less_le_trans [OF that(2) read_len_le] by (simp only: in_range_offset)
    ultimately show False using disj eq by (auto simp: disjoint_ranges_def add.assoc)
  qed
  ultimately obtain m' where loop: "for_range 0 ?k (\<lambda>i m. Option.bind (load (node_data nd + offset + i) m)
      (\<lambda>b. store (dst + i) b m)) m = Some m'"
    and m': "\<And>a. load a m' = (if a - dst < ?k then load (node_data nd + offset + (a - dst)) m else load a m)"
    using bytes.copy_loop_exact [of ?k dst m "node_data nd + offset"] by blast
  have m0': "m0 = m'" using m0(1) loop v nd dst(1) by (simp add: kfs_read_node_unfold)
  have "holds m' dst (slice content offset len)"
    unfolding holds_iff
  proof (intro allI impI)
    fix i assume i: "i < length (slice content offset len)"
    then have il: "i < length content - unat offset" by (simp add: slice_def)
    have i64: "i < 2 ^ 64" using il cl by simp
    have ks: "unat ?k = length (slice content offset len)"
      unfolding k by (rule unat_of_nat64) (use cl in \<open>simp add: slice_def\<close>)
    have ik: "(of_nat i :: u64) < ?k"
      by (simp only: word_less_nat_alt unat_of_nat64 [OF i64] ks i)
    have "unat (offset + of_nat i) = unat offset + i"
      using il cl unat_plus_no_overflow [of offset "of_nat i"] unat_of_nat64 [OF i64] by simp
    then have "m (node_data nd + (offset + of_nat i)) = Some (content ! (unat offset + i))"
      using holds_word [OF h, of "offset + of_nat i"] il by simp
    then show "m' (dst + of_nat i) = Some (slice content offset len ! i)"
      using m' [of "dst + of_nat i"] ik i il by (simp add: load_def add.assoc slice_def nth_drop)
  qed
  moreover have "\<forall>q. \<not> in_range q dst ?k \<longrightarrow> m' q = m q"
    using m' by (simp add: load_def in_range_def)
  ultimately show ?thesis using m0 m0' unfolding k by auto
qed

subsection \<open>The status structure\<close>

lemma in_range_shift:
  assumes "in_range q (p + of_nat a) (of_nat n)" and "a + n \<le> b" and "b < 2 ^ 64"
  shows "in_range q p (of_nat b)"
proof -
  have "unat (q - (p + of_nat a)) < n"
    using assms by (simp add: in_range_def word_less_nat_alt unat_of_nat64)
  moreover have "q - p = (q - (p + of_nat a)) + of_nat a" by simp
  moreover have "unat (of_nat a :: u64) = a" using assms by (intro unat_of_nat64) simp
  ultimately have "unat (q - p) < a + n"
    using assms unat_plus_no_overflow [of "q - (p + of_nat a)" "of_nat a"] by simp
  with assms show ?thesis by (simp add: in_range_def word_less_nat_alt unat_of_nat64)
qed

lemma store_bytes_holds:
  assumes "mapped p (of_nat (length bs)) m" and "length bs < 2 ^ 64"
  shows "\<exists>m'. store_bytes p bs m = Some m' \<and> holds m' p bs \<and> dom m' = dom m \<and>
    (\<forall>q. \<not> in_range q p (of_nat (length bs)) \<longrightarrow> m' q = m q)"
proof -
  obtain m' where m': "store_bytes p bs m = Some m'"
    "\<forall>q. m' q = (if in_range q p (of_nat (length bs)) then Some (bs ! unat (q - p)) else m q)"
    using store_bytes_apply [OF assms] by blast
  have "holds m' p bs"
    unfolding holds_iff
  proof (intro allI impI)
    fix i assume "i < length bs"
    moreover from this assms(2) have "unat (of_nat i :: u64) = i" by (intro unat_of_nat64) simp
    ultimately show "m' (p + of_nat i) = Some (bs ! i)"
      using m'(2) assms(2) by (simp add: in_range_def word_less_nat_alt unat_of_nat64)
  qed
  with m' store_bytes_dom show ?thesis by auto
qed

lemma holds_store_other:
  assumes "holds m p bs" and "\<forall>q. \<not> in_range q (p + of_nat a) n \<longrightarrow> m' q = m q"
    and "length bs \<le> a" and "a + unat n < 2 ^ 64"
  shows "holds m' p bs"
proof (rule holds_frame [OF assms(1)])
  fix i assume i: "i < length bs"
  have "\<not> in_range (p + of_nat i) (p + of_nat a) n"
  proof
    assume h: "in_range (p + of_nat i) (p + of_nat a) n"
    have ua: "unat (of_nat a :: u64) = a" using assms(4) by (intro unat_of_nat64) simp
    have ui: "unat (of_nat i :: u64) = i" using assms(3,4) i by (intro unat_of_nat64) simp
    let ?d = "of_nat i - of_nat a :: u64"
    from h have d: "unat ?d < unat n" by (simp add: in_range_def word_less_nat_alt)
    then have "unat (?d + of_nat a) = unat ?d + a"
      using assms(4) ua unat_plus_no_overflow [of ?d "of_nat a"] by simp
    then have "i = unat ?d + a" using ui by simp
    then show False using assms(3) i by simp
  qed
  then show "m' (p + of_nat i) = m (p + of_nat i)" using assms(2) by blast
qed

text \<open>Writing the structure succeeds on a mapped 16-byte range, changes only its 13 bytes of
  fields, and reading it back gives the value: a round trip.\<close>

lemma store_kfs_stat_spec:
  assumes "mapped out sizeof_kfs_stat m"
  shows "\<exists>m'. store_kfs_stat out st m = Some m' \<and> load_kfs_stat out m' = Some st \<and> dom m' = dom m \<and>
    (\<forall>q. \<not> in_range q out 13 \<longrightarrow> m' q = m q)"
proof -
  let ?sz = "u64_bytes (st_size st)" and ?md = "u32_bytes (st_mode st)"
    and ?fl = "[if st_is_file st then 1 else 0 :: u8]"
  have sub: "in_range q out (of_nat b)"
    if "in_range q (out + of_nat a) (of_nat n)" "a + n \<le> b" "b \<le> 16" for q a n b
    using in_range_shift [OF that(1,2)] that(3) by simp
  have s16: "mapped (out + of_nat a) (of_nat n) m'"
    if "a + n \<le> 16" "dom m' = dom m" for a n m'
    using assms sub [OF _ that(1)] that(2) unfolding mapped_def by (simp add: sizeof_kfs_stat_def)
  obtain m1 where m1: "store_bytes out ?sz m = Some m1" "holds m1 out ?sz" "dom m1 = dom m"
    "\<forall>q. \<not> in_range q out 8 \<longrightarrow> m1 q = m q"
    using store_bytes_holds [of out ?sz m] s16 [of 0 8 m] by auto
  obtain m2 where m2: "store_bytes (out + 8) ?md m1 = Some m2" "holds m2 (out + 8) ?md"
    "dom m2 = dom m1" "\<forall>q. \<not> in_range q (out + 8) 4 \<longrightarrow> m2 q = m1 q"
    using store_bytes_holds [of "out + 8" ?md m1] s16 [of 8 4 m1] m1(3) by auto
  obtain m3 where m3: "store_bytes (out + 12) ?fl m2 = Some m3" "holds m3 (out + 12) ?fl"
    "dom m3 = dom m2" "\<forall>q. \<not> in_range q (out + 12) 1 \<longrightarrow> m3 q = m2 q"
    using store_bytes_holds [of "out + 12" ?fl m2] s16 [of 12 1 m2] m1(3) m2(3)
    by (auto simp del: store_bytes.simps)
  have "holds m2 out ?sz" by (rule holds_store_other [OF m1(2), of 8 4]) (use m2(4) in simp_all)
  then have h1: "holds m3 out ?sz"
    by (rule holds_store_other [of _ _ _ 12 1]) (use m3(4) in simp_all)
  have h2: "holds m3 (out + 8) ?md"
    by (rule holds_store_other [OF m2(2), of 4 1]) (use m3(4) in \<open>simp_all add: add.assoc\<close>)
  have "load_bytes out 8 m3 = Some ?sz" "load_bytes (out + 8) 4 m3 = Some ?md"
    using h1 h2 by (simp_all add: load_bytes_holds del: le_bytes.simps)
  moreover have "load (out + 12) m3 = Some (if st_is_file st then 1 else 0)"
    using m3(2) by (simp add: load_def)
  ultimately have ld: "load_kfs_stat out m3 = Some st"
    by (simp add: load_kfs_stat_def le_bytes_roundtrip)
  have "m3 q = m q" if "\<not> in_range q out 13" for q
  proof -
    have "\<not> in_range q out 8" "\<not> in_range q (out + 8) 4" "\<not> in_range q (out + 12) 1"
      using that sub [of q 0 8 13] sub [of q 8 4 13] sub [of q 12 1 13] by auto
    with m1(4) m2(4) m3(4) show ?thesis by simp
  qed
  with ld m1 m2 m3 show ?thesis by (auto simp: store_kfs_stat_def simp del: store_bytes.simps)
qed

lemma store_bytes_append:
  "store_bytes p (as @ bs) =
    (\<lambda>m. Option.bind (store_bytes p as m) (store_bytes (p + of_nat (length as)) bs))"
proof (induction as arbitrary: p)
  case (Cons a as)
  show ?case by (rule ext) (simp add: Cons bind_assoc add.assoc)
qed simp

definition stat_bytes :: "struct_kfs_stat \<Rightarrow> u8 list" where
  "stat_bytes st = u64_bytes (st_size st) @ u32_bytes (st_mode st) @ [if st_is_file st then 1 else 0]"

lemma length_stat_bytes [simp]: "length (stat_bytes st) = 13"
  by (simp add: stat_bytes_def)

lemma store_kfs_stat_bytes: "store_kfs_stat out st m = store_bytes out (stat_bytes st) m"
  by (simp add: store_kfs_stat_def stat_bytes_def store_bytes_append add.assoc bind_assoc
      del: store_bytes.simps le_bytes.simps)

lemma kfs_stat_node_spec:
  assumes "valid_node fs node" "node_at fs node = Some nd" and "out \<noteq> 0" "mapped out sizeof_kfs_stat m"
  shows "\<exists>m'. kfs_stat_node fs node out m = Some (KFS_OK, m') \<and>
    load_kfs_stat out m' = Some \<lparr>st_size = node_size nd, st_mode = KFS_MODE_FILE, st_is_file = True\<rparr> \<and>
    dom m' = dom m \<and> (\<forall>q. \<not> in_range q out 13 \<longrightarrow> m' q = m q)"
proof -
  have "node_mode nd = KFS_MODE_FILE" using assms(1,2) by (auto elim: valid_nodeD)
  moreover obtain m' where "store_kfs_stat out
      \<lparr>st_size = node_size nd, st_mode = node_mode nd, st_is_file = True\<rparr> m = Some m'"
    "load_kfs_stat out m' = Some \<lparr>st_size = node_size nd, st_mode = node_mode nd, st_is_file = True\<rparr>"
    "dom m' = dom m" "\<forall>q. \<not> in_range q out 13 \<longrightarrow> m' q = m q"
    using store_kfs_stat_spec [OF assms(4)] by blast
  moreover have "node_is_valid fs node = Some True" using assms(1) by (simp add: valid_node_def)
  ultimately show ?thesis using assms(2,3) by (simp add: kfs_stat_node_def)
qed

subsection \<open>Paths and handles\<close>

lemma kfs_lookup_files:
  assumes rep: "fs_rep fs m files" and p: "cstring_at m p name"
  shows "\<exists>node. kfs_lookup fs p (of_nat (length name)) m = Some node \<and>
    (case (if name = [] then None else fs_map files name) of
       None \<Rightarrow> node = 0
     | Some content \<Rightarrow> node \<noteq> 0 \<and> node_rep fs m node name content)"
proof (cases "name = []")
  case True
  then show ?thesis by (simp add: kfs_lookup_def)
next
  case False
  have h: "holds m p name" "p \<noteq> 0" "length name < 2 ^ 64"
    using p cstring_holds [OF p] by (simp_all add: cstring_at_def)
  note lk = kfs_lookup_spec [OF rep h False]
  show ?thesis
  proof (cases "find_entry files name")
    case None
    with lk find_entry_NoneD [OF None] False show ?thesis by simp
  next
    case (Some i)
    from find_entry_SomeD [OF Some] obtain c where c: "i < length files" "files ! i = Some (name, c)"
      "fs_map files name = Some c" by blast
    with rep have "entry_rep fs m (node_ptr fs i) (Some (name, c))"
      by (auto simp: fs_rep_def split: if_splits)
    with lk Some c(3) False show ?thesis by (simp add: entry_rep_def)
  qed
qed

lemma kfs_open_spec:
  assumes rep: "fs_rep fs m files" and p: "cstring_at m p name"
  shows "case (if name = [] then None else fs_map files name) of
      None \<Rightarrow> kfs_open fs p (Some h) m = Some (KFS_ENOENT, Some \<lparr>h_node = 0, h_offset = 0\<rparr>)
    | Some content \<Rightarrow> \<exists>node. kfs_open fs p (Some h) m = Some (KFS_OK, Some \<lparr>h_node = node, h_offset = 0\<rparr>) \<and>
        node_rep fs m node name content"
proof -
  have "p \<noteq> 0" using p by (simp add: cstring_at_def)
  moreover note kstrlen_spec [OF p] kfs_lookup_files [OF assms]
  ultimately show ?thesis by (auto simp: kfs_open_def split: option.splits)
qed

lemma kfs_open_null: "p = 0 \<or> h = None \<Longrightarrow> kfs_open fs p h m = Some (KFS_EINVAL, h)"
  by (auto simp: kfs_open_def)

lemma kfs_stat_spec:
  assumes rep: "fs_rep fs m files" and p: "cstring_at m p name"
    and out: "out \<noteq> 0" "mapped out sizeof_kfs_stat m"
  shows "\<exists>m'. kfs_stat fs p out m =
      Some (if name = [] \<or> fs_map files name = None then KFS_ENOENT else KFS_OK, m') \<and>
    load_kfs_stat out m' = Some
      (case (if name = [] then None else fs_map files name) of
         None \<Rightarrow> \<lparr>st_size = 0, st_mode = 0, st_is_file = False\<rparr>
       | Some content \<Rightarrow> \<lparr>st_size = of_nat (length content), st_mode = KFS_MODE_FILE, st_is_file = True\<rparr>) \<and>
    (\<forall>q. \<not> in_range q out 13 \<longrightarrow> m' q = m q)"
proof -
  have p0: "p \<noteq> 0" using p by (simp add: cstring_at_def)
  let ?e = "if name = [] then None else fs_map files name"
  obtain node where node: "kfs_lookup fs p (of_nat (length name)) m = Some node"
    "case ?e of None \<Rightarrow> node = 0 | Some content \<Rightarrow> node \<noteq> 0 \<and> node_rep fs m node name content"
    using kfs_lookup_files [OF rep p] by blast
  show ?thesis
  proof (cases ?e)
    case None
    obtain m' where "store_kfs_stat out \<lparr>st_size = 0, st_mode = 0, st_is_file = False\<rparr> m = Some m'"
      "load_kfs_stat out m' = Some \<lparr>st_size = 0, st_mode = 0, st_is_file = False\<rparr>"
      "\<forall>q. \<not> in_range q out 13 \<longrightarrow> m' q = m q" using store_kfs_stat_spec [OF out(2)] by blast
    with None node p0 out(1) show ?thesis
      by (auto simp: kfs_stat_def kstrlen_spec [OF p] split: if_splits)
  next
    case (Some content)
    with node(2) obtain nd where nd: "valid_node fs node" "node_at fs node = Some nd" "node \<noteq> 0"
      "node_size nd = of_nat (length content)" by (auto simp: node_rep_def)
    obtain m' where "kfs_stat_node fs node out m = Some (KFS_OK, m')"
      "load_kfs_stat out m' = Some \<lparr>st_size = node_size nd, st_mode = KFS_MODE_FILE, st_is_file = True\<rparr>"
      "\<forall>q. \<not> in_range q out 13 \<longrightarrow> m' q = m q" using kfs_stat_node_spec [OF nd(1,2) out] by blast
    with Some node(1) nd(3,4) p0 out(1) show ?thesis
      by (auto simp: kfs_stat_def kstrlen_spec [OF p] split: if_splits)
  qed
qed

text \<open>One read through a handle: the next bytes of the file, and the handle moved past them.\<close>

definition detached :: "kfs \<Rightarrow> ptr \<Rightarrow> u8 list \<Rightarrow> ptr \<Rightarrow> usize \<Rightarrow> bool" where
  "detached fs node pth dst len \<longleftrightarrow>
     (\<forall>nd. node_at fs node = Some nd \<longrightarrow>
        disjoint_ranges dst len (node_path nd) (of_nat (length pth + 1)) \<and>
        disjoint_ranges dst len (node_data nd) (node_size nd))"

lemma node_rep_detached:
  assumes rep: "node_rep fs m node pth content" and d: "detached fs node pth dst len"
    and fr: "\<And>q. \<not> in_range q dst len \<Longrightarrow> m' q = m q"
  shows "node_rep fs m' node pth content"
proof -
  from rep obtain nd where nd: "node_at fs node = Some nd" "cstring_at m (node_path nd) pth"
    "node_size nd = of_nat (length content)" "length content < 2 ^ 64" "holds m (node_data nd) content"
    and v: "valid_node fs node" by (auto simp: node_rep_def)
  have dj: "disjoint_ranges dst len (node_path nd) (of_nat (length pth + 1))"
    "disjoint_ranges dst len (node_data nd) (of_nat (length content))"
    using d nd(1,3) by (auto simp: detached_def)
  have lp: "length pth + 1 < 2 ^ 64" using nd(2) by (simp add: cstring_at_def)
  have "cstring_at m' (node_path nd) pth"
    using disjoint_frame [OF dj(1) lp] fr by (intro cstring_frame [OF nd(2)]) blast
  moreover have "holds m' (node_data nd) content"
    using disjoint_frame [OF dj(2) nd(4)] fr by (intro holds_frame [OF nd(5)]) blast
  ultimately show ?thesis using nd v by (auto simp: node_rep_def)
qed

lemma kfs_read_spec:
  assumes rep: "node_rep fs m (h_node h) pth content"
    and dst: "len \<noteq> 0 \<Longrightarrow> dst \<noteq> 0" "mapped dst len m"
    and d: "detached fs (h_node h) pth dst len"
  shows "\<exists>m'. kfs_read fs (Some h) dst len out m =
      Some (KFS_OK, Some (h\<lparr>h_offset := h_offset h + of_nat (length (slice content (h_offset h) len))\<rparr>),
        map_option (\<lambda>_. of_nat (length (slice content (h_offset h) len))) out, m') \<and>
    holds m' dst (slice content (h_offset h) len) \<and> dom m' = dom m \<and>
    (\<forall>q. \<not> in_range q dst len \<longrightarrow> m' q = m q)"
proof -
  let ?bs = "slice content (h_offset h) len"
  from rep obtain nd where nd: "node_at fs (h_node h) = Some nd" "valid_node fs (h_node h)"
    by (auto simp: node_rep_def)
  have "disjoint_ranges dst len (node_data nd) (node_size nd)" using d nd(1) by (simp add: detached_def)
  from kfs_read_node_exact [OF rep nd(1) dst this] obtain m' where
    m': "kfs_read_node fs (h_node h) (h_offset h) dst len m = Some (of_nat (length ?bs), m')"
    "holds m' dst ?bs" "dom m' = dom m"
    "\<forall>q. \<not> in_range q dst (of_nat (length ?bs)) \<longrightarrow> m' q = m q" by blast
  have "of_nat (length ?bs) \<le> len"
    using unat_lt_64 [of len] by (simp add: slice_def word_le_nat_alt unat_of_nat64)
  then have "\<forall>q. \<not> in_range q dst len \<longrightarrow> m' q = m q" using m'(4) in_range_mono by blast
  with m'(1-3) nd(2) dst(1) show ?thesis
    by (auto simp: kfs_read_def valid_node_def Let_def option.map_comp comp_def word_neq_0_conv)
qed

text \<open>A client that reads a file in pieces through one buffer, and what it collects.\<close>

fun chunked_read :: "kfs \<Rightarrow> kfs_handle \<Rightarrow> ptr \<Rightarrow> usize \<Rightarrow> nat \<Rightarrow> mem \<Rightarrow> u8 list option" where
  "chunked_read fs h dst len 0 m = Some []"
| "chunked_read fs h dst len (Suc n) m = do {
     (err, handle, count, m) \<leftarrow> kfs_read fs (Some h) dst len (Some 0) m;
     h \<leftarrow> handle;
     k \<leftarrow> count;
     bs \<leftarrow> load_bytes dst (unat k) m;
     rest \<leftarrow> chunked_read fs h dst len n m;
     Some (bs @ rest)
   }"

lemma chunked_read_spec:
  assumes "node_rep fs m (h_node h) pth content" "unat (h_offset h) \<le> length content"
    and dst: "len \<noteq> 0 \<Longrightarrow> dst \<noteq> 0" and "mapped dst len m"
    and "detached fs (h_node h) pth dst len"
  shows "chunked_read fs h dst len n m = Some (take (n * unat len) (drop (unat (h_offset h)) content))"
  using assms(1,2,4,5)
proof (induction n arbitrary: h m)
  case (Suc n)
  let ?bs = "slice content (h_offset h) len"
  let ?h = "h\<lparr>h_offset := h_offset h + of_nat (length ?bs)\<rparr>"
  obtain m' where m': "kfs_read fs (Some h) dst len (Some 0) m =
      Some (KFS_OK, Some ?h, Some (of_nat (length ?bs)), m')"
    "holds m' dst ?bs" "dom m' = dom m" "\<forall>q. \<not> in_range q dst len \<longrightarrow> m' q = m q"
    using kfs_read_spec [OF Suc.prems(1) dst Suc.prems(3,4), of "Some 0"] by auto
  have cl: "length content < 2 ^ 64" using Suc.prems(1) by (auto simp: node_rep_def)
  have lo: "unat (h_offset h) + length ?bs \<le> length content" using Suc.prems(2) by (simp add: slice_def)
  then have off: "unat (h_offset ?h) = unat (h_offset h) + length ?bs"
    using cl unat_of_nat64 [of "length ?bs"] unat_plus_no_overflow [of "h_offset h" "of_nat (length ?bs)"]
    by simp
  have "node_rep fs m' (h_node ?h) pth content"
    using node_rep_detached [OF Suc.prems(1,4)] m'(4) by simp
  moreover have "mapped dst len m'" using Suc.prems(3) m'(3) by (simp add: mapped_def)
  ultimately have ih: "chunked_read fs ?h dst len n m' =
      Some (take (n * unat len) (drop (unat (h_offset ?h)) content))"
    using off lo Suc.prems(4) by (intro Suc.IH) simp_all
  have "unat (of_nat (length ?bs) :: u64) = length ?bs" using lo cl by (intro unat_of_nat64) simp
  then have ld: "load_bytes dst (unat (of_nat (length ?bs) :: u64)) m' = Some ?bs"
    using m'(2) by (simp add: load_bytes_holds)
  have "?bs @ take (n * unat len) (drop (unat (h_offset ?h)) content) =
      take (Suc n * unat len) (drop (unat (h_offset h)) content)"
    unfolding off unfolding slice_def
    by (cases "unat len \<le> length content - unat (h_offset h)")
       (simp_all add: take_add add.commute)
  with m'(1) ih ld show ?case by simp
qed simp

end
