(* ===== verification/KGdt.thy ===== *)
theory KGdt
  imports CMemory
begin

unbundle bit_operations_syntax

section \<open>Segment descriptors (kernel/arch/x86_64/gdt.c)\<close>

text \<open>
  The packed descriptor is a record of its fields; \<open>gdt_entry_bits\<close> is the eight bytes it
  occupies. A pointer to one descriptor is \<^const>\<open>None\<close> for NULL; the array passed to
  \<open>kx86_gdt_default_table\<close> is the list of its elements, and writing past its end is undefined.
  The decoder \<open>gdt_fields\<close> reads base, limit, access byte and flags back in the way the
  processor does. The locale \<open>codec\<close> is interpreted on the pair.
\<close>

record kx86_gdt_entry =
  g_limit_low :: u16
  g_base_low :: u16
  g_base_mid :: u8
  g_access :: u8
  g_limit_high_flags :: u8
  g_base_high :: u8

record kx86_gdtr =
  gdtr_limit :: u16
  gdtr_base :: ptr

instantiation kx86_gdt_entry_ext :: (zero) zero
begin

definition zero_kx86_gdt_entry_ext :: "'a kx86_gdt_entry_ext" where
  "zero_kx86_gdt_entry_ext = kx86_gdt_entry_ext 0 0 0 0 0 0 0"

instance ..

end

instantiation kx86_gdtr_ext :: (zero) zero
begin

definition zero_kx86_gdtr_ext :: "'a kx86_gdtr_ext" where
  "zero_kx86_gdtr_ext = kx86_gdtr_ext 0 0 0"

instance ..

end

lemma gdt_entry_zero [simp]:
  "g_limit_low 0 = 0" "g_base_low 0 = 0" "g_base_mid 0 = 0" "g_access 0 = 0"
  "g_limit_high_flags 0 = 0" "g_base_high 0 = 0"
  by (simp_all add: zero_kx86_gdt_entry_ext_def kx86_gdt_entry.defs)

lemma gdtr_zero [simp]: "gdtr_limit 0 = 0" "gdtr_base 0 = 0"
  by (simp_all add: zero_kx86_gdtr_ext_def kx86_gdtr.defs)


definition KX86_GDT_DEFAULT_ENTRIES :: usize where
  [struct_defs]: "KX86_GDT_DEFAULT_ENTRIES = 5"

definition KX86_GDT_INDEX_NULL :: nat where
  [struct_defs]: "KX86_GDT_INDEX_NULL = 0"

definition KX86_GDT_INDEX_KERNEL_CODE :: nat where
  [struct_defs]: "KX86_GDT_INDEX_KERNEL_CODE = 1"

definition KX86_GDT_INDEX_KERNEL_DATA :: nat where
  [struct_defs]: "KX86_GDT_INDEX_KERNEL_DATA = 2"

definition KX86_GDT_INDEX_USER_CODE :: nat where
  [struct_defs]: "KX86_GDT_INDEX_USER_CODE = 3"

definition KX86_GDT_INDEX_USER_DATA :: nat where
  [struct_defs]: "KX86_GDT_INDEX_USER_DATA = 4"

definition KX86_SELECTOR_KERNEL_CODE :: u16 where
  [struct_defs]: "KX86_SELECTOR_KERNEL_CODE = push_bit 3 (of_nat KX86_GDT_INDEX_KERNEL_CODE)"

definition KX86_SELECTOR_KERNEL_DATA :: u16 where
  [struct_defs]: "KX86_SELECTOR_KERNEL_DATA = push_bit 3 (of_nat KX86_GDT_INDEX_KERNEL_DATA)"

definition KX86_SELECTOR_USER_CODE :: u16 where
  [struct_defs]: "KX86_SELECTOR_USER_CODE = push_bit 3 (of_nat KX86_GDT_INDEX_USER_CODE) OR 0x03"

definition KX86_SELECTOR_USER_DATA :: u16 where
  [struct_defs]: "KX86_SELECTOR_USER_DATA = push_bit 3 (of_nat KX86_GDT_INDEX_USER_DATA) OR 0x03"

definition KX86_GDT_ACCESS_READ_WRITE :: u8 where
  [struct_defs]: "KX86_GDT_ACCESS_READ_WRITE = 0x02"

definition KX86_GDT_ACCESS_EXECUTABLE :: u8 where
  [struct_defs]: "KX86_GDT_ACCESS_EXECUTABLE = 0x08"

definition KX86_GDT_ACCESS_DESCRIPTOR :: u8 where
  [struct_defs]: "KX86_GDT_ACCESS_DESCRIPTOR = 0x10"

definition KX86_GDT_ACCESS_PRESENT :: u8 where
  [struct_defs]: "KX86_GDT_ACCESS_PRESENT = 0x80"

definition KX86_GDT_FLAG_LONG_MODE :: u8 where
  [struct_defs]: "KX86_GDT_FLAG_LONG_MODE = 0x02"

definition KX86_GDT_FLAG_32BIT :: u8 where
  [struct_defs]: "KX86_GDT_FLAG_32BIT = 0x04"

definition KX86_GDT_FLAG_GRANULARITY_4K :: u8 where
  [struct_defs]: "KX86_GDT_FLAG_GRANULARITY_4K = 0x08"

subsection \<open>The builders\<close>

definition kx86_gdt_ring_bits :: "u8 \<Rightarrow> u8" where
  "kx86_gdt_ring_bits dpl = push_bit 5 (dpl AND 0x03)"

definition kx86_gdt_entry_set ::
  "kx86_gdt_entry option \<Rightarrow> u32 \<Rightarrow> u32 \<Rightarrow> u8 \<Rightarrow> u8 \<Rightarrow> kx86_gdt_entry option" where
  "kx86_gdt_entry_set entry base limit access flags =
     (case entry of None \<Rightarrow> None
      | Some e \<Rightarrow> Some (e
          \<lparr>g_limit_low := ucast (limit AND 0xffff),
           g_base_low := ucast (base AND 0xffff),
           g_base_mid := ucast (drop_bit 16 base AND 0xff),
           g_access := access,
           g_limit_high_flags :=
             ucast ((drop_bit 16 limit AND 0x0f) OR push_bit 4 ((ucast flags :: u32) AND 0x0f)),
           g_base_high := ucast (drop_bit 24 base AND 0xff)\<rparr>))"

definition kx86_gdt_null_entry :: kx86_gdt_entry where
  "kx86_gdt_null_entry = 0"

text \<open>A local \<open>struct\<close> starts out indeterminate; every field is then set, so the initial value
  \<open>junk\<close> does not matter, which \<open>gdt_entry_set_junk\<close> proves.\<close>

definition kx86_gdt_code_segment :: "kx86_gdt_entry \<Rightarrow> u8 \<Rightarrow> kx86_gdt_entry option" where
  "kx86_gdt_code_segment junk dpl =
     (let access = KX86_GDT_ACCESS_PRESENT OR kx86_gdt_ring_bits dpl OR KX86_GDT_ACCESS_DESCRIPTOR
                   OR KX86_GDT_ACCESS_EXECUTABLE OR KX86_GDT_ACCESS_READ_WRITE;
          flags = KX86_GDT_FLAG_GRANULARITY_4K OR KX86_GDT_FLAG_LONG_MODE
      in kx86_gdt_entry_set (Some junk) 0 0x000fffff access flags)"

definition kx86_gdt_data_segment :: "kx86_gdt_entry \<Rightarrow> u8 \<Rightarrow> kx86_gdt_entry option" where
  "kx86_gdt_data_segment junk dpl =
     (let access = KX86_GDT_ACCESS_PRESENT OR kx86_gdt_ring_bits dpl OR KX86_GDT_ACCESS_DESCRIPTOR
                   OR KX86_GDT_ACCESS_READ_WRITE;
          flags = KX86_GDT_FLAG_GRANULARITY_4K OR KX86_GDT_FLAG_32BIT
      in kx86_gdt_entry_set (Some junk) 0 0x000fffff access flags)"

definition set_elem :: "'a list \<Rightarrow> nat \<Rightarrow> 'a \<Rightarrow> 'a list option" where
  "set_elem xs i x = (if i < length xs then Some (xs[i := x]) else None)"

definition kx86_gdt_default_table ::
  "kx86_gdt_entry \<Rightarrow> kx86_gdt_entry list option \<Rightarrow> usize \<Rightarrow> kx86_gdt_entry list option option" where
  "kx86_gdt_default_table junk entries count =
     (case entries of
        None \<Rightarrow> Some None
      | Some es \<Rightarrow>
          if count < KX86_GDT_DEFAULT_ENTRIES then Some (Some es)
          else do {
            es \<leftarrow> set_elem es KX86_GDT_INDEX_NULL kx86_gdt_null_entry;
            kc \<leftarrow> kx86_gdt_code_segment junk 0;
            es \<leftarrow> set_elem es KX86_GDT_INDEX_KERNEL_CODE kc;
            kd \<leftarrow> kx86_gdt_data_segment junk 0;
            es \<leftarrow> set_elem es KX86_GDT_INDEX_KERNEL_DATA kd;
            uc \<leftarrow> kx86_gdt_code_segment junk 3;
            es \<leftarrow> set_elem es KX86_GDT_INDEX_USER_CODE uc;
            ud \<leftarrow> kx86_gdt_data_segment junk 3;
            es \<leftarrow> set_elem es KX86_GDT_INDEX_USER_DATA ud;
            Some (Some es)
          })"

definition sizeof_kx86_gdt_entry :: usize where
  [struct_defs]: "sizeof_kx86_gdt_entry = 8"

definition kx86_gdtr_make :: "ptr \<Rightarrow> usize \<Rightarrow> kx86_gdtr" where
  "kx86_gdtr_make entries count =
     (if entries = 0 \<or> count = 0 then 0
      else \<lparr>gdtr_limit = ucast (count * sizeof_kx86_gdt_entry - 1), gdtr_base = entries\<rparr>)"

subsection \<open>What the processor reads\<close>

record segment =
  seg_base :: u32
  seg_limit :: u32
  seg_access :: u8
  seg_flags :: u8

definition gdt_entry_bytes :: "kx86_gdt_entry \<Rightarrow> u8 list" where
  "gdt_entry_bytes e = u16_bytes (g_limit_low e) @ u16_bytes (g_base_low e) @
     [g_base_mid e, g_access e, g_limit_high_flags e, g_base_high e]"

definition gdt_entry_bits :: "kx86_gdt_entry \<Rightarrow> u64" where
  "gdt_entry_bits e = word_of_bytes (gdt_entry_bytes e)"

fun gdt_fields :: "u8 list \<Rightarrow> segment" where
  "gdt_fields [l0, l1, b0, b1, b2, acc, lf, b3] = \<lparr>
     seg_base = word_of_bytes [b0, b1, b2, b3],
     seg_limit = word_of_bytes [l0, l1, lf AND 0x0f],
     seg_access = acc,
     seg_flags = drop_bit 4 lf\<rparr>"
| "gdt_fields _ = \<lparr>seg_base = 0, seg_limit = 0, seg_access = 0, seg_flags = 0\<rparr>"

definition gdt_enc :: "segment \<Rightarrow> u8 list" where
  "gdt_enc s = (case kx86_gdt_entry_set (Some 0) (seg_base s) (seg_limit s) (seg_access s) (seg_flags s)
     of None \<Rightarrow> [] | Some e \<Rightarrow> gdt_entry_bytes e)"

definition gdt_representable :: "segment \<Rightarrow> bool" where
  "gdt_representable s \<longleftrightarrow> seg_limit s < 2 ^ 20 \<and> seg_flags s < 2 ^ 4"

lemma gdt_entry_set_junk:
  "kx86_gdt_entry_set (Some e) b l a f = kx86_gdt_entry_set (Some e') b l a f"
  by (simp add: kx86_gdt_entry_set_def)

lemma less_exp_bit: "(w :: 'a::len word) < 2 ^ k \<Longrightarrow> bit w n \<Longrightarrow> n < k"
  by (metis less_mask_eq take_bit_eq_mask bit_take_bit_iff)

subsection \<open>Round trip\<close>

lemma numeral_masks:
  "(0xffff :: 'a::len word) = mask 16" "(0xff :: 'a word) = mask 8" "(0x0f :: 'a word) = mask 4"
  "(0xffffff :: 'a word) = mask 24" "(7 :: 'a word) = mask 3" "(3 :: 'a word) = mask 2"
  "(0xffffffff :: 'a word) = mask 32" "(0xfffff :: 'a word) = mask 20"
  by (simp_all add: mask_numeral mask_Suc_0)

lemma le_bytes_2: "le_bytes 2 w = [ucast w, ucast (drop_bit 8 w)]"
  by (simp add: numeral_2_eq_2)

lemma split_base:
  "word_of_bytes [ucast (ucast (base AND 0xffff) :: u16),
     ucast (drop_bit 8 (ucast (base AND 0xffff) :: u16)),
     ucast (drop_bit 16 base AND 0xff), ucast (drop_bit 24 base AND 0xff)] = (base :: u32)"
proof (rule bit_word_eqI)
  fix n assume "n < LENGTH(32)"
  then consider "n < 8" | "8 \<le> n" "n < 16" | "16 \<le> n" "n < 24" | "24 \<le> n" "n < 32"
    by fastforce
  then show "bit (word_of_bytes [ucast (ucast (base AND 0xffff) :: u16),
     ucast (drop_bit 8 (ucast (base AND 0xffff) :: u16)),
     ucast (drop_bit 16 base AND 0xff), ucast (drop_bit 24 base AND 0xff)] :: u32) n = bit base n"
    by cases (auto simp: numeral_masks bit_simps simp flip: take_bit_eq_mask)
qed

lemma split_limit:
  "word_of_bytes [ucast (ucast (limit AND 0xffff) :: u16),
     ucast (drop_bit 8 (ucast (limit AND 0xffff) :: u16)),
     (ucast ((drop_bit 16 limit AND 0x0f) OR push_bit 4 ((ucast (flags :: u8) :: u32) AND 0x0f)) :: u8)
       AND 0x0f] = (limit :: u32) AND 0xfffff"
proof (rule bit_word_eqI)
  fix n assume "n < LENGTH(32)"
  then consider "n < 8" | "8 \<le> n" "n < 16" | "16 \<le> n" "n < 20" | "20 \<le> n" "n < 32"
    by fastforce
  then show "bit (word_of_bytes [ucast (ucast (limit AND 0xffff) :: u16),
     ucast (drop_bit 8 (ucast (limit AND 0xffff) :: u16)),
     (ucast ((drop_bit 16 limit AND 0x0f) OR push_bit 4 ((ucast flags :: u32) AND 0x0f)) :: u8)
       AND 0x0f] :: u32) n = bit (limit AND 0xfffff) n"
    by cases (auto simp: numeral_masks bit_simps simp flip: take_bit_eq_mask)
qed

lemma split_flags:
  "drop_bit 4 (ucast ((drop_bit 16 (limit :: u32) AND 0x0f) OR push_bit 4 ((ucast flags :: u32) AND 0x0f)))
     = (flags :: u8) AND 0x0f"
  by (rule bit_word_eqI) (auto simp: numeral_masks bit_simps simp flip: take_bit_eq_mask)

text \<open>Whatever the arguments, the processor reads back the base, the access byte, the low 20 bits
  of the limit and the low 4 bits of the flags.\<close>

lemma gdt_entry_set_fields:
  assumes "kx86_gdt_entry_set (Some e0) base limit access flags = Some e"
  shows "gdt_fields (gdt_entry_bytes e) =
    \<lparr>seg_base = base, seg_limit = limit AND 0xfffff, seg_access = access, seg_flags = flags AND 0x0f\<rparr>"
proof -
  have "g_limit_low e = ucast (limit AND 0xffff)" "g_base_low e = ucast (base AND 0xffff)"
    "g_base_mid e = ucast (drop_bit 16 base AND 0xff)" "g_access e = access"
    "g_limit_high_flags e =
       ucast ((drop_bit 16 limit AND 0x0f) OR push_bit 4 ((ucast flags :: u32) AND 0x0f))"
    "g_base_high e = ucast (drop_bit 24 base AND 0xff)"
    using assms by (auto simp: kx86_gdt_entry_set_def)
  then show ?thesis
    by (simp only: gdt_entry_bytes_def le_bytes_2 append.simps gdt_fields.simps
        split_base split_limit split_flags)
qed

interpretation gdt: codec gdt_enc gdt_fields gdt_representable
proof
  fix s assume "gdt_representable s"
  then have "seg_limit s AND 0xfffff = seg_limit s" "seg_flags s AND 0x0f = seg_flags s"
    using less_mask_eq [of "seg_limit s" 20] less_mask_eq [of "seg_flags s" 4]
    by (simp_all add: gdt_representable_def mask_numeral)
  then show "gdt_fields (gdt_enc s) = s"
    using gdt_entry_set_fields [of 0 "seg_base s" "seg_limit s" "seg_access s" "seg_flags s"]
    by (simp add: gdt_enc_def kx86_gdt_entry_set_def)
qed

subsection \<open>The default table and the table register\<close>

lemma gdt_default_table_bits:
  assumes "length es = 5"
  shows "\<exists>es'. kx86_gdt_default_table junk (Some es) KX86_GDT_DEFAULT_ENTRIES = Some (Some es') \<and>
    map gdt_entry_bits es' =
      [0, 0x00af9a000000ffff, 0x00cf92000000ffff, 0x00affa000000ffff, 0x00cff2000000ffff]"
proof -
  from assms obtain a b c d e where es: "es = [a, b, c, d, e]"
    by (auto simp: length_Suc_conv numeral_eq_Suc)
  show ?thesis
    by (simp add: es kx86_gdt_default_table_def set_elem_def struct_defs kx86_gdt_null_entry_def
        kx86_gdt_code_segment_def kx86_gdt_data_segment_def kx86_gdt_entry_set_def Let_def
        kx86_gdt_ring_bits_def gdt_entry_bits_def gdt_entry_bytes_def le_bytes_2)
qed

lemma gdtr_covers_table:
  assumes "entries \<noteq> 0" "0 < count" "count \<le> 8192"
  shows "unat (gdtr_limit (kx86_gdtr_make entries count)) + 1 = 8 * unat count"
    and "gdtr_base (kx86_gdtr_make entries count) = entries"
proof -
  have c: "0 < unat count" "unat count \<le> 8192"
    using assms(2,3) by (simp_all add: word_less_nat_alt word_le_nat_alt)
  then have "unat (count * 8) = 8 * unat count" by (simp add: unat_word_ariths)
  then have "unat (count * 8 - 1) = 8 * unat count - 1"
    using c by (subst unat_minus_le) (simp_all add: word_le_nat_alt)
  then have "unat (ucast (count * 8 - 1) :: u16) = 8 * unat count - 1"
    using c by (simp add: unsigned_ucast_eq take_bit_nat_eq_self)
  with assms c show "unat (gdtr_limit (kx86_gdtr_make entries count)) + 1 = 8 * unat count"
    by (auto simp: kx86_gdtr_make_def sizeof_kx86_gdt_entry_def)
  show "gdtr_base (kx86_gdtr_make entries count) = entries"
    using assms by (auto simp: kx86_gdtr_make_def)
qed

end
