(* ===== verification/KIdt.thy ===== *)
theory KIdt
  imports KGdt
begin

unbundle bit_operations_syntax

section \<open>Interrupt gates (kernel/arch/x86_64/idt.c)\<close>

text \<open>
  As for the segment descriptors: a record for the packed gate, the builders, the sixteen bytes
  it occupies and the fields the processor reads from them, with the \<open>codec\<close> interpretation.
  \<open>kx86_idt_clear\<close> writes through an array given by the list of its elements.
\<close>

record kx86_idt_gate =
  i_offset_low :: u16
  i_selector :: u16
  i_ist :: u8
  i_type_attr :: u8
  i_offset_mid :: u16
  i_offset_high :: u32
  i_reserved :: u32

record kx86_idtr =
  idtr_limit :: u16
  idtr_base :: ptr

instantiation kx86_idt_gate_ext :: (zero) zero
begin

definition zero_kx86_idt_gate_ext :: "'a kx86_idt_gate_ext" where
  "zero_kx86_idt_gate_ext = kx86_idt_gate_ext 0 0 0 0 0 0 0 0"

instance ..

end

instantiation kx86_idtr_ext :: (zero) zero
begin

definition zero_kx86_idtr_ext :: "'a kx86_idtr_ext" where
  "zero_kx86_idtr_ext = kx86_idtr_ext 0 0 0"

instance ..

end

lemma idt_gate_zero [simp]:
  "i_offset_low 0 = 0" "i_selector 0 = 0" "i_ist 0 = 0" "i_type_attr 0 = 0" "i_offset_mid 0 = 0"
  "i_offset_high 0 = 0" "i_reserved 0 = 0"
  by (simp_all add: zero_kx86_idt_gate_ext_def kx86_idt_gate.defs)

lemma idtr_zero [simp]: "idtr_limit 0 = 0" "idtr_base 0 = 0"
  by (simp_all add: zero_kx86_idtr_ext_def kx86_idtr.defs)

definition KX86_IDT_DEFAULT_ENTRIES :: usize where
  [struct_defs]: "KX86_IDT_DEFAULT_ENTRIES = 256"

definition KX86_IDT_GATE_INTERRUPT :: u8 where
  [struct_defs]: "KX86_IDT_GATE_INTERRUPT = 0x0e"

definition KX86_IDT_GATE_TRAP :: u8 where
  [struct_defs]: "KX86_IDT_GATE_TRAP = 0x0f"

definition KX86_IDT_GATE_PRESENT :: u8 where
  [struct_defs]: "KX86_IDT_GATE_PRESENT = 0x80"

subsection \<open>The builders\<close>

definition kx86_idt_ring_bits :: "u8 \<Rightarrow> u8" where
  "kx86_idt_ring_bits dpl = push_bit 5 (dpl AND 0x03)"

definition kx86_idt_gate_set ::
  "kx86_idt_gate option \<Rightarrow> ptr \<Rightarrow> u16 \<Rightarrow> u8 \<Rightarrow> u8 \<Rightarrow> u8 \<Rightarrow> kx86_idt_gate option" where
  "kx86_idt_gate_set gate handler selector ist gate_type dpl =
     (case gate of None \<Rightarrow> None
      | Some g \<Rightarrow> Some (g
          \<lparr>i_offset_low := ucast (handler AND 0xffff),
           i_selector := selector,
           i_ist := ist AND 0x07,
           i_type_attr := KX86_IDT_GATE_PRESENT OR kx86_idt_ring_bits dpl OR (gate_type AND 0x0f),
           i_offset_mid := ucast (drop_bit 16 handler AND 0xffff),
           i_offset_high := ucast (drop_bit 32 handler AND 0xffffffff),
           i_reserved := 0\<rparr>))"

definition kx86_idt_interrupt_gate :: "kx86_idt_gate \<Rightarrow> ptr \<Rightarrow> u16 \<Rightarrow> kx86_idt_gate option" where
  "kx86_idt_interrupt_gate junk handler selector =
     kx86_idt_gate_set (Some junk) handler selector 0 KX86_IDT_GATE_INTERRUPT 0"

definition kx86_idt_trap_gate :: "kx86_idt_gate \<Rightarrow> ptr \<Rightarrow> u16 \<Rightarrow> u8 \<Rightarrow> kx86_idt_gate option" where
  "kx86_idt_trap_gate junk handler selector dpl =
     kx86_idt_gate_set (Some junk) handler selector 0 KX86_IDT_GATE_TRAP dpl"

definition kx86_idt_clear :: "kx86_idt_gate list option \<Rightarrow> usize \<Rightarrow> kx86_idt_gate list option option" where
  "kx86_idt_clear gates count =
     (case gates of
        None \<Rightarrow> Some None
      | Some gs \<Rightarrow> map_option Some (for_range 0 count (\<lambda>i gs. set_elem gs (unat i) 0) gs))"

definition sizeof_kx86_idt_gate :: usize where
  [struct_defs]: "sizeof_kx86_idt_gate = 16"

definition kx86_idtr_make :: "ptr \<Rightarrow> usize \<Rightarrow> kx86_idtr" where
  "kx86_idtr_make gates count =
     (if gates = 0 \<or> count = 0 then 0
      else \<lparr>idtr_limit = ucast (count * sizeof_kx86_idt_gate - 1), idtr_base = gates\<rparr>)"

subsection \<open>What the processor reads\<close>

record gate =
  gate_offset :: u64
  gate_selector :: u16
  gate_ist :: u8
  gate_type :: u8
  gate_dpl :: u8
  gate_present :: bool

definition idt_gate_bytes :: "kx86_idt_gate \<Rightarrow> u8 list" where
  "idt_gate_bytes g = u16_bytes (i_offset_low g) @ u16_bytes (i_selector g) @
     [i_ist g, i_type_attr g] @ u16_bytes (i_offset_mid g) @ u32_bytes (i_offset_high g) @
     u32_bytes (i_reserved g)"

fun gate_fields :: "u8 list \<Rightarrow> gate" where
  "gate_fields [o0, o1, s0, s1, st, ta, o2, o3, o4, o5, o6, o7, r0, r1, r2, r3] = \<lparr>
     gate_offset = word_of_bytes [o0, o1, o2, o3, o4, o5, o6, o7],
     gate_selector = word_of_bytes [s0, s1],
     gate_ist = st AND 0x07,
     gate_type = ta AND 0x0f,
     gate_dpl = drop_bit 5 ta AND 0x03,
     gate_present = bit ta 7\<rparr>"
| "gate_fields _ = \<lparr>gate_offset = 0, gate_selector = 0, gate_ist = 0, gate_type = 0, gate_dpl = 0,
     gate_present = False\<rparr>"

definition gate_enc :: "gate \<Rightarrow> u8 list" where
  "gate_enc g =
     (case kx86_idt_gate_set (Some 0) (gate_offset g) (gate_selector g) (gate_ist g) (gate_type g)
             (gate_dpl g) of None \<Rightarrow> [] | Some e \<Rightarrow> idt_gate_bytes e)"

definition gate_representable :: "gate \<Rightarrow> bool" where
  "gate_representable g \<longleftrightarrow>
     gate_ist g < 2 ^ 3 \<and> gate_type g < 2 ^ 4 \<and> gate_dpl g < 2 ^ 2 \<and> gate_present g"

lemma le_bytes_4:
  "le_bytes 4 w = [ucast w, ucast (drop_bit 8 w), ucast (drop_bit 8 (drop_bit 8 w)),
     ucast (drop_bit 8 (drop_bit 8 (drop_bit 8 w)))]"
  by (simp add: numeral_eq_Suc)

lemma word_of_bytes_append:
  "word_of_bytes (bs @ cs) = word_of_bytes bs OR push_bit (8 * length bs) (word_of_bytes cs)"
proof (induction bs)
  case (Cons b bs)
  then show ?case by (simp add: push_bit_or or.assoc add.commute)
qed simp

lemma split_offset:
  "word_of_bytes (u16_bytes (ucast (h AND 0xffff)) @ u16_bytes (ucast (drop_bit 16 h AND 0xffff)) @
     u32_bytes (ucast (drop_bit 32 h AND 0xffffffff))) = (h :: u64)"
proof -
  have w: "word_of_bytes (le_bytes 2 (x :: u16)) = (ucast x :: u64)"
    "word_of_bytes (le_bytes 4 (y :: u32)) = (ucast y :: u64)" for x y
    by (simp_all add: word_of_le_bytes_ucast take_bit_word_eq_self)
  show ?thesis
    unfolding word_of_bytes_append w length_le_bytes
  proof (rule bit_word_eqI)
    fix n assume "n < LENGTH(64)"
    then consider "n < 16" | "16 \<le> n" "n < 32" | "32 \<le> n" "n < 64" by fastforce
    then show "bit ((ucast (ucast (h AND 0xffff) :: u16) :: u64) OR push_bit (8 * 2)
        (ucast (ucast (drop_bit 16 h AND 0xffff) :: u16) OR push_bit (8 * 2)
        (ucast (ucast (drop_bit 32 h AND 0xffffffff) :: u32)))) n = bit h n"
      by cases (auto simp: numeral_masks bit_simps simp flip: take_bit_eq_mask)
  qed
qed

lemma split_type_attr:
  fixes t d :: u8
  defines "ta \<equiv> KX86_IDT_GATE_PRESENT OR kx86_idt_ring_bits d OR (t AND 0x0f)"
  shows "ta AND 0x0f = t AND 0x0f" "drop_bit 5 ta AND 0x03 = d AND 0x03" "bit ta 7"
proof -
  have p: "KX86_IDT_GATE_PRESENT = push_bit 7 1" by (simp add: KX86_IDT_GATE_PRESENT_def)
  note bits = ta_def p kx86_idt_ring_bits_def numeral_masks bit_simps
  show "ta AND 0x0f = t AND 0x0f"
    by (rule bit_word_eqI) (auto simp: bits simp flip: take_bit_eq_mask)
  show "drop_bit 5 ta AND 0x03 = d AND 0x03"
    by (rule bit_word_eqI) (auto simp: bits simp flip: take_bit_eq_mask)
  show "bit ta 7" by (auto simp: bits simp flip: take_bit_eq_mask)
qed


text \<open>The processor reads back the handler, the selector, the low bits of the stack index, type
  and privilege level, and sees the gate as present.\<close>

lemma idt_gate_set_fields:
  assumes "kx86_idt_gate_set (Some g0) handler selector ist t dpl = Some g"
  shows "gate_fields (idt_gate_bytes g) =
    \<lparr>gate_offset = handler, gate_selector = selector, gate_ist = ist AND 0x07,
     gate_type = t AND 0x0f, gate_dpl = dpl AND 0x03, gate_present = True\<rparr>"
proof -
  have g: "i_offset_low g = ucast (handler AND 0xffff)" "i_selector g = selector"
    "i_ist g = ist AND 0x07"
    "i_type_attr g = KX86_IDT_GATE_PRESENT OR kx86_idt_ring_bits dpl OR (t AND 0x0f)"
    "i_offset_mid g = ucast (drop_bit 16 handler AND 0xffff)"
    "i_offset_high g = ucast (drop_bit 32 handler AND 0xffffffff)" "i_reserved g = 0"
    using assms by (auto simp: kx86_idt_gate_set_def)
  have sel: "word_of_bytes [ucast selector, ucast (drop_bit 8 selector)] = selector"
    using le_bytes_roundtrip [of 2 selector] by (simp add: le_bytes_2)
  have ist: "(ist AND 0x07) AND 0x07 = ist AND 0x07" by (simp add: and.assoc)
  show ?thesis
    using split_offset [of handler]
    by (simp only: idt_gate_bytes_def g le_bytes_2 le_bytes_4 append.simps gate_fields.simps
        split_type_attr sel ist)
qed

interpretation idt: codec gate_enc gate_fields gate_representable
proof
  fix g assume "gate_representable g"
  then have "gate_ist g AND 0x07 = gate_ist g" "gate_type g AND 0x0f = gate_type g"
    "gate_dpl g AND 0x03 = gate_dpl g" "gate_present g"
    using less_mask_eq [of "gate_ist g" 3] less_mask_eq [of "gate_type g" 4]
      less_mask_eq [of "gate_dpl g" 2]
    by (simp_all add: gate_representable_def mask_numeral)
  then show "gate_fields (gate_enc g) = g"
    using idt_gate_set_fields [of 0 "gate_offset g" "gate_selector g" "gate_ist g" "gate_type g"
        "gate_dpl g"]
    by (simp add: gate_enc_def kx86_idt_gate_set_def)
qed

subsection \<open>Clearing and the table register\<close>

text \<open>Clearing \<open>count\<close> gates of an array at least that long zeroes exactly those.\<close>

lemma idt_clear_spec:
  assumes "unat count \<le> length gs"
  shows "kx86_idt_clear (Some gs) count =
    Some (Some (replicate (unat count) 0 @ drop (unat count) gs))"
proof -
  let ?I = "\<lambda>(i :: u64) xs. unat i \<le> unat count \<and> xs = replicate (unat i) 0 @ drop (unat i) gs"
  have "\<exists>xs. for_range 0 count (\<lambda>i gs. set_elem gs (unat i) 0) gs = Some xs \<and> ?I count xs"
  proof (rule for_range_rule [where I = ?I])
    fix j xs assume I: "?I j xs" and j: "j < count"
    then have jc: "unat j < length gs" using assms by (simp add: word_less_nat_alt)
    have uj: "unat (j + 1) = Suc (unat j)" by (rule unat_inc_less [OF j])
    have "xs[unat j := 0] = replicate (Suc (unat j)) 0 @ drop (Suc (unat j)) gs"
      using I jc by (simp add: list_update_append Cons_nth_drop_Suc [symmetric] replicate_append_same
          [symmetric])
    with I jc uj j show "\<exists>t'. set_elem xs (unat j) 0 = Some t' \<and> ?I (j + 1) t'"
      by (auto simp: set_elem_def word_less_nat_alt)
  qed auto
  then show ?thesis by (auto simp: kx86_idt_clear_def)
qed

lemma idtr_covers_table:
  assumes "gates \<noteq> 0" "0 < count" "count \<le> 4096"
  shows "unat (idtr_limit (kx86_idtr_make gates count)) + 1 = 16 * unat count"
    and "idtr_base (kx86_idtr_make gates count) = gates"
proof -
  have c: "0 < unat count" "unat count \<le> 4096"
    using assms(2,3) by (simp_all add: word_less_nat_alt word_le_nat_alt)
  then have "unat (count * 16) = 16 * unat count" by (simp add: unat_word_ariths)
  then have "unat (count * 16 - 1) = 16 * unat count - 1"
    using c by (subst unat_minus_le) (simp_all add: word_le_nat_alt)
  then have "unat (ucast (count * 16 - 1) :: u16) = 16 * unat count - 1"
    using c by (simp add: unsigned_ucast_eq take_bit_nat_eq_self)
  with assms c show "unat (idtr_limit (kx86_idtr_make gates count)) + 1 = 16 * unat count"
    by (auto simp: kx86_idtr_make_def sizeof_kx86_idt_gate_def)
  show "idtr_base (kx86_idtr_make gates count) = gates"
    using assms by (auto simp: kx86_idtr_make_def)
qed

end
