(* ===== verification/KConsole.thy ===== *)
theory KConsole
  imports KLib KIdt
begin

unbundle bit_operations_syntax

section \<open>Processor, serial port and kernel log
  (kernel/arch/x86_64/cpu.c and serial.c, kernel/panic.c, klog in kernel/main.c)\<close>

text \<open>
  The hardware the kernel talks to is a stream of values read from ports and a trace of what the
  kernel does: port reads and writes, \<open>pause\<close>, the filling of a descriptor table, \<open>lgdt\<close>, \<open>lidt\<close>,
  \<open>hlt\<close>, and calls of the \<open>write_byte\<close> function pointer of a task. What a port read returns is not modelled: \<open>port_in n p\<close>,
  the value of the \<open>n\<close>-th read when it is from port \<open>p\<close>, is an arbitrary function.
  A wait that the device never ends is \<^const>\<open>None\<close>.

  \<open>uart\<close> is the register file of a 16550 as documented; it is only used to state what the port
  writes in a trace amount to. The locale \<open>byte_sink\<close> is the contract of an operation that
  emits one byte; its interpretations are the serial port, the kernel log and the callback.
\<close>

datatype io_event =
    Outb u16 u8
  | Inb u16 u8
  | Pause
  | Store_gdt ptr "kx86_gdt_entry list"
  | Store_idt ptr "kx86_idt_gate list"
  | Lgdt kx86_gdtr
  | Lidt kx86_idtr
  | Write_byte ptr ptr u8
  | Cli_hlt

record dev =
  port_in :: "nat \<Rightarrow> u16 \<Rightarrow> u8"
  reads :: nat
  trace :: "io_event list"

definition emit :: "io_event \<Rightarrow> dev \<Rightarrow> dev" where
  "emit e d = d\<lparr>trace := trace d @ [e]\<rparr>"

subsection \<open>cpu.c\<close>

definition arch_outb :: "u16 \<Rightarrow> u8 \<Rightarrow> dev \<Rightarrow> dev" where
  "arch_outb port v = emit (Outb port v)"

definition arch_inb :: "u16 \<Rightarrow> dev \<Rightarrow> u8 \<times> dev" where
  "arch_inb port d =
     (let v = port_in d (reads d) port
      in (v, emit (Inb port v) (d\<lparr>reads := Suc (reads d)\<rparr>)))"

definition kx86_lgdt :: "kx86_gdtr option \<Rightarrow> dev \<Rightarrow> dev" where
  "kx86_lgdt gdtr d = (case gdtr of None \<Rightarrow> d | Some g \<Rightarrow> emit (Lgdt g) d)"

definition kx86_lidt :: "kx86_idtr option \<Rightarrow> dev \<Rightarrow> dev" where
  "kx86_lidt idtr d = (case idtr of None \<Rightarrow> d | Some i \<Rightarrow> emit (Lidt i) d)"

text \<open>\<open>arch_halt\<close> never returns: the machine stays in its \<open>cli; hlt\<close> loop. The model ends with
  the first of those events, and nothing follows it.\<close>

definition arch_halt :: "dev \<Rightarrow> dev" where
  "arch_halt = emit Cli_hlt"

record boot_tables =
  boot_gdt_addr :: ptr
  boot_gdt :: "kx86_gdt_entry list"
  boot_idt_addr :: ptr
  boot_idt :: "kx86_idt_gate list"

text \<open>Filling a static table stores its entries in the array at its address: the store is an event of
  the trace, like the loads of the registers, so that the trace shows their order.\<close>

definition fill_boot_gdt :: "kx86_gdt_entry \<Rightarrow> boot_tables \<Rightarrow> dev \<Rightarrow> (boot_tables \<times> dev) option" where
  "fill_boot_gdt junk t d = do {
     gp \<leftarrow> kx86_gdt_default_table junk (Some (boot_gdt t)) KX86_GDT_DEFAULT_ENTRIES;
     gdt \<leftarrow> gp;
     Some (t\<lparr>boot_gdt := gdt\<rparr>, emit (Store_gdt (boot_gdt_addr t) gdt) d)
   }"

definition fill_boot_idt :: "boot_tables \<Rightarrow> dev \<Rightarrow> (boot_tables \<times> dev) option" where
  "fill_boot_idt t d = do {
     ip \<leftarrow> kx86_idt_clear (Some (boot_idt t)) KX86_IDT_DEFAULT_ENTRIES;
     idt \<leftarrow> ip;
     Some (t\<lparr>boot_idt := idt\<rparr>, emit (Store_idt (boot_idt_addr t) idt) d)
   }"

definition kx86_descriptor_tables_init ::
  "kx86_gdt_entry \<Rightarrow> boot_tables \<Rightarrow> dev \<Rightarrow> (boot_tables \<times> dev) option" where
  "kx86_descriptor_tables_init junk t d = do {
     (t, d) \<leftarrow> fill_boot_gdt junk t d;
     (t, d) \<leftarrow> fill_boot_idt t d;
     let gdtr = kx86_gdtr_make (boot_gdt_addr t) KX86_GDT_DEFAULT_ENTRIES;
         idtr = kx86_idtr_make (boot_idt_addr t) KX86_IDT_DEFAULT_ENTRIES;
         d = kx86_lgdt (Some gdtr) d;
         d = kx86_lidt (Some idtr) d
     in Some (t, d)
   }"

subsection \<open>serial.c\<close>

definition COM1 :: u16 where [struct_defs]: "COM1 = 0x3f8"
definition SERIAL_DATA :: u16 where [struct_defs]: "SERIAL_DATA = 0"
definition SERIAL_INTERRUPT :: u16 where [struct_defs]: "SERIAL_INTERRUPT = 1"
definition SERIAL_FIFO :: u16 where [struct_defs]: "SERIAL_FIFO = 2"
definition SERIAL_LINE_CONTROL :: u16 where [struct_defs]: "SERIAL_LINE_CONTROL = 3"
definition SERIAL_MODEM_CONTROL :: u16 where [struct_defs]: "SERIAL_MODEM_CONTROL = 4"
definition SERIAL_LINE_STATUS :: u16 where [struct_defs]: "SERIAL_LINE_STATUS = 5"

definition serial_can_transmit :: "dev \<Rightarrow> bool \<times> dev" where
  "serial_can_transmit d =
     (let (v, d') = arch_inb (COM1 + SERIAL_LINE_STATUS) d in (v AND 0x20 \<noteq> 0, d'))"

definition arch_serial_init :: "dev \<Rightarrow> dev" where
  "arch_serial_init d =
     (let d = arch_outb (COM1 + SERIAL_INTERRUPT) 0x00 d;
          d = arch_outb (COM1 + SERIAL_LINE_CONTROL) 0x80 d;
          d = arch_outb (COM1 + SERIAL_DATA) 0x03 d;
          d = arch_outb (COM1 + SERIAL_INTERRUPT) 0x00 d;
          d = arch_outb (COM1 + SERIAL_LINE_CONTROL) 0x03 d;
          d = arch_outb (COM1 + SERIAL_FIFO) 0xc7 d
      in arch_outb (COM1 + SERIAL_MODEM_CONTROL) 0x0b d)"

partial_function (option) serial_wait :: "dev \<Rightarrow> dev option" where
  "serial_wait d =
     (let (ready, d') = serial_can_transmit d
      in if \<not> ready then serial_wait (emit Pause d') else Some d')"

definition arch_serial_putc :: "u8 \<Rightarrow> dev \<Rightarrow> dev option" where
  "arch_serial_putc ch d = do { d' \<leftarrow> serial_wait d; Some (arch_outb COM1 ch d') }"

definition arch_early_init ::
  "kx86_gdt_entry \<Rightarrow> boot_tables \<Rightarrow> dev \<Rightarrow> (boot_tables \<times> dev) option" where
  "arch_early_init junk t d = do {
     (t', d') \<leftarrow> kx86_descriptor_tables_init junk t d;
     Some (t', arch_serial_init d')
   }"

subsection \<open>The kernel log and panic\<close>

definition klog_putc :: "u8 \<Rightarrow> dev \<Rightarrow> dev option" where
  "klog_putc ch d = do {
     d' \<leftarrow> (if ch = 10 then arch_serial_putc 13 d else Some d);
     arch_serial_putc ch d'
   }"

text \<open>\<open>for (size_t i = 0; text[i] != 0; i++) put(text[i]);\<close>\<close>

partial_function (option) put_until_nul ::
  "(u8 \<Rightarrow> 'w \<Rightarrow> 'w option) \<Rightarrow> ptr \<Rightarrow> usize \<Rightarrow> mem \<Rightarrow> 'w \<Rightarrow> 'w option" where
  "put_until_nul put text i m w =
     Option.bind (load (text + i) m)
       (\<lambda>c. if c \<noteq> 0 then Option.bind (put c w) (put_until_nul put text (i + 1) m) else Some w)"

definition klog_write :: "ptr \<Rightarrow> mem \<Rightarrow> dev \<Rightarrow> dev option" where
  "klog_write text m d = (if text = 0 then Some d else put_until_nul klog_putc text 0 m d)"

definition klog_writeln :: "ptr \<Rightarrow> mem \<Rightarrow> dev \<Rightarrow> dev option" where
  "klog_writeln text m d = do { d' \<leftarrow> klog_write text m d; klog_putc 10 d' }"

text \<open>String literals are bytes of the image; \<open>lits\<close> gives the address the linker put each at.\<close>

type_synonym literals = "string \<Rightarrow> ptr"

definition string_bytes :: "string \<Rightarrow> u8 list" where
  "string_bytes = map (\<lambda>c. of_nat (of_char c))"

definition kernel_panic :: "literals \<Rightarrow> ptr \<Rightarrow> mem \<Rightarrow> dev \<Rightarrow> dev option" where
  "kernel_panic lits message m d = do {
     d \<leftarrow> klog_write (lits ''kernel panic: '') m d;
     d \<leftarrow> klog_writeln (if message \<noteq> 0 then message else lits ''(null)'') m d;
     Some (arch_halt d)
   }"

text \<open>\<open>KASSERT(expr)\<close>: \<open>Inl\<close> is the panicked machine, \<open>Inr\<close> the one that goes on. The
  literal is the assertion's text, spliced in by the preprocessor.\<close>

definition KASSERT :: "literals \<Rightarrow> bool \<Rightarrow> string \<Rightarrow> mem \<Rightarrow> dev \<Rightarrow> (dev + dev) option" where
  "KASSERT lits b expr m d =
     (if \<not> b then map_option Inl (kernel_panic lits (lits (''assertion failed: '' @ expr)) m d)
      else Some (Inr d))"

declare serial_wait.simps [code] put_until_nul.simps [code]

subsection \<open>The 16550 register file\<close>

record uart =
  u_ier :: u8
  u_fcr :: u8
  u_lcr :: u8
  u_mcr :: u8
  u_dll :: u8
  u_dlm :: u8
  u_sent :: "u8 list"

text \<open>Bit 7 of the line control register, DLAB, makes ports 0 and 1 the divisor latch.\<close>

definition uart_write :: "u16 \<Rightarrow> u8 \<Rightarrow> uart \<Rightarrow> uart" where
  "uart_write port v u =
     (if port = COM1 then if bit (u_lcr u) 7 then u\<lparr>u_dll := v\<rparr> else u\<lparr>u_sent := u_sent u @ [v]\<rparr>
      else if port = COM1 + 1 then if bit (u_lcr u) 7 then u\<lparr>u_dlm := v\<rparr> else u\<lparr>u_ier := v\<rparr>
      else if port = COM1 + 2 then u\<lparr>u_fcr := v\<rparr>
      else if port = COM1 + 3 then u\<lparr>u_lcr := v\<rparr>
      else if port = COM1 + 4 then u\<lparr>u_mcr := v\<rparr>
      else u)"

fun uart_event :: "io_event \<Rightarrow> uart \<Rightarrow> uart" where
  "uart_event (Outb port v) u = uart_write port v u"
| "uart_event _ u = u"

definition uart_of :: "uart \<Rightarrow> dev \<Rightarrow> uart" where
  "uart_of u0 d = fold uart_event (trace d) u0"

lemma uart_of_emit: "uart_of u0 (emit e d) = uart_event e (uart_of u0 d)"
  by (simp add: uart_of_def emit_def)

lemma emit_sel [simp]: "port_in (emit e d) = port_in d" "reads (emit e d) = reads d"
  "trace (emit e d) = trace d @ [e]"
  by (simp_all add: emit_def)

lemma uart_of_trace: "trace d' = trace d \<Longrightarrow> uart_of u0 d' = uart_of u0 d"
  by (simp add: uart_of_def)

text \<open>Whatever state it starts in, the port ends up with divisor 3 (38400 baud), 8 data bits
  without parity, FIFOs on and DLAB clear; nothing is transmitted. Interrupts are masked if DLAB
  was clear: with DLAB set, the first write goes to the divisor latch instead.\<close>

lemma uart_after_init:
  "uart_of u0 (arch_serial_init d) =
     (uart_of u0 d)\<lparr>u_ier := (if bit (u_lcr (uart_of u0 d)) 7 then u_ier (uart_of u0 d) else 0),
        u_fcr := 0xc7, u_lcr := 0x03, u_mcr := 0x0b, u_dll := 3, u_dlm := 0\<rparr>"
  by (simp add: arch_serial_init_def Let_def arch_outb_def uart_of_emit uart_write_def struct_defs
      bit_numeral_rec)


subsection \<open>The contract of an operation that emits a byte\<close>

locale byte_sink =
  fixes put :: "u8 \<Rightarrow> 'w \<Rightarrow> 'w option"
    and ok :: "'w \<Rightarrow> bool"
    and out :: "'w \<Rightarrow> 'e list"
    and enc :: "u8 \<Rightarrow> 'e list"
  assumes put_emits: "ok w \<Longrightarrow> \<exists>w'. put b w = Some w' \<and> ok w' \<and> out w' = out w @ enc b"
begin

text \<open>Emitting a counted run of bytes.\<close>

lemma put_range:
  assumes h: "holds m p bs" and len: "length bs < 2 ^ 64" and ok: "ok w"
  shows "\<exists>w'. for_range 0 (of_nat (length bs)) (\<lambda>i w. Option.bind (load (p + i) m) (\<lambda>b. put b w)) w
      = Some w' \<and> ok w' \<and> out w' = out w @ concat (map enc bs)"
proof -
  let ?n = "of_nat (length bs) :: u64"
  let ?I = "\<lambda>(i :: u64) v. ok v \<and> out v = out w @ concat (map enc (take (unat i) bs))"
  have n: "unat ?n = length bs" by (rule unat_of_nat64 [OF len])
  have "\<exists>w'. for_range 0 ?n (\<lambda>i w. Option.bind (load (p + i) m) (\<lambda>b. put b w)) w = Some w' \<and> ?I ?n w'"
  proof (rule for_range_rule [where I = ?I])
    fix j v assume I: "?I j v" and j: "j < ?n"
    then have jl: "unat j < length bs" using n by (simp add: word_less_nat_alt)
    have ld: "load (p + j) m = Some (bs ! unat j)"
      using holds_word [OF h jl] by (simp add: load_def)
    obtain v' where v': "put (bs ! unat j) v = Some v'" "ok v'"
      "out v' = out v @ enc (bs ! unat j)" using put_emits I by blast
    have "take (unat (j + 1)) bs = take (unat j) bs @ [bs ! unat j]"
      using jl by (simp add: unat_inc_less [OF j] take_Suc_conv_app_nth)
    with ld v' I show "\<exists>t'. Option.bind (load (p + j) m) (\<lambda>b. put b v) = Some t' \<and> ?I (j + 1) t'"
      by auto
  qed (use ok in auto)
  with n show ?thesis by auto
qed

text \<open>Emitting a terminated string.\<close>

lemma put_cstring:
  assumes s: "cstring_at m p s" and ok: "ok w"
  shows "\<exists>w'. put_until_nul put p 0 m w = Some w' \<and> ok w' \<and> out w' = out w @ concat (map enc s)"
proof -
  have "\<exists>w'. put_until_nul put p i m w = Some w' \<and> ok w' \<and>
      out w' = out w @ concat (map enc (drop (unat i) s))"
    if "unat i \<le> length s" "ok w" for i w
    using that
  proof (induction "length s - unat i" arbitrary: i w)
    case 0
    then have i: "unat i = length s" by simp
    have "m (p + i) = Some 0"
      using s holds_word [of m p "s @ [0]" i] i by (simp add: cstring_at_def nth_append)
    with 0 i show ?case by (subst put_until_nul.simps) (simp add: load_def)
  next
    case (Suc k)
    then have less: "unat i < length s" by simp
    have c: "m (p + i) = Some (s ! unat i)"
      using s holds_word [of m p "s @ [0]" i] less by (simp add: cstring_at_def nth_append)
    have nz: "s ! unat i \<noteq> 0" using s less by (auto simp: cstring_at_def in_set_conv_nth)
    have ui: "unat (i + 1) = Suc (unat i)"
    proof (rule unat_inc_less)
      show "i < - 1" using less s
        by (simp add: cstring_at_def word_less_nat_alt unsigned_minus_1_eq_mask mask_eq_exp_minus_1)
    qed
    obtain v where v: "put (s ! unat i) w = Some v" "ok v" "out v = out w @ enc (s ! unat i)"
      using put_emits Suc.prems(2) by blast
    obtain w' where "put_until_nul put p (i + 1) m v = Some w'" "ok w'"
      "out w' = out v @ concat (map enc (drop (Suc (unat i)) s))"
    proof -
      have "k = length s - unat (i + 1)" "unat (i + 1) \<le> length s"
        using Suc.hyps(2) less ui by simp_all
      from Suc.hyps(1) [OF this v(2)] that ui show ?thesis by auto
    qed
    with c nz v less show ?case
      by (subst put_until_nul.simps) (auto simp: load_def Cons_nth_drop_Suc [symmetric])
  qed
  from this [of 0 w] ok show ?thesis by simp
qed

end

text \<open>The line status register eventually reports room for a byte, as the device documents.\<close>

definition uart_live :: "dev \<Rightarrow> bool" where
  "uart_live d \<longleftrightarrow> (\<forall>n. \<exists>k \<ge> n. port_in d k (COM1 + SERIAL_LINE_STATUS) AND 0x20 \<noteq> 0)"

definition uart_ready :: "uart \<Rightarrow> dev \<Rightarrow> bool" where
  "uart_ready u0 d \<longleftrightarrow> uart_live d \<and> \<not> bit (u_lcr (uart_of u0 d)) 7"

definition uart_sent :: "uart \<Rightarrow> dev \<Rightarrow> u8 list" where
  "uart_sent u0 d = u_sent (uart_of u0 d)"

lemma serial_can_transmit_eq:
  "serial_can_transmit d =
    (port_in d (reads d) (COM1 + SERIAL_LINE_STATUS) AND 0x20 \<noteq> 0,
     emit (Inb (COM1 + SERIAL_LINE_STATUS) (port_in d (reads d) (COM1 + SERIAL_LINE_STATUS)))
       (d\<lparr>reads := Suc (reads d)\<rparr>))"
  by (simp add: serial_can_transmit_def arch_inb_def Let_def)

text \<open>The wait ends at the first read that reports room, without writing to any port.\<close>

lemma serial_wait_live:
  assumes "uart_live d"
  shows "\<exists>d'. serial_wait d = Some d' \<and> port_in d' = port_in d \<and> uart_of u0 d' = uart_of u0 d"
proof -
  obtain k where "k \<ge> reads d" "port_in d k (COM1 + SERIAL_LINE_STATUS) AND 0x20 \<noteq> 0"
    using assms by (auto simp: uart_live_def)
  then show ?thesis
  proof (induction "k - reads d" arbitrary: d)
    case 0
    then show ?case
      by (subst serial_wait.simps)
         (simp add: serial_can_transmit_eq uart_of_emit, simp add: uart_of_def)
  next
    case (Suc n)
    show ?case
    proof (cases "port_in d (reads d) (COM1 + SERIAL_LINE_STATUS) AND 0x20 = 0")
      case True
      let ?d = "emit Pause (snd (serial_can_transmit d))"
      have d: "port_in ?d = port_in d" "reads ?d = Suc (reads d)" "uart_of u0 ?d = uart_of u0 d"
        by (simp_all add: serial_can_transmit_eq uart_of_emit, simp add: uart_of_def)
      have "\<exists>d'. serial_wait ?d = Some d' \<and> port_in d' = port_in ?d \<and> uart_of u0 d' = uart_of u0 ?d"
        using Suc d(1,2) by (intro Suc.hyps(1)) auto
      moreover have "serial_wait d = serial_wait ?d"
        using True by (subst serial_wait.simps) (simp add: serial_can_transmit_eq)
      ultimately show ?thesis using d by simp
    next
      case False
      then show ?thesis
        by (subst serial_wait.simps)
           (simp add: serial_can_transmit_eq uart_of_emit, simp add: uart_of_def)
    qed
  qed
qed

interpretation serial: byte_sink arch_serial_putc "uart_ready u0" "uart_sent u0" "\<lambda>b. [b]" for u0
proof
  fix w :: dev and b :: u8 assume ok: "uart_ready u0 w"
  then obtain w' where w': "serial_wait w = Some w'" "port_in w' = port_in w"
    "uart_of u0 w' = uart_of u0 w" using serial_wait_live [of w u0] by (auto simp: uart_ready_def)
  with ok show "\<exists>w'. arch_serial_putc b w = Some w' \<and> uart_ready u0 w' \<and>
      uart_sent u0 w' = uart_sent u0 w @ [b]"
    by (auto simp: arch_serial_putc_def uart_ready_def uart_live_def uart_sent_def arch_outb_def
        uart_of_emit uart_write_def)
qed

text \<open>The log sends a carriage return before each newline.\<close>

definition crlf :: "u8 \<Rightarrow> u8 list" where
  "crlf b = (if b = 10 then [13, 10] else [b])"

interpretation klog: byte_sink klog_putc "uart_ready u0" "uart_sent u0" crlf for u0
proof
  fix w :: dev and b :: u8 assume ok: "uart_ready u0 w"
  show "\<exists>w'. klog_putc b w = Some w' \<and> uart_ready u0 w' \<and> uart_sent u0 w' = uart_sent u0 w @ crlf b"
  proof (cases "b = 10")
    case True
    obtain v where v: "arch_serial_putc 13 w = Some v" "uart_ready u0 v"
      "uart_sent u0 v = uart_sent u0 w @ [13]" using serial.put_emits [OF ok] by blast
    obtain w' where "arch_serial_putc b v = Some w'" "uart_ready u0 w'"
      "uart_sent u0 w' = uart_sent u0 v @ [b]" using serial.put_emits [OF v(2)] by blast
    with v True show ?thesis by (simp add: klog_putc_def crlf_def)
  next
    case False
    with serial.put_emits [OF ok, of b] show ?thesis by (simp add: klog_putc_def crlf_def)
  qed
qed

lemma klog_write_cstring:
  assumes "cstring_at m p s" "uart_ready u0 d"
  shows "\<exists>d'. klog_write p m d = Some d' \<and> uart_ready u0 d' \<and>
    uart_sent u0 d' = uart_sent u0 d @ concat (map crlf s)"
  using klog.put_cstring [OF assms] assms(1) by (simp add: klog_write_def cstring_at_def)

lemma klog_writeln_cstring:
  assumes "cstring_at m p s" "uart_ready u0 d"
  shows "\<exists>d'. klog_writeln p m d = Some d' \<and> uart_ready u0 d' \<and>
    uart_sent u0 d' = uart_sent u0 d @ concat (map crlf s) @ [13, 10]"
proof -
  obtain v where v: "klog_write p m d = Some v" "uart_ready u0 v"
    "uart_sent u0 v = uart_sent u0 d @ concat (map crlf s)"
    using klog_write_cstring [OF assms] by blast
  with klog.put_emits [OF v(2), of 10] show ?thesis by (simp add: klog_writeln_def crlf_def)
qed

subsection \<open>Early initialisation\<close>

text \<open>What the tables hold when the processor is told about them.\<close>

definition boot_tables_ready :: "boot_tables \<Rightarrow> bool" where
  "boot_tables_ready t \<longleftrightarrow>
     map gdt_entry_bits (boot_gdt t) =
       [0, 0x00af9a000000ffff, 0x00cf92000000ffff, 0x00affa000000ffff, 0x00cff2000000ffff] \<and>
     boot_idt t = replicate 256 0"

lemma descriptor_tables_spec:
  assumes "length (boot_gdt t) = 5" "length (boot_idt t) = 256"
    and "boot_gdt_addr t \<noteq> 0" "boot_idt_addr t \<noteq> 0"
  shows "\<exists>t' d'. kx86_descriptor_tables_init junk t d = Some (t', d') \<and> boot_tables_ready t' \<and>
    d' = emit (Lidt \<lparr>idtr_limit = 4095, idtr_base = boot_idt_addr t\<rparr>)
           (emit (Lgdt \<lparr>gdtr_limit = 39, gdtr_base = boot_gdt_addr t\<rparr>)
             (emit (Store_idt (boot_idt_addr t) (boot_idt t'))
               (emit (Store_gdt (boot_gdt_addr t) (boot_gdt t')) d)))"
proof -
  obtain es where es: "kx86_gdt_default_table junk (Some (boot_gdt t)) KX86_GDT_DEFAULT_ENTRIES = Some (Some es)"
    "map gdt_entry_bits es =
      [0, 0x00af9a000000ffff, 0x00cf92000000ffff, 0x00affa000000ffff, 0x00cff2000000ffff]"
    using gdt_default_table_bits [OF assms(1), of junk] by (elim exE conjE) (rule that)
  have i256: "unat KX86_IDT_DEFAULT_ENTRIES = 256" by (simp add: struct_defs)
  have cl: "kx86_idt_clear (Some (boot_idt t)) KX86_IDT_DEFAULT_ENTRIES = Some (Some (replicate 256 0))"
    using idt_clear_spec [of KX86_IDT_DEFAULT_ENTRIES "boot_idt t"] unfolding i256 assms(2)
    by (simp only: drop_all [OF eq_refl [OF assms(2)]] append_Nil2 order_refl simp_thms)
  have r: "kx86_gdtr_make (boot_gdt_addr t) KX86_GDT_DEFAULT_ENTRIES =
      \<lparr>gdtr_limit = 39, gdtr_base = boot_gdt_addr t\<rparr>"
    "kx86_idtr_make (boot_idt_addr t) KX86_IDT_DEFAULT_ENTRIES =
      \<lparr>idtr_limit = 4095, idtr_base = boot_idt_addr t\<rparr>"
    using assms(3,4) by (simp_all add: kx86_gdtr_make_def kx86_idtr_make_def struct_defs)
  let ?idt = "replicate 256 0 :: kx86_idt_gate list"
  have fill: "fill_boot_gdt junk t d = Some (t\<lparr>boot_gdt := es\<rparr>, emit (Store_gdt (boot_gdt_addr t) es) d)"
    "fill_boot_idt (t\<lparr>boot_gdt := es\<rparr>) d' =
      Some (t\<lparr>boot_gdt := es, boot_idt := ?idt\<rparr>, emit (Store_idt (boot_idt_addr t) ?idt) d')" for d'
    by (simp_all add: fill_boot_gdt_def fill_boot_idt_def es(1) cl)
  have "kx86_descriptor_tables_init junk t d = Some (t\<lparr>boot_gdt := es, boot_idt := ?idt\<rparr>,
      emit (Lidt \<lparr>idtr_limit = 4095, idtr_base = boot_idt_addr t\<rparr>)
        (emit (Lgdt \<lparr>gdtr_limit = 39, gdtr_base = boot_gdt_addr t\<rparr>)
          (emit (Store_idt (boot_idt_addr t) ?idt) (emit (Store_gdt (boot_gdt_addr t) es) d))))"
    by (simp add: kx86_descriptor_tables_init_def fill r kx86_lgdt_def kx86_lidt_def del: replicate.simps)
  with es(2) show ?thesis unfolding boot_tables_ready_def
    by (intro exI conjI) (assumption | rule refl | simp)+
qed

lemma uart_live_emit [simp]: "uart_live (emit e d) = uart_live d"
  by (simp add: uart_live_def)

lemma early_init_spec:
  assumes "length (boot_gdt t) = 5" "length (boot_idt t) = 256"
    and "boot_gdt_addr t \<noteq> 0" "boot_idt_addr t \<noteq> 0" and "uart_live d"
  shows "\<exists>t' d'. arch_early_init junk t d = Some (t', d') \<and> boot_tables_ready t' \<and> uart_ready u0 d' \<and>
    uart_sent u0 d' = uart_sent u0 d"
proof -
  obtain t' d1 where t': "kx86_descriptor_tables_init junk t d = Some (t', d1)" "boot_tables_ready t'"
    "d1 = emit (Lidt \<lparr>idtr_limit = 4095, idtr_base = boot_idt_addr t\<rparr>)
           (emit (Lgdt \<lparr>gdtr_limit = 39, gdtr_base = boot_gdt_addr t\<rparr>)
             (emit (Store_idt (boot_idt_addr t) (boot_idt t'))
               (emit (Store_gdt (boot_gdt_addr t) (boot_gdt t')) d)))"
    using descriptor_tables_spec [OF assms(1-4)] by blast
  have "uart_live (arch_serial_init d1)"
    using assms(5) t'(3) by (simp add: arch_serial_init_def arch_outb_def Let_def)
  moreover have "uart_of u0 d1 = uart_of u0 d" using t'(3) by (simp add: uart_of_emit)
  ultimately show ?thesis
    by (simp add: arch_early_init_def t'(1,2) uart_ready_def uart_sent_def uart_after_init bit_numeral_rec)
qed

subsection \<open>Panic\<close>

lemma kernel_panic_spec:
  assumes pre: "cstring_at m (lits ''kernel panic: '') pb"
    and msg: "cstring_at m (if message = 0 then lits ''(null)'' else message) mb"
    and ok: "uart_ready u0 d"
  shows "\<exists>d'. kernel_panic lits message m d = Some d' \<and> last (trace d') = Cli_hlt \<and>
    uart_sent u0 d' = uart_sent u0 d @ concat (map crlf (pb @ mb)) @ [13, 10]"
proof -
  obtain d1 where d1: "klog_write (lits ''kernel panic: '') m d = Some d1" "uart_ready u0 d1"
    "uart_sent u0 d1 = uart_sent u0 d @ concat (map crlf pb)"
    using klog_write_cstring [OF pre ok] by blast
  obtain d2 where d2: "klog_writeln (if message = 0 then lits ''(null)'' else message) m d1 = Some d2"
    "uart_sent u0 d2 = uart_sent u0 d1 @ concat (map crlf mb) @ [13, 10]"
    using klog_writeln_cstring [OF msg d1(2)] by blast
  have "(if message \<noteq> 0 then message else lits ''(null)'') = (if message = 0 then lits ''(null)'' else message)"
    by simp
  then have "kernel_panic lits message m d = Some (arch_halt d2)"
    unfolding kernel_panic_def by (simp only: d1(1) d2(1) bind.bind_lunit)
  moreover have "last (trace (arch_halt d2)) = Cli_hlt" "uart_sent u0 (arch_halt d2) = uart_sent u0 d2"
    by (simp_all add: arch_halt_def uart_sent_def uart_of_emit)
  ultimately show ?thesis using d1(3) d2(2) by simp
qed

lemma KASSERT_pass: "KASSERT lits True expr m d = Some (Inr d)"
  by (simp add: KASSERT_def)

end
