(* ===== verification/KSyscall.thy ===== *)
theory KSyscall
  imports KFs KConsole
begin

section \<open>The system call dispatcher (kernel/syscall.c, kernel/include/kernel/syscall.h)\<close>

text \<open>
  The machine is the byte memory, the filesystem state and the device. A task is a record; its
  file table is the list of its eight entries. A \<open>struct ktask *\<close> is \<^const>\<open>None\<close> for NULL and
  otherwise the task it points to, which every operation returns as it left it. \<open>intptr_t\<close> and
  \<open>int\<close> results are words of their width.

  This is the freestanding build, where \<open>default_write_byte\<close> is \<open>klog_putc\<close>. A call of a
  task's own \<open>write_byte\<close> is the event \<^const>\<open>Write_byte\<close>: the function is not part of the
  kernel, and the model assumes that it does not change the kernel's state.
\<close>

datatype ksyscall_number =
    KSYSCALL_READ | KSYSCALL_WRITE | KSYSCALL_OPEN | KSYSCALL_CLOSE | KSYSCALL_STAT
  | KSYSCALL_GETPID | KSYSCALL_EXIT

text \<open>The enumerators are 0 to 6; any other value of the enum's 32-bit type takes the default
  branch of the switch.\<close>

definition ksyscall_number_of :: "u32 \<Rightarrow> ksyscall_number option" where
  "ksyscall_number_of n =
     (if n = 0 then Some KSYSCALL_READ
      else if n = 1 then Some KSYSCALL_WRITE
      else if n = 2 then Some KSYSCALL_OPEN
      else if n = 3 then Some KSYSCALL_CLOSE
      else if n = 4 then Some KSYSCALL_STAT
      else if n = 5 then Some KSYSCALL_GETPID
      else if n = 6 then Some KSYSCALL_EXIT
      else None)"

fun ksyscall_number_code :: "ksyscall_number \<Rightarrow> u32" where
  "ksyscall_number_code KSYSCALL_READ = 0"
| "ksyscall_number_code KSYSCALL_WRITE = 1"
| "ksyscall_number_code KSYSCALL_OPEN = 2"
| "ksyscall_number_code KSYSCALL_CLOSE = 3"
| "ksyscall_number_code KSYSCALL_STAT = 4"
| "ksyscall_number_code KSYSCALL_GETPID = 5"
| "ksyscall_number_code KSYSCALL_EXIT = 6"

text \<open>Decoding a number inverts the enumeration.\<close>

interpretation syscall_nr: codec ksyscall_number_code "\<lambda>w. the (ksyscall_number_of w)" "\<lambda>_. True"
proof
  fix x show "the (ksyscall_number_of (ksyscall_number_code x)) = x"
    by (cases x) (simp_all add: ksyscall_number_of_def)
qed

definition ksyscall_nr :: "ksyscall_number \<Rightarrow> u64" where
  "ksyscall_nr n = ucast (ksyscall_number_code n)"

lemma ksyscall_number_of_code [simp]: "ksyscall_number_of (ksyscall_number_code n) = Some n"
  by (cases n) (simp_all add: ksyscall_number_of_def)

lemma ksyscall_number_of_nr [simp]: "ksyscall_number_of (ucast (ksyscall_nr n)) = Some n"
  by (cases n) (simp_all add: ksyscall_nr_def ksyscall_number_of_def)

datatype ksyscall_error =
    KSYSCALL_OK | KSYSCALL_ENOENT | KSYSCALL_EBADF | KSYSCALL_EFAULT | KSYSCALL_EINVAL
  | KSYSCALL_EMFILE | KSYSCALL_ENOSYS

fun ksyscall_error_code :: "ksyscall_error \<Rightarrow> u32" where
  "ksyscall_error_code KSYSCALL_OK = 0"
| "ksyscall_error_code KSYSCALL_ENOENT = 2"
| "ksyscall_error_code KSYSCALL_EBADF = 9"
| "ksyscall_error_code KSYSCALL_EFAULT = 14"
| "ksyscall_error_code KSYSCALL_EINVAL = 22"
| "ksyscall_error_code KSYSCALL_EMFILE = 24"
| "ksyscall_error_code KSYSCALL_ENOSYS = 38"

definition KTASK_MAX_FILES :: usize where [struct_defs]: "KTASK_MAX_FILES = 8"
definition KSYSCALL_FD_STDIN :: usize where [struct_defs]: "KSYSCALL_FD_STDIN = 0"
definition KSYSCALL_FD_STDOUT :: usize where [struct_defs]: "KSYSCALL_FD_STDOUT = 1"
definition KSYSCALL_FD_STDERR :: usize where [struct_defs]: "KSYSCALL_FD_STDERR = 2"
definition KSYSCALL_FD_FIRST_FILE :: usize where [struct_defs]: "KSYSCALL_FD_FIRST_FILE = 3"

record ksyscall_regs =
  r_nr :: u64
  r_arg0 :: u64
  r_arg1 :: u64
  r_arg2 :: u64
  r_arg3 :: u64
  r_arg4 :: u64
  r_arg5 :: u64

record ksyscall_result =
  sr_value :: u64
  sr_error :: ksyscall_error
  sr_should_exit :: bool
  sr_exit_status :: u32

record ktask_file =
  f_node :: ptr
  f_offset :: usize
  f_used :: bool

instantiation ktask_file_ext :: (zero) zero
begin

definition zero_ktask_file_ext :: "'a ktask_file_ext" where
  "zero_ktask_file_ext = ktask_file_ext 0 0 False 0"

instance ..

end

lemma ktask_file_zero [simp]: "f_node 0 = 0" "f_offset 0 = 0" "\<not> f_used 0"
  by (simp_all add: zero_ktask_file_ext_def ktask_file.defs)

record ktask =
  t_pid :: u32
  t_user_base :: ptr
  t_user_len :: usize
  t_write_byte :: ptr
  t_write_ctx :: ptr
  t_files :: "ktask_file list"

record machine =
  m_mem :: mem
  m_fs :: kfs
  m_dev :: dev

type_synonym syscall_outcome = "(ksyscall_result \<times> ktask option \<times> machine) option"

subsection \<open>The handlers\<close>

definition default_write_byte :: "ptr \<Rightarrow> u8 \<Rightarrow> dev \<Rightarrow> dev option" where
  "default_write_byte ctx ch d = klog_putc ch d"

definition call_write_byte :: "ptr \<Rightarrow> ptr \<Rightarrow> u8 \<Rightarrow> dev \<Rightarrow> dev option" where
  "call_write_byte fn ctx ch d = Some (emit (Write_byte fn ctx ch) d)"

definition ksyscall_result_of :: "u64 \<Rightarrow> ksyscall_error \<Rightarrow> ksyscall_result" where
  "ksyscall_result_of v e = \<lparr>sr_value = v, sr_error = e, sr_should_exit = False, sr_exit_status = 0\<rparr>"

definition task_contains_user_range :: "ktask option \<Rightarrow> ptr \<Rightarrow> usize \<Rightarrow> bool" where
  "task_contains_user_range task ptr len =
     (case task of
        None \<Rightarrow> False
      | Some t \<Rightarrow>
          if len = 0 then True
          else case checked_add ptr len of
              None \<Rightarrow> False
            | Some ptr_end \<Rightarrow>
                (case checked_add (t_user_base t) (t_user_len t) of
                   None \<Rightarrow> False
                 | Some user_end \<Rightarrow> ptr \<ge> t_user_base t \<and> ptr_end \<le> user_end))"

definition sys_write :: "machine \<Rightarrow> ktask option \<Rightarrow> u64 \<Rightarrow> ptr \<Rightarrow> usize \<Rightarrow> syscall_outcome" where
  "sys_write M task fd p len =
     (if fd \<noteq> KSYSCALL_FD_STDOUT \<and> fd \<noteq> KSYSCALL_FD_STDERR
      then Some (ksyscall_result_of (- 1) KSYSCALL_EBADF, task, M)
      else if \<not> task_contains_user_range task p len
      then Some (ksyscall_result_of (- 1) KSYSCALL_EFAULT, task, M)
      else do {
        t \<leftarrow> task;
        let write_byte = (if t_write_byte t \<noteq> 0 then call_write_byte (t_write_byte t)
                          else default_write_byte) in do {
          d \<leftarrow> for_range 0 len
                 (\<lambda>i d. do { b \<leftarrow> load (p + i) (m_mem M); write_byte (t_write_ctx t) b d }) (m_dev M);
          Some (ksyscall_result_of len KSYSCALL_OK, task, M\<lparr>m_dev := d\<rparr>)
        }
      })"

definition get_file :: "ktask \<Rightarrow> u64 \<Rightarrow> ktask_file option" where
  "get_file t fd = (if unat fd < length (t_files t) then Some (t_files t ! unat fd) else None)"

definition put_file :: "ktask \<Rightarrow> u64 \<Rightarrow> ktask_file \<Rightarrow> ktask" where
  "put_file t fd f = t\<lparr>t_files := (t_files t)[unat fd := f]\<rparr>"

definition sys_open :: "machine \<Rightarrow> ktask option \<Rightarrow> ptr \<Rightarrow> usize \<Rightarrow> syscall_outcome" where
  "sys_open M task path_ptr path_len =
     (if \<not> task_contains_user_range task path_ptr path_len
      then Some (ksyscall_result_of (- 1) KSYSCALL_EFAULT, task, M)
      else do {
        node \<leftarrow> kfs_lookup (m_fs M) path_ptr path_len (m_mem M);
        if node = 0 then Some (ksyscall_result_of (- 1) KSYSCALL_ENOENT, task, M)
        else do {
          t \<leftarrow> task;
          slot \<leftarrow> for_find KSYSCALL_FD_FIRST_FILE KTASK_MAX_FILES
                    (\<lambda>fd. do { f \<leftarrow> get_file t fd; Some (if \<not> f_used f then Some fd else None) });
          Some (case slot of
              None \<Rightarrow> (ksyscall_result_of (- 1) KSYSCALL_EMFILE, task, M)
            | Some fd \<Rightarrow>
                (ksyscall_result_of fd KSYSCALL_OK,
                 Some (put_file t fd \<lparr>f_node = node, f_offset = 0, f_used = True\<rparr>), M))
        }
      })"

text \<open>The guard \<open>sys_close\<close> and \<open>sys_read\<close> share, with its short-circuit order.\<close>

definition bad_file_fd :: "ktask option \<Rightarrow> u64 \<Rightarrow> bool option" where
  "bad_file_fd task fd =
     (case task of
        None \<Rightarrow> Some True
      | Some t \<Rightarrow>
          if fd < KSYSCALL_FD_FIRST_FILE \<or> fd \<ge> KTASK_MAX_FILES then Some True
          else do { f \<leftarrow> get_file t fd; Some (\<not> f_used f) })"

definition sys_close :: "machine \<Rightarrow> ktask option \<Rightarrow> u64 \<Rightarrow> syscall_outcome" where
  "sys_close M task fd = do {
     bad \<leftarrow> bad_file_fd task fd;
     if bad then Some (ksyscall_result_of (- 1) KSYSCALL_EBADF, task, M)
     else do {
       t \<leftarrow> task;
       Some (ksyscall_result_of 0 KSYSCALL_OK, Some (put_file t fd 0), M)
     }
   }"

definition sys_read :: "machine \<Rightarrow> ktask option \<Rightarrow> u64 \<Rightarrow> ptr \<Rightarrow> usize \<Rightarrow> syscall_outcome" where
  "sys_read M task fd dst len = do {
     bad \<leftarrow> bad_file_fd task fd;
     if bad then Some (ksyscall_result_of (- 1) KSYSCALL_EBADF, task, M)
     else if \<not> task_contains_user_range task dst len
     then Some (ksyscall_result_of (- 1) KSYSCALL_EFAULT, task, M)
     else do {
       t \<leftarrow> task;
       file \<leftarrow> get_file t fd;
       (bytes_read, m') \<leftarrow> kfs_read_node (m_fs M) (f_node file) (f_offset file) dst len (m_mem M);
       Some (ksyscall_result_of bytes_read KSYSCALL_OK,
             Some (put_file t fd (file\<lparr>f_offset := f_offset file + bytes_read\<rparr>)),
             M\<lparr>m_mem := m'\<rparr>)
     }
   }"

definition sys_stat :: "machine \<Rightarrow> ktask option \<Rightarrow> ptr \<Rightarrow> usize \<Rightarrow> ptr \<Rightarrow> syscall_outcome" where
  "sys_stat M task path_ptr path_len stat_ptr =
     (if \<not> task_contains_user_range task path_ptr path_len \<or>
         \<not> task_contains_user_range task stat_ptr sizeof_kfs_stat
      then Some (ksyscall_result_of (- 1) KSYSCALL_EFAULT, task, M)
      else do {
        node \<leftarrow> kfs_lookup (m_fs M) path_ptr path_len (m_mem M);
        if node = 0 then Some (ksyscall_result_of (- 1) KSYSCALL_ENOENT, task, M)
        else do {
          (err, m') \<leftarrow> kfs_stat_node (m_fs M) node stat_ptr (m_mem M);
          if err \<noteq> KFS_OK
          then Some (ksyscall_result_of (- 1) KSYSCALL_EINVAL, task, M\<lparr>m_mem := m'\<rparr>)
          else Some (ksyscall_result_of 0 KSYSCALL_OK, task, M\<lparr>m_mem := m'\<rparr>)
        }
      })"

definition sys_getpid :: "machine \<Rightarrow> ktask option \<Rightarrow> syscall_outcome" where
  "sys_getpid M task =
     (case task of
        None \<Rightarrow> Some (ksyscall_result_of (- 1) KSYSCALL_EINVAL, task, M)
      | Some t \<Rightarrow>
          if t_pid t = 0 then Some (ksyscall_result_of (- 1) KSYSCALL_EINVAL, task, M)
          else Some (ksyscall_result_of (ucast (t_pid t)) KSYSCALL_OK, task, M))"

definition sys_exit :: "machine \<Rightarrow> ktask option \<Rightarrow> u32 \<Rightarrow> syscall_outcome" where
  "sys_exit M task status =
     Some (\<lparr>sr_value = 0, sr_error = KSYSCALL_OK, sr_should_exit = True, sr_exit_status = status\<rparr>,
           task, M)"

text \<open>The switch converts the 64-bit number to the 32-bit enum before it compares.\<close>

definition ksyscall_dispatch :: "machine \<Rightarrow> ktask option \<Rightarrow> ksyscall_regs option \<Rightarrow> syscall_outcome" where
  "ksyscall_dispatch M task regs =
     (case regs of
        None \<Rightarrow> Some (ksyscall_result_of (- 1) KSYSCALL_EINVAL, task, M)
      | Some r \<Rightarrow>
          (case ksyscall_number_of (ucast (r_nr r)) of
             Some KSYSCALL_READ \<Rightarrow> sys_read M task (r_arg0 r) (r_arg1 r) (r_arg2 r)
           | Some KSYSCALL_WRITE \<Rightarrow> sys_write M task (r_arg0 r) (r_arg1 r) (r_arg2 r)
           | Some KSYSCALL_OPEN \<Rightarrow> sys_open M task (r_arg0 r) (r_arg1 r)
           | Some KSYSCALL_CLOSE \<Rightarrow> sys_close M task (r_arg0 r)
           | Some KSYSCALL_STAT \<Rightarrow> sys_stat M task (r_arg0 r) (r_arg1 r) (r_arg2 r)
           | Some KSYSCALL_GETPID \<Rightarrow> sys_getpid M task
           | Some KSYSCALL_EXIT \<Rightarrow> sys_exit M task (ucast (r_arg0 r))
           | None \<Rightarrow> Some (ksyscall_result_of (- 1) KSYSCALL_ENOSYS, task, M)))"

end
