(* ===== verification/Posix.thy ===== *)
theory Posix
  imports KSyscall
begin

section \<open>What the dispatcher promises: an abstract system call interface\<close>

text \<open>
  The specification the dispatcher implements. A process sees its memory as a list of bytes at a
  base address, a map from paths to contents, a table of open files, each its contents and the
  current position, and what it has written so far. Every call is a total function of this
  state; pointers that do not lie in the process's memory fail with \<open>EFAULT\<close>, for calls of
  length zero no pointer is looked at.

  \<open>represents\<close> relates a machine and a task to such a state. It contains the well-formedness the
  kernel relies on: the user range is mapped and does not wrap, the filesystem's bytes are intact
  and lie outside the user range, every descriptor in use refers to such a node and is not past
  its end. The main lemma \<open>dispatch_refines\<close> says that every dispatch is defined, returns what the
  specification returns, ends related, and changes no byte outside the user range.
\<close>

record posix =
  px_pid :: u32
  px_base :: ptr
  px_mem :: "u8 list"
  px_files :: "u8 list \<rightharpoonup> u8 list"
  px_fds :: "nat \<rightharpoonup> (u8 list \<times> nat)"
  px_out :: "u8 list"

definition px_valid :: "posix \<Rightarrow> ptr \<Rightarrow> usize \<Rightarrow> bool" where
  "px_valid px p n \<longleftrightarrow>
     n = 0 \<or> unat (px_base px) \<le> unat p \<and> unat p + unat n \<le> unat (px_base px) + length (px_mem px)"

definition px_off :: "posix \<Rightarrow> ptr \<Rightarrow> nat" where
  "px_off px p = unat p - unat (px_base px)"

definition px_slice :: "posix \<Rightarrow> ptr \<Rightarrow> usize \<Rightarrow> u8 list" where
  "px_slice px p n = take (unat n) (drop (px_off px p) (px_mem px))"

definition splice :: "'a list \<Rightarrow> nat \<Rightarrow> 'a list \<Rightarrow> 'a list" where
  "splice xs k ys = take k xs @ ys @ drop (k + length ys) xs"

definition px_store :: "ptr \<Rightarrow> u8 list \<Rightarrow> posix \<Rightarrow> posix" where
  "px_store p bs px = px\<lparr>px_mem := splice (px_mem px) (px_off px p) bs\<rparr>"

abbreviation px_err :: "ksyscall_error \<Rightarrow> ksyscall_result" where
  "px_err e \<equiv> ksyscall_result_of (- 1) e"

abbreviation px_ok :: "u64 \<Rightarrow> ksyscall_result" where
  "px_ok v \<equiv> ksyscall_result_of v KSYSCALL_OK"

definition px_read :: "posix \<Rightarrow> u64 \<Rightarrow> ptr \<Rightarrow> usize \<Rightarrow> posix \<times> ksyscall_result" where
  "px_read px fd p n =
     (case px_fds px (unat fd) of
        None \<Rightarrow> (px, px_err KSYSCALL_EBADF)
      | Some (content, off) \<Rightarrow>
          if \<not> px_valid px p n then (px, px_err KSYSCALL_EFAULT)
          else let bs = take (unat n) (drop off content)
               in ((px_store p bs px)\<lparr>px_fds := (px_fds px)(unat fd \<mapsto> (content, off + length bs))\<rparr>,
                   px_ok (of_nat (length bs))))"

definition px_write :: "posix \<Rightarrow> u64 \<Rightarrow> ptr \<Rightarrow> usize \<Rightarrow> posix \<times> ksyscall_result" where
  "px_write px fd p n =
     (if fd \<noteq> 1 \<and> fd \<noteq> 2 then (px, px_err KSYSCALL_EBADF)
      else if \<not> px_valid px p n then (px, px_err KSYSCALL_EFAULT)
      else (px\<lparr>px_out := px_out px @ px_slice px p n\<rparr>, px_ok n))"

definition px_free_fd :: "(nat \<rightharpoonup> 'a) \<Rightarrow> nat option" where
  "px_free_fd fds = first_hit (\<lambda>i. if fds i = None then Some i else None) 3 8"

definition px_resolve :: "posix \<Rightarrow> ptr \<Rightarrow> usize \<Rightarrow> u8 list option" where
  "px_resolve px p n = (if n = 0 then None else px_files px (px_slice px p n))"

definition px_open :: "posix \<Rightarrow> ptr \<Rightarrow> usize \<Rightarrow> posix \<times> ksyscall_result" where
  "px_open px p n =
     (if \<not> px_valid px p n then (px, px_err KSYSCALL_EFAULT)
      else case px_resolve px p n of
          None \<Rightarrow> (px, px_err KSYSCALL_ENOENT)
        | Some content \<Rightarrow>
            (case px_free_fd (px_fds px) of
               None \<Rightarrow> (px, px_err KSYSCALL_EMFILE)
             | Some fd \<Rightarrow> (px\<lparr>px_fds := (px_fds px)(fd \<mapsto> (content, 0))\<rparr>, px_ok (of_nat fd))))"

definition px_close :: "posix \<Rightarrow> u64 \<Rightarrow> posix \<times> ksyscall_result" where
  "px_close px fd =
     (if px_fds px (unat fd) = None then (px, px_err KSYSCALL_EBADF)
      else (px\<lparr>px_fds := (px_fds px)(unat fd := None)\<rparr>, px_ok 0))"

definition px_stat :: "posix \<Rightarrow> ptr \<Rightarrow> usize \<Rightarrow> ptr \<Rightarrow> posix \<times> ksyscall_result" where
  "px_stat px p n sp =
     (if \<not> px_valid px p n \<or> \<not> px_valid px sp sizeof_kfs_stat then (px, px_err KSYSCALL_EFAULT)
      else case px_resolve px p n of
          None \<Rightarrow> (px, px_err KSYSCALL_ENOENT)
        | Some content \<Rightarrow>
            (px_store sp (stat_bytes \<lparr>st_size = of_nat (length content), st_mode = KFS_MODE_FILE,
                                      st_is_file = True\<rparr>) px, px_ok 0))"

definition posix_call :: "posix \<Rightarrow> ksyscall_regs \<Rightarrow> posix \<times> ksyscall_result" where
  "posix_call px r =
     (case ksyscall_number_of (ucast (r_nr r)) of
        Some KSYSCALL_READ \<Rightarrow> px_read px (r_arg0 r) (r_arg1 r) (r_arg2 r)
      | Some KSYSCALL_WRITE \<Rightarrow> px_write px (r_arg0 r) (r_arg1 r) (r_arg2 r)
      | Some KSYSCALL_OPEN \<Rightarrow> px_open px (r_arg0 r) (r_arg1 r)
      | Some KSYSCALL_CLOSE \<Rightarrow> px_close px (r_arg0 r)
      | Some KSYSCALL_STAT \<Rightarrow> px_stat px (r_arg0 r) (r_arg1 r) (r_arg2 r)
      | Some KSYSCALL_GETPID \<Rightarrow>
          (px, if px_pid px = 0 then px_err KSYSCALL_EINVAL else px_ok (ucast (px_pid px)))
      | Some KSYSCALL_EXIT \<Rightarrow>
          (px, \<lparr>sr_value = 0, sr_error = KSYSCALL_OK, sr_should_exit = True,
                sr_exit_status = ucast (r_arg0 r)\<rparr>)
      | None \<Rightarrow> (px, px_err KSYSCALL_ENOSYS))"

subsection \<open>The relation\<close>

definition isolated :: "kfs \<Rightarrow> mem \<Rightarrow> ktask \<Rightarrow> ptr \<Rightarrow> u8 list \<Rightarrow> u8 list \<Rightarrow> bool" where
  "isolated fs m t node pth content \<longleftrightarrow> node_rep fs m node pth content \<and>
     (\<forall>nd. node_at fs node = Some nd \<longrightarrow>
        disjoint_ranges (t_user_base t) (t_user_len t) (node_path nd) (of_nat (length pth + 1)) \<and>
        disjoint_ranges (t_user_base t) (t_user_len t) (node_data nd) (node_size nd))"

definition files_rel :: "entry list \<Rightarrow> machine \<Rightarrow> ktask \<Rightarrow> bool" where
  "files_rel files M t \<longleftrightarrow> fs_rep (m_fs M) (m_mem M) files \<and>
     (\<forall>i pth content. i < length files \<and> files ! i = Some (pth, content) \<longrightarrow>
        isolated (m_fs M) (m_mem M) t (node_ptr (m_fs M) i) pth content)"

definition open_file :: "machine \<Rightarrow> ktask \<Rightarrow> ktask_file \<Rightarrow> (u8 list \<times> nat) option \<Rightarrow> bool" where
  "open_file M t f e =
     (case e of
        None \<Rightarrow> \<not> f_used f
      | Some (content, off) \<Rightarrow> f_used f \<and> (\<exists>pth. isolated (m_fs M) (m_mem M) t (f_node f) pth content) \<and>
          unat (f_offset f) = off \<and> off \<le> length content)"

definition fds_rel :: "machine \<Rightarrow> ktask \<Rightarrow> (nat \<rightharpoonup> (u8 list \<times> nat)) \<Rightarrow> bool" where
  "fds_rel M t fds \<longleftrightarrow> length (t_files t) = 8 \<and>
     (\<forall>i < 8. open_file M t (t_files t ! i) (fds i)) \<and> dom fds \<subseteq> {3..<8}"

definition user_rel :: "mem \<Rightarrow> ktask \<Rightarrow> ptr \<Rightarrow> u8 list \<Rightarrow> bool" where
  "user_rel m t base umem \<longleftrightarrow> base = t_user_base t \<and> base \<noteq> 0 \<and> length umem = unat (t_user_len t) \<and>
     unat base + length umem < 2 ^ 64 \<and> holds m base umem"

fun callback_byte :: "ptr \<Rightarrow> ptr \<Rightarrow> io_event \<Rightarrow> u8 list" where
  "callback_byte fn ctx (Write_byte fn' ctx' b) = (if fn' = fn \<and> ctx' = ctx then [b] else [])"
| "callback_byte fn ctx _ = []"

definition callback_sent :: "ptr \<Rightarrow> ptr \<Rightarrow> dev \<Rightarrow> u8 list" where
  "callback_sent fn ctx d = concat (map (callback_byte fn ctx) (trace d))"

definition sink_rel :: "uart \<Rightarrow> u8 list \<Rightarrow> dev \<Rightarrow> ktask \<Rightarrow> u8 list \<Rightarrow> bool" where
  "sink_rel u0 pre d t out \<longleftrightarrow>
     (if t_write_byte t = 0
      then uart_ready u0 d \<and> uart_sent u0 d = pre @ concat (map crlf out)
      else callback_sent (t_write_byte t) (t_write_ctx t) d = pre @ out)"

definition represents :: "uart \<Rightarrow> u8 list \<Rightarrow> entry list \<Rightarrow> machine \<Rightarrow> ktask \<Rightarrow> posix \<Rightarrow> bool" where
  "represents u0 pre files M t px \<longleftrightarrow>
     t_pid t = px_pid px \<and> user_rel (m_mem M) t (px_base px) (px_mem px) \<and>
     files_rel files M t \<and> px_files px = fs_map files \<and> fds_rel M t (px_fds px) \<and>
     sink_rel u0 pre (m_dev M) t (px_out px)"

text \<open>What no system call changes.\<close>

definition kernel_frame :: "machine \<Rightarrow> ktask \<Rightarrow> machine \<Rightarrow> ktask \<Rightarrow> bool" where
  "kernel_frame M t M' t' \<longleftrightarrow> m_fs M' = m_fs M \<and> dom (m_mem M') = dom (m_mem M) \<and>
     (\<forall>q. \<not> in_range q (t_user_base t) (t_user_len t) \<longrightarrow> m_mem M' q = m_mem M q) \<and>
     t' = t\<lparr>t_files := t_files t'\<rparr>"

interpretation callback: byte_sink "call_write_byte fn ctx" "\<lambda>_. True" "callback_sent fn ctx" "\<lambda>b. [b]"
  for fn ctx
  by unfold_locales (simp add: call_write_byte_def callback_sent_def)

subsection \<open>User memory\<close>

lemma user_valid:
  assumes "user_rel m t (px_base px) (px_mem px)"
  shows "task_contains_user_range (Some t) p n = px_valid px p n"
proof -
  from assms have u: "px_base px = t_user_base t" "length (px_mem px) = unat (t_user_len t)"
    "unat (t_user_base t) + unat (t_user_len t) < 2 ^ 64" by (auto simp: user_rel_def)
  then have ue: "checked_add (t_user_base t) (t_user_len t) = Some (t_user_base t + t_user_len t)"
    by (simp add: checked_add_def)
  from checked_add_unat [OF ue]
  show ?thesis
    by (auto simp: task_contains_user_range_def px_valid_def u(1,2) ue checked_add_def word_le_nat_alt
        unat_plus_no_overflow split: if_splits)
       (use u(3) in auto)
qed

lemma user_range:
  assumes u: "user_rel m t (px_base px) (px_mem px)" and v: "px_valid px p n"
    and a: "in_range a p n"
  shows "in_range a (t_user_base t) (t_user_len t)"
proof -
  let ?B = "t_user_base t" and ?L = "t_user_len t"
  from u have ub: "px_base px = ?B" "length (px_mem px) = unat ?L" by (auto simp: user_rel_def)
  from a have d: "unat (a - p) < unat n" by (simp add: in_range_def word_less_nat_alt)
  with v have w: "unat ?B \<le> unat p" "unat p + unat n \<le> unat ?B + unat ?L"
    by (auto simp: px_valid_def ub)
  have pB: "unat (p - ?B) = unat p - unat ?B"
    using w(1) by (intro unat_minus_le) (simp add: word_le_nat_alt)
  have "unat ((a - p) + (p - ?B)) = unat (a - p) + unat (p - ?B)"
    using d w pB unat_lt_64 [of ?L] by (intro unat_plus_no_overflow) simp
  then have "unat (a - ?B) = unat (a - p) + unat (p - ?B)" by simp
  with d w pB show ?thesis by (simp add: in_range_def word_less_nat_alt)
qed

lemma user_mapped: "user_rel m t base umem \<Longrightarrow> mapped (t_user_base t) (t_user_len t) m"
  using holds_mapped [of m base umem] by (auto simp: user_rel_def)

lemma user_mapped_sub:
  assumes "user_rel m t (px_base px) (px_mem px)" "px_valid px p n"
  shows "mapped p n m"
  using user_mapped [OF assms(1)] user_range [OF assms] by (auto intro: mapped_mono)

lemma user_nonnull:
  assumes "user_rel m t (px_base px) (px_mem px)" "px_valid px p n" "n \<noteq> 0"
  shows "p \<noteq> 0"
proof
  assume "p = 0"
  with assms have "unat (px_base px) = 0" by (simp add: px_valid_def)
  then have "px_base px = 0" by (simp only: unat_eq_0)
  moreover from assms(1) have "px_base px \<noteq> 0" unfolding user_rel_def by (elim conjE) blast
  ultimately show False by contradiction
qed

lemma user_split:
  assumes "user_rel m t (px_base px) (px_mem px)" "px_valid px p n" "n \<noteq> 0"
  shows "px_off px p + unat n \<le> length (px_mem px)" "p = px_base px + of_nat (px_off px p)"
    "length (px_slice px p n) = unat n"
  using assms by (auto simp: px_valid_def px_off_def px_slice_def)

lemma holds_drop:
  "holds m p bs \<Longrightarrow> k \<le> length bs \<Longrightarrow> holds m (p + of_nat k) (drop k bs)"
  using holds_append [of m p "take k bs" "drop k bs"] by simp

lemma user_slice:
  assumes u: "user_rel m t (px_base px) (px_mem px)" and v: "px_valid px p n"
  shows "holds m p (px_slice px p n)"
proof (cases "n = 0")
  case False
  note s = user_split [OF u v False]
  have "holds m (px_base px + of_nat (px_off px p)) (drop (px_off px p) (px_mem px))"
    using u s(1) by (intro holds_drop) (auto simp: user_rel_def)
  with s(2) show ?thesis unfolding px_slice_def by (metis holds_take)
qed (simp add: px_slice_def)

lemma splice_Nil [simp]: "splice xs k [] = xs"
  by (simp add: splice_def)

lemma length_splice: "k + length ys \<le> length xs \<Longrightarrow> length (splice xs k ys) = length xs"
  by (simp add: splice_def)

lemma nth_splice:
  "k + length ys \<le> length xs \<Longrightarrow> i < length xs \<Longrightarrow>
   splice xs k ys ! i = (if k \<le> i \<and> i < k + length ys then ys ! (i - k) else xs ! i)"
  by (auto simp: splice_def nth_append)

text \<open>Replacing bytes inside the user range replaces them in the list.\<close>

lemma user_store:
  assumes u: "user_rel m t (px_base px) (px_mem px)" and v: "px_valid px p n"
    and bs: "length bs \<le> unat n" and h: "holds m' p bs"
    and fr: "\<And>q. \<not> in_range q p (of_nat (length bs)) \<Longrightarrow> m' q = m q"
  shows "user_rel m' t (px_base px) (splice (px_mem px) (px_off px p) bs)"
proof (cases "bs = []")
  case True
  with fr have "m' = m" by (auto simp: fun_eq_iff)
  with u True show ?thesis by simp
next
  case False
  then have n0: "n \<noteq> 0" using bs by auto
  note s = user_split [OF u v n0]
  let ?k = "px_off px p" and ?B = "px_base px"
  from u have ub: "unat ?B + length (px_mem px) < 2 ^ 64" "holds m ?B (px_mem px)"
    by (auto simp: user_rel_def)
  have kb: "?k + length bs \<le> length (px_mem px)" using s(1) bs by simp
  have len64: "unat (of_nat (length bs) :: u64) = length bs"
    using kb ub(1) by (intro unat_of_nat64) simp
  have "holds m' ?B (splice (px_mem px) ?k bs)"
    unfolding holds_iff length_splice [OF kb]
  proof (intro allI impI)
    fix i assume i: "i < length (px_mem px)"
    show "m' (?B + of_nat i) = Some (splice (px_mem px) ?k bs ! i)"
    proof (cases "?k \<le> i \<and> i < ?k + length bs")
      case True
      then have "(of_nat i :: u64) = of_nat ?k + of_nat (i - ?k)"
        by (metis of_nat_add le_add_diff_inverse)
      then have "?B + of_nat i = p + of_nat (i - ?k)" by (subst s(2)) (simp add: add.assoc)
      moreover have "m' (p + of_nat (i - ?k)) = Some (bs ! (i - ?k))"
        using True by (intro holds_nth [OF h]) linarith
      ultimately show ?thesis using True nth_splice [OF kb i] by (simp only: if_True simp_thms)
    next
      case False
      have "\<not> in_range (?B + of_nat i) p (of_nat (length bs))"
      proof
        assume "in_range (?B + of_nat i) p (of_nat (length bs))"
        moreover have "?B + of_nat i - p = of_nat i - of_nat ?k" by (subst s(2)) simp
        ultimately have d: "unat (of_nat i - of_nat ?k :: u64) < length bs"
          by (simp only: in_range_def word_less_nat_alt len64)
        have "unat ((of_nat i - of_nat ?k) + of_nat ?k :: u64) =
            unat (of_nat i - of_nat ?k :: u64) + ?k"
          using d kb ub(1) unat_of_nat64 [of ?k]
            unat_plus_no_overflow [of "of_nat i - of_nat ?k" "of_nat ?k"] by simp
        then have "i = unat (of_nat i - of_nat ?k :: u64) + ?k"
          using i ub(1) unat_of_nat64 [of i] by simp
        with d False show False by simp
      qed
      with fr holds_nth [OF ub(2) i] nth_splice [OF kb i] False show ?thesis by auto
    qed
  qed
  with u length_splice [OF kb] show ?thesis by (auto simp: user_rel_def)
qed

end
