(* ===== verification/KDispatch.thy ===== *)
theory KDispatch
  imports Posix
begin

section \<open>The dispatcher implements the abstract interface\<close>

text \<open>
  One lemma per system call, each of the form \<open>follows\<close>: the handler is defined, returns what the
  abstract call returns, ends in a state that represents the abstract result and changes nothing
  outside the process. They are collected by \<open>dispatch_refines\<close>, and the interpretation of the
  locale \<open>simulation\<close> at the end extends it to every sequence of calls.
\<close>

definition follows ::
  "uart \<Rightarrow> u8 list \<Rightarrow> entry list \<Rightarrow> machine \<Rightarrow> ktask \<Rightarrow> syscall_outcome \<Rightarrow> posix \<times> ksyscall_result \<Rightarrow> bool" where
  "follows u0 pre files M t res out \<longleftrightarrow>
     (\<exists>t' M'. res = Some (snd out, Some t', M') \<and> represents u0 pre files M' t' (fst out) \<and>
        kernel_frame M t M' t')"

lemma followsI:
  "res = Some (r, Some t', M') \<Longrightarrow> represents u0 pre files M' t' px' \<Longrightarrow> kernel_frame M t M' t' \<Longrightarrow>
   follows u0 pre files M t res (px', r)"
  by (auto simp: follows_def)

lemma kernel_frame_refl [simp]: "kernel_frame M t M t"
  by (cases t) (simp add: kernel_frame_def)

lemma follows_same:
  "represents u0 pre files M t px \<Longrightarrow> follows u0 pre files M t (Some (r, Some t, M)) (px, r)"
  by (rule followsI [OF refl]) simp_all

subsection \<open>What the relation says\<close>

lemma representsD:
  assumes "represents u0 pre files M t px"
  shows "t_pid t = px_pid px" "user_rel (m_mem M) t (px_base px) (px_mem px)" "files_rel files M t"
    "px_files px = fs_map files" "fds_rel M t (px_fds px)" "sink_rel u0 pre (m_dev M) t (px_out px)"
  using assms by (auto simp: represents_def)

lemma isolated_frame:
  assumes "isolated fs m t node pth content"
    and "\<And>q. \<not> in_range q (t_user_base t) (t_user_len t) \<Longrightarrow> m' q = m q"
    and t': "t_user_base t' = t_user_base t" "t_user_len t' = t_user_len t"
  shows "isolated fs m' t' node pth content"
proof -
  from assms(1) obtain nd where nd: "node_at fs node = Some nd" "cstring_at m (node_path nd) pth"
    "node_size nd = of_nat (length content)" "length content < 2 ^ 64" "holds m (node_data nd) content"
    and v: "valid_node fs node"
    and dj: "disjoint_ranges (t_user_base t) (t_user_len t) (node_path nd) (of_nat (length pth + 1))"
      "disjoint_ranges (t_user_base t) (t_user_len t) (node_data nd) (node_size nd)"
    by (auto simp: isolated_def node_rep_def)
  have lp: "length pth + 1 < 2 ^ 64" using nd(2) by (simp add: cstring_at_def)
  have "cstring_at m' (node_path nd) pth"
    using disjoint_frame [OF dj(1) lp] assms(2) by (intro cstring_frame [OF nd(2)]) blast
  moreover have "holds m' (node_data nd) content"
    using disjoint_frame [OF dj(2) [unfolded nd(3)] nd(4)] assms(2)
    by (intro holds_frame [OF nd(5)]) blast
  ultimately show ?thesis using nd v dj by (auto simp: isolated_def node_rep_def t')
qed

lemma represents_store:
  assumes rep: "represents u0 pre files M t px"
    and v: "px_valid px p n" and len: "length bs \<le> unat n" and h: "holds m' p bs"
    and fr: "\<And>q. \<not> in_range q p (of_nat (length bs)) \<Longrightarrow> m' q = m_mem M q"
    and dm: "dom m' = dom (m_mem M)"
  shows "represents u0 pre files (M\<lparr>m_mem := m'\<rparr>) t (px_store p bs px)"
    and "kernel_frame M t (M\<lparr>m_mem := m'\<rparr>) t"
proof -
  note u = representsD(2) [OF rep]
  have out: "m' q = m_mem M q" if "\<not> in_range q (t_user_base t) (t_user_len t)" for q
  proof (rule fr)
    show "\<not> in_range q p (of_nat (length bs))"
    proof
      assume "in_range q p (of_nat (length bs))"
      moreover have "of_nat (length bs) \<le> n"
        using len unat_lt_64 [of n] by (simp add: word_le_nat_alt unat_of_nat64)
      ultimately have "in_range q p n" by (rule in_range_mono)
      with user_range [OF u v] that show False by blast
    qed
  qed
  then show "kernel_frame M t (M\<lparr>m_mem := m'\<rparr>) t" using dm by (simp add: kernel_frame_def)
  have iso: "isolated fs m' t node pth c" if "isolated fs (m_mem M) t node pth c" for fs node pth c
    using that out by (rule isolated_frame) simp_all
  have "files_rel files (M\<lparr>m_mem := m'\<rparr>) t"
    using representsD(3) [OF rep] iso
    unfolding files_rel_def fs_rep_def entry_rep_def isolated_def
    by (auto split: option.splits if_splits prod.splits)
  moreover have "fds_rel (M\<lparr>m_mem := m'\<rparr>) t (px_fds px)"
    using representsD(5) [OF rep] iso
    unfolding fds_rel_def open_file_def by (fastforce split: option.splits)
  moreover have "user_rel m' t (px_base px) (splice (px_mem px) (px_off px p) bs)"
    using u v len h fr by (rule user_store)
  ultimately show "represents u0 pre files (M\<lparr>m_mem := m'\<rparr>) t (px_store p bs px)"
    using rep by (simp add: represents_def px_store_def)
qed

subsection \<open>File descriptors\<close>

lemma fds_rel_bound: "fds_rel M t fds \<Longrightarrow> fds i \<noteq> None \<Longrightarrow> 3 \<le> i \<and> i < 8"
  unfolding fds_rel_def by (metis atLeastLessThan_iff domIff subsetD)

lemma get_file_in: "length (t_files t) = 8 \<Longrightarrow> unat fd < 8 \<Longrightarrow> get_file t fd = Some (t_files t ! unat fd)"
  by (simp add: get_file_def)

lemma open_file_used: "open_file M t f e \<Longrightarrow> f_used f \<longleftrightarrow> e \<noteq> None"
  by (auto simp: open_file_def split: option.splits)

lemma fds_rel_file:
  assumes "fds_rel M t fds" "unat fd < 8"
  shows "get_file t fd = Some (t_files t ! unat fd)" "open_file M t (t_files t ! unat fd) (fds (unat fd))"
    "f_used (t_files t ! unat fd) \<longleftrightarrow> fds (unat fd) \<noteq> None"
proof -
  show "get_file t fd = Some (t_files t ! unat fd)" using assms by (simp add: fds_rel_def get_file_def)
  show o: "open_file M t (t_files t ! unat fd) (fds (unat fd))" using assms by (simp add: fds_rel_def)
  show "f_used (t_files t ! unat fd) \<longleftrightarrow> fds (unat fd) \<noteq> None" by (rule open_file_used [OF o])
qed

lemma bad_file_fd_spec:
  assumes "fds_rel M t fds"
  shows "bad_file_fd (Some t) fd = Some (fds (unat fd) = None)"
proof (cases "3 \<le> unat fd \<and> unat fd < 8")
  case True
  with fds_rel_file(1,3) [OF assms, of fd] show ?thesis
    by (simp add: bad_file_fd_def struct_defs word_less_nat_alt word_le_nat_alt del: not_None_eq)
next
  case False
  then have "fds (unat fd) = None" using fds_rel_bound [OF assms] by blast
  with False show ?thesis
    by (auto simp: bad_file_fd_def struct_defs word_less_nat_alt word_le_nat_alt)
qed

lemma fds_rel_put:
  assumes "fds_rel M t fds" "3 \<le> unat fd" "unat fd < 8"
    and "open_file M t f e"
  shows "fds_rel M (put_file t fd f) (fds(unat fd := e))"
proof -
  have same: "open_file M (put_file t fd f) g d = open_file M t g d" for g d
    by (auto simp: open_file_def put_file_def isolated_def split: option.splits)
  have "dom (fds(unat fd := e)) \<subseteq> {3..<8}" using assms(1,2,3) by (auto simp: fds_rel_def)
  moreover have "open_file M t ((t_files t)[unat fd := f] ! i) ((fds(unat fd := e)) i)" if "i < 8" for i
    using assms that by (cases "i = unat fd") (auto simp: fds_rel_def)
  ultimately show ?thesis using assms(1) unfolding fds_rel_def same
    by (simp add: put_file_def)
qed

lemma represents_put_file:
  assumes rep: "represents u0 pre files M t px" "3 \<le> unat fd" "unat fd < 8" "open_file M t f e"
  shows "represents u0 pre files M (put_file t fd f) (px\<lparr>px_fds := (px_fds px)(unat fd := e)\<rparr>)"
proof -
  have "files_rel files M (put_file t fd f)" using representsD(3) [OF rep(1)]
    by (simp add: files_rel_def isolated_def put_file_def)
  moreover have "user_rel m (put_file t fd f) b um = user_rel m t b um"
    "sink_rel u0 pre d (put_file t fd f) w = sink_rel u0 pre d t w" for m b um d w
    by (simp_all add: put_file_def user_rel_def sink_rel_def)
  ultimately show ?thesis using rep(1) fds_rel_put [OF representsD(5) [OF rep(1)] rep(2,3,4)]
    by (simp add: represents_def) (simp add: put_file_def)
qed

lemma kernel_frame_put: "kernel_frame M t M' t \<Longrightarrow> kernel_frame M t M' (put_file t fd f)"
  by (simp add: kernel_frame_def put_file_def)

subsection \<open>Closing and reading\<close>

lemma close_follows:
  assumes rep: "represents u0 pre files M t px"
  shows "follows u0 pre files M t (sys_close M (Some t) fd) (px_close px fd)"
proof (cases "px_fds px (unat fd) = None")
  case True
  then show ?thesis
    using follows_same [OF rep] bad_file_fd_spec [OF representsD(5) [OF rep], of fd]
    by (simp add: sys_close_def px_close_def)
next
  case False
  have b: "3 \<le> unat fd" "unat fd < 8" using fds_rel_bound [OF representsD(5) [OF rep] False] by auto
  have "represents u0 pre files M (put_file t fd 0) (px\<lparr>px_fds := (px_fds px)(unat fd := None)\<rparr>)"
    by (rule represents_put_file [OF rep b]) (simp add: open_file_def)
  moreover have "sys_close M (Some t) fd = Some (px_ok 0, Some (put_file t fd 0), M)"
    using False bad_file_fd_spec [OF representsD(5) [OF rep], of fd]
    by (simp add: sys_close_def del: not_None_eq)
  ultimately show ?thesis
    using False by (auto simp: px_close_def intro!: followsI kernel_frame_put)
qed

lemma read_follows:
  assumes rep: "represents u0 pre files M t px"
  shows "follows u0 pre files M t (sys_read M (Some t) fd p n) (px_read px fd p n)"
proof (cases "px_fds px (unat fd)")
  case None
  then show ?thesis
    using follows_same [OF rep] bad_file_fd_spec [OF representsD(5) [OF rep], of fd]
    by (simp add: sys_read_def px_read_def)
next
  case (Some e)
  obtain content off where e: "e = (content, off)" by (cases e)
  note u = representsD(2) [OF rep] and fr = representsD(5) [OF rep]
  have b: "3 \<le> unat fd" "unat fd < 8" using fds_rel_bound [OF fr, of "unat fd"] Some by auto
  let ?f = "t_files t ! unat fd"
  have gf: "get_file t fd = Some ?f" by (rule fds_rel_file(1) [OF fr b(2)])
  have "open_file M t ?f (Some (content, off))" using fds_rel_file(2) [OF fr b(2)] Some e by simp
  then obtain pth where iso: "isolated (m_fs M) (m_mem M) t (f_node ?f) pth content"
    and us: "f_used ?f" and off: "unat (f_offset ?f) = off" "off \<le> length content"
    by (auto simp: open_file_def)
  have bad: "bad_file_fd (Some t) fd = Some False" using bad_file_fd_spec [OF fr, of fd] Some by simp
  show ?thesis
  proof (cases "px_valid px p n")
    case False
    with bad Some e follows_same [OF rep] show ?thesis
      by (simp add: sys_read_def px_read_def user_valid [OF u])
  next
    case True
    let ?bs = "slice content (f_offset ?f) n"
    have bs: "?bs = take (unat n) (drop off content)" by (simp add: slice_def off)
    obtain nd where nd: "node_at (m_fs M) (f_node ?f) = Some nd"
      and nr: "node_rep (m_fs M) (m_mem M) (f_node ?f) pth content"
      and cl: "length content < 2 ^ 64"
      and dj: "disjoint_ranges (t_user_base t) (t_user_len t) (node_data nd) (node_size nd)"
      using iso by (auto simp: isolated_def node_rep_def)
    have "disjoint_ranges p n (node_data nd) (node_size nd)"
      using dj user_range [OF u True] by (auto simp: disjoint_ranges_def)
    from kfs_read_node_exact [OF nr nd user_nonnull [OF u True] user_mapped_sub [OF u True] this]
    obtain m' where m': "kfs_read_node (m_fs M) (f_node ?f) (f_offset ?f) p n (m_mem M) =
        Some (of_nat (length ?bs), m')" "holds m' p ?bs" "dom m' = dom (m_mem M)"
      "\<And>q. \<not> in_range q p (of_nat (length ?bs)) \<Longrightarrow> m' q = m_mem M q" by blast
    have lb: "length ?bs \<le> unat n" by (simp add: slice_def)
    note st = represents_store [OF rep True lb m'(2,4,3)]
    let ?f' = "?f\<lparr>f_offset := f_offset ?f + of_nat (length ?bs)\<rparr>"
    have lo: "off + length ?bs \<le> length content" using off by (simp add: bs)
    have "unat (f_offset ?f + of_nat (length ?bs)) = off + length ?bs"
      using lo cl off unat_of_nat64 [of "length ?bs"]
        unat_plus_no_overflow [of "f_offset ?f" "of_nat (length ?bs)"] by simp
    moreover have "isolated (m_fs M) m' t (f_node ?f) pth content"
      using iso st(2) by (intro isolated_frame [OF iso]) (simp_all add: kernel_frame_def)
    ultimately have "open_file (M\<lparr>m_mem := m'\<rparr>) t ?f' (Some (content, off + length ?bs))"
      using lo us by (auto simp: open_file_def)
    from represents_put_file [OF st(1) b this] st(2) m'(1) bad gf Some e True
    show ?thesis
      unfolding px_read_def sys_read_def
      by (auto simp: user_valid [OF u] bs Let_def px_store_def intro!: followsI kernel_frame_put)
  qed
qed

subsection \<open>Writing\<close>

lemma callback_put_range:
  assumes "holds m p bs" "length bs < 2 ^ 64"
  shows "\<exists>d'. for_range 0 (of_nat (length bs))
      (\<lambda>i d. Option.bind (load (p + i) m) (\<lambda>b. call_write_byte fn ctx b d)) d = Some d' \<and>
    callback_sent fn ctx d' = callback_sent fn ctx d @ bs"
  using callback.put_range [OF assms, where w = d and fn = fn and ctx = ctx] by simp

lemma write_device:
  assumes s: "sink_rel u0 pre d t out" and h: "holds m p bs" "length bs < 2 ^ 64"
  shows "\<exists>d'. for_range 0 (of_nat (length bs)) (\<lambda>i d. Option.bind (load (p + i) m)
      (\<lambda>b. (if t_write_byte t \<noteq> 0 then call_write_byte (t_write_byte t) else default_write_byte)
             (t_write_ctx t) b d)) d = Some d' \<and>
    sink_rel u0 pre d' t (out @ bs)"
proof (cases "t_write_byte t = 0")
  case True
  with s have r: "uart_ready u0 d" "uart_sent u0 d = pre @ concat (map crlf out)"
    by (simp_all add: sink_rel_def)
  obtain d' where d': "for_range 0 (of_nat (length bs))
      (\<lambda>i d. Option.bind (load (p + i) m) (\<lambda>b. klog_putc b d)) d = Some d'"
    "uart_ready u0 d'" "uart_sent u0 d' = uart_sent u0 d @ concat (map crlf bs)"
    using klog.put_range [OF h r(1)] by blast
  from True have eq: "(if t_write_byte t \<noteq> 0 then call_write_byte (t_write_byte t) else default_write_byte)
      (t_write_ctx t) = klog_putc" by (simp add: fun_eq_iff default_write_byte_def)
  show ?thesis unfolding eq using d' r True by (simp add: sink_rel_def)
next
  case False
  from callback_put_range [OF h, where fn = "t_write_byte t" and ctx = "t_write_ctx t" and d = d]
  show ?thesis using s False by (auto simp: sink_rel_def)
qed

lemma open_file_dev: "open_file (M\<lparr>m_dev := d\<rparr>) t f e = open_file M t f e"
  by (cases e) (auto simp: open_file_def)

lemma write_follows:
  assumes rep: "represents u0 pre files M t px"
  shows "follows u0 pre files M t (sys_write M (Some t) fd p n) (px_write px fd p n)"
proof (cases "(fd \<noteq> 1 \<and> fd \<noteq> 2) \<or> \<not> px_valid px p n")
  case True
  with follows_same [OF rep] show ?thesis
    by (auto simp: sys_write_def px_write_def struct_defs user_valid [OF representsD(2) [OF rep]])
next
  case False
  note u = representsD(2) [OF rep]
  let ?bs = "px_slice px p n"
  from False have v: "px_valid px p n" by simp
  have len: "length ?bs = unat n"
    using user_split(3) [OF u v] by (cases "n = 0") (simp_all add: px_slice_def)
  then have n: "of_nat (length ?bs) = n" and l64: "length ?bs < 2 ^ 64"
    using unat_lt_64 [of n] by simp_all
  obtain d' where d': "for_range 0 n (\<lambda>i d. Option.bind (load (p + i) (m_mem M))
      (\<lambda>b. (if t_write_byte t \<noteq> 0 then call_write_byte (t_write_byte t) else default_write_byte)
             (t_write_ctx t) b d)) (m_dev M) = Some d'" "sink_rel u0 pre d' t (px_out px @ ?bs)"
    using write_device [OF representsD(6) [OF rep] user_slice [OF u v] l64] unfolding n by blast
  have "represents u0 pre files (M\<lparr>m_dev := d'\<rparr>) t (px\<lparr>px_out := px_out px @ ?bs\<rparr>)"
    using rep d'(2) by (simp add: represents_def files_rel_def fds_rel_def open_file_dev)
  moreover have "kernel_frame M t (M\<lparr>m_dev := d'\<rparr>) t" by (cases t) (simp add: kernel_frame_def)
  moreover have "sys_write M (Some t) fd p n = Some (px_ok n, Some t, M\<lparr>m_dev := d'\<rparr>)"
  proof -
    from False have "(fd \<noteq> 1 \<and> fd \<noteq> 2) = False" by blast
    with v d'(1) show ?thesis
      unfolding sys_write_def by (simp add: struct_defs user_valid [OF u] Let_def del: de_Morgan_conj)
  qed
  ultimately show ?thesis using False by (auto simp: px_write_def intro!: followsI)
qed

subsection \<open>Opening\<close>

lemma lookup_user:
  assumes rep: "represents u0 pre files M t px" and v: "px_valid px p n"
  shows "case px_resolve px p n of
      None \<Rightarrow> kfs_lookup (m_fs M) p n (m_mem M) = Some 0
    | Some content \<Rightarrow> \<exists>node pth. kfs_lookup (m_fs M) p n (m_mem M) = Some node \<and> node \<noteq> 0 \<and>
        isolated (m_fs M) (m_mem M) t node pth content \<and>
        (\<exists>i < length files. files ! i = Some (pth, content) \<and> node = node_ptr (m_fs M) i)"
proof (cases "n = 0")
  case True
  then show ?thesis by (simp add: px_resolve_def kfs_lookup_def)
next
  case False
  note u = representsD(2) [OF rep]
  let ?name = "px_slice px p n"
  have len: "length ?name = unat n" by (rule user_split(3) [OF u v False])
  then have n: "of_nat (length ?name) = n" and l64: "length ?name < 2 ^ 64"
    using unat_lt_64 [of n] by simp_all
  have fr: "fs_rep (m_fs M) (m_mem M) files" using representsD(3) [OF rep] by (simp add: files_rel_def)
  have "?name \<noteq> []" using len False by (auto simp: unat_eq_0)
  then have lk: "kfs_lookup (m_fs M) p n (m_mem M) =
      Some (case find_entry files ?name of None \<Rightarrow> 0 | Some i \<Rightarrow> node_ptr (m_fs M) i)"
    using kfs_lookup_spec [OF fr user_slice [OF u v] user_nonnull [OF u v False] l64] unfolding n by blast
  show ?thesis
  proof (cases "find_entry files ?name")
    case None
    with lk find_entry_NoneD [OF None] representsD(4) [OF rep] False show ?thesis
      by (simp add: px_resolve_def)
  next
    case (Some i)
    from find_entry_SomeD [OF Some] obtain c where i: "i < length files" "files ! i = Some (?name, c)"
      "fs_map files ?name = Some c" by blast
    then have iso: "isolated (m_fs M) (m_mem M) t (node_ptr (m_fs M) i) ?name c"
      using representsD(3) [OF rep] by (auto simp: files_rel_def)
    then have "node_ptr (m_fs M) i \<noteq> 0" by (auto simp: isolated_def node_rep_def elim: valid_nodeD)
    with iso lk Some i representsD(4) [OF rep] False show ?thesis
      by (simp add: px_resolve_def) blast
  qed
qed

lemma first_hit_map_option:
  "first_hit (\<lambda>k. map_option f (g k)) i n = map_option f (first_hit g i n)"
proof -
  have "(\<lambda>k. map_option f (g k) \<noteq> None) = (\<lambda>k. g k \<noteq> None)" by (simp add: fun_eq_iff)
  then show ?thesis unfolding first_hit_def by (auto simp only: split: option.split)
qed

lemma open_slot:
  assumes "fds_rel M t fds"
  shows "for_find KSYSCALL_FD_FIRST_FILE KTASK_MAX_FILES
      (\<lambda>fd. Option.bind (get_file t fd) (\<lambda>f. Some (if \<not> f_used f then Some fd else None))) =
    Some (map_option of_nat (px_free_fd fds))"
proof -
  let ?g = "\<lambda>k. map_option of_nat (if fds k = None then Some k else None) :: u64 option"
  let ?body = "\<lambda>fd. Option.bind (get_file t fd) (\<lambda>f. Some (if \<not> f_used f then Some fd else None))"
  have "for_find KSYSCALL_FD_FIRST_FILE KTASK_MAX_FILES ?body =
      Some (first_hit ?g (unat KSYSCALL_FD_FIRST_FILE) (unat KTASK_MAX_FILES))"
  proof (rule for_find_first_hit)
    fix k assume "k < unat KTASK_MAX_FILES"
    then have k: "k < 8" by (simp add: struct_defs)
    then have "unat (of_nat k :: u64) = k" by (intro unat_of_nat64) simp
    with k fds_rel_file(1,3) [OF assms, of "of_nat k"] show "?body (of_nat k) = Some (?g k)"
      by (simp del: not_None_eq)
  qed
  then show ?thesis by (simp add: first_hit_map_option px_free_fd_def struct_defs)
qed

lemma px_free_fd_bound:
  assumes "px_free_fd fds = Some fd"
  shows "3 \<le> fd \<and> fd < 8 \<and> fds fd = None \<and> (\<forall>j. 3 \<le> j \<and> j < fd \<longrightarrow> fds j \<noteq> None)"
  using first_hit_SomeD [OF assms [unfolded px_free_fd_def]] by (auto split: if_splits)

lemma open_follows:
  assumes rep: "represents u0 pre files M t px"
  shows "follows u0 pre files M t (sys_open M (Some t) p n) (px_open px p n)"
proof (cases "px_valid px p n")
  case False
  with follows_same [OF rep] show ?thesis
    by (simp add: sys_open_def px_open_def user_valid [OF representsD(2) [OF rep]])
next
  case True
  note uv = user_valid [OF representsD(2) [OF rep], of p n]
  show ?thesis
  proof (cases "px_resolve px p n")
    case None
    with lookup_user [OF rep True] True uv follows_same [OF rep] show ?thesis
      by (simp add: sys_open_def px_open_def)
  next
    case (Some content)
    then obtain node pth where node: "kfs_lookup (m_fs M) p n (m_mem M) = Some node" "node \<noteq> 0"
      "isolated (m_fs M) (m_mem M) t node pth content" using lookup_user [OF rep True] by auto
    note slot = open_slot [OF representsD(5) [OF rep]]
    show ?thesis
    proof (cases "px_free_fd (px_fds px)")
      case None
      with slot node Some True uv follows_same [OF rep] show ?thesis
        by (simp add: sys_open_def px_open_def)
    next
      case fd: (Some fd)
      let ?f = "\<lparr>f_node = node, f_offset = 0, f_used = True\<rparr>"
      note b = px_free_fd_bound [OF fd]
      then have u: "unat (of_nat fd :: u64) = fd" by (intro unat_of_nat64) simp
      have "open_file M t ?f (Some (content, 0))" using node(3) by (auto simp: open_file_def)
      then have "represents u0 pre files M (put_file t (of_nat fd) ?f)
          (px\<lparr>px_fds := (px_fds px)(fd \<mapsto> (content, 0))\<rparr>)"
        using represents_put_file [OF rep, of "of_nat fd" ?f "Some (content, 0)"] b u by simp
      moreover have "sys_open M (Some t) p n = Some (px_ok (of_nat fd), Some (put_file t (of_nat fd) ?f), M)"
        unfolding sys_open_def using True uv node slot fd by simp
      ultimately show ?thesis using True Some fd
        by (auto simp: px_open_def intro!: followsI kernel_frame_put)
    qed
  qed
qed

subsection \<open>Status\<close>

lemma stat_follows:
  assumes rep: "represents u0 pre files M t px"
  shows "follows u0 pre files M t (sys_stat M (Some t) p n sp) (px_stat px p n sp)"
proof (cases "px_valid px p n \<and> px_valid px sp sizeof_kfs_stat")
  case False
  with follows_same [OF rep] show ?thesis
    by (auto simp: sys_stat_def px_stat_def user_valid [OF representsD(2) [OF rep]])
next
  case True
  note u = representsD(2) [OF rep]
  note uv = user_valid [OF u]
  from True have v: "px_valid px p n" "px_valid px sp sizeof_kfs_stat" by simp_all
  show ?thesis
  proof (cases "px_resolve px p n")
    case None
    with lookup_user [OF rep v(1)] v uv follows_same [OF rep] show ?thesis
      by (simp add: sys_stat_def px_stat_def)
  next
    case (Some content)
    then obtain node pth where node: "kfs_lookup (m_fs M) p n (m_mem M) = Some node" "node \<noteq> 0"
      "isolated (m_fs M) (m_mem M) t node pth content" using lookup_user [OF rep v(1)] by auto
    then obtain nd where nd: "node_at (m_fs M) node = Some nd" "valid_node (m_fs M) node"
      "node_size nd = of_nat (length content)" by (auto simp: isolated_def node_rep_def)
    then have md: "node_mode nd = KFS_MODE_FILE" by (auto elim: valid_nodeD)
    let ?bs = "stat_bytes \<lparr>st_size = of_nat (length content), st_mode = KFS_MODE_FILE, st_is_file = True\<rparr>"
    have sz: "sizeof_kfs_stat \<noteq> 0" "length ?bs \<le> unat sizeof_kfs_stat"
      by (simp_all add: sizeof_kfs_stat_def)
    have "sp \<noteq> 0" by (rule user_nonnull [OF u v(2) sz(1)])
    have "in_range q sp sizeof_kfs_stat" if "in_range q sp (of_nat (length ?bs))" for q
      using in_range_mono [OF that, of sizeof_kfs_stat] by (simp add: sizeof_kfs_stat_def)
    then have "mapped sp (of_nat (length ?bs)) (m_mem M)"
      using user_mapped_sub [OF u v(2)] by (auto intro: mapped_mono)
    from store_bytes_holds [OF this] obtain m' where m': "store_bytes sp ?bs (m_mem M) = Some m'"
      "holds m' sp ?bs" "dom m' = dom (m_mem M)"
      "\<And>q. \<not> in_range q sp (of_nat (length ?bs)) \<Longrightarrow> m' q = m_mem M q" by auto
    have "kfs_stat_node (m_fs M) node sp (m_mem M) = Some (KFS_OK, m')"
      using nd md \<open>sp \<noteq> 0\<close> m'(1) by (simp add: kfs_stat_node_def valid_node_def store_kfs_stat_bytes)
    with node(1,2) v uv represents_store [OF rep v(2) sz(2) m'(2,4,3)] Some show ?thesis
      by (auto simp: sys_stat_def px_stat_def intro!: followsI)
  qed
qed

subsection \<open>Every call\<close>

lemma getpid_follows:
  assumes rep: "represents u0 pre files M t px"
  shows "follows u0 pre files M t (sys_getpid M (Some t))
    (px, if px_pid px = 0 then px_err KSYSCALL_EINVAL else px_ok (ucast (px_pid px)))"
  using follows_same [OF rep] representsD(1) [OF rep] by (simp add: sys_getpid_def)

lemma dispatch_follows:
  assumes rep: "represents u0 pre files M t px"
  shows "follows u0 pre files M t (ksyscall_dispatch M (Some t) (Some r)) (posix_call px r)"
proof (cases "ksyscall_number_of (ucast (r_nr r))")
  case None
  with follows_same [OF rep] show ?thesis by (simp add: ksyscall_dispatch_def posix_call_def)
next
  case (Some nr)
  show ?thesis
    using Some follows_same [OF rep] read_follows [OF rep] write_follows [OF rep] open_follows [OF rep]
      close_follows [OF rep] stat_follows [OF rep] getpid_follows [OF rep]
    by (cases nr) (simp_all add: ksyscall_dispatch_def posix_call_def sys_exit_def)
qed

text \<open>A dispatch as a step of the machine and its one task. The states are those whose task
  pointer is not NULL.\<close>

definition dispatch_step ::
  "machine \<times> ktask \<Rightarrow> ksyscall_regs \<Rightarrow> ((machine \<times> ktask) \<times> ksyscall_result) option" where
  "dispatch_step s r =
     (case ksyscall_dispatch (fst s) (Some (snd s)) (Some r) of
        Some (res, Some t', M') \<Rightarrow> Some ((M', t'), res)
      | _ \<Rightarrow> None)"

definition step_rel :: "uart \<Rightarrow> u8 list \<Rightarrow> entry list \<Rightarrow> machine \<times> ktask \<Rightarrow> posix \<Rightarrow> bool" where
  "step_rel u0 pre files s px \<longleftrightarrow> represents u0 pre files (fst s) (snd s) px"

interpretation syscalls: simulation dispatch_step posix_call "step_rel u0 pre files" for u0 pre files
proof
  fix s a i assume "step_rel u0 pre files s a"
  then have "follows u0 pre files (fst s) (snd s) (ksyscall_dispatch (fst s) (Some (snd s)) (Some i))
      (posix_call a i)" unfolding step_rel_def by (rule dispatch_follows)
  then show "\<exists>t. dispatch_step s i = Some (t, snd (posix_call a i)) \<and>
      step_rel u0 pre files t (fst (posix_call a i))"
    by (auto simp: follows_def dispatch_step_def step_rel_def)
qed

text \<open>The frame composes along a run.\<close>

lemma kernel_frame_trans:
  "kernel_frame M t M' t' \<Longrightarrow> kernel_frame M' t' M'' t'' \<Longrightarrow> kernel_frame M t M'' t''"
  by (cases t; cases t'; cases t'') (auto simp: kernel_frame_def)

lemma dispatch_step_frame:
  assumes "\<exists>px. step_rel u0 pre files s px" and "map_option fst (dispatch_step s r) = Some s'"
  shows "kernel_frame (fst s) (snd s) (fst s') (snd s')"
proof -
  from assms(1) obtain px where "represents u0 pre files (fst s) (snd s) px"
    by (auto simp: step_rel_def)
  from dispatch_follows [OF this, of r] assms(2) show ?thesis
    by (auto simp: follows_def dispatch_step_def)
qed

text \<open>The same system with the frame as part of what is preserved, from a fixed start.\<close>

definition framed :: "uart \<Rightarrow> u8 list \<Rightarrow> entry list \<Rightarrow> machine \<times> ktask \<Rightarrow> machine \<times> ktask \<Rightarrow> bool" where
  "framed u0 pre files s0 s \<longleftrightarrow>
     (\<exists>px. step_rel u0 pre files s px) \<and> kernel_frame (fst s0) (snd s0) (fst s) (snd s)"

interpretation contained: total_system "\<lambda>s r. map_option fst (dispatch_step s r)" "framed u0 pre files s0"
  for u0 pre files s0
proof
  fix s i t assume f: "framed u0 pre files s0 s" and t: "map_option fst (dispatch_step s i) = Some t"
  then have ex: "\<exists>px. step_rel u0 pre files s px" by (simp add: framed_def)
  from syscalls.step_inv [OF ex t] dispatch_step_frame [OF ex t] f show "framed u0 pre files s0 t"
    by (auto simp: framed_def intro: kernel_frame_trans)
next
  fix s i assume "framed u0 pre files s0 s"
  then have "\<exists>px. step_rel u0 pre files s px" by (simp add: framed_def)
  then show "\<exists>t. map_option fst (dispatch_step s i) = Some t" by (rule syscalls.step_total)
qed

text \<open>NULL pointers: no registers give \<open>EINVAL\<close>; without a task every call fails with the error
  of its first guard, except \<open>exit\<close>, and nothing changes.\<close>

definition null_task_result :: "ksyscall_regs \<Rightarrow> ksyscall_result" where
  "null_task_result r =
     (case ksyscall_number_of (ucast (r_nr r)) of
        Some KSYSCALL_WRITE \<Rightarrow>
          px_err (if r_arg0 r = 1 \<or> r_arg0 r = 2 then KSYSCALL_EFAULT else KSYSCALL_EBADF)
      | Some KSYSCALL_READ \<Rightarrow> px_err KSYSCALL_EBADF
      | Some KSYSCALL_CLOSE \<Rightarrow> px_err KSYSCALL_EBADF
      | Some KSYSCALL_OPEN \<Rightarrow> px_err KSYSCALL_EFAULT
      | Some KSYSCALL_STAT \<Rightarrow> px_err KSYSCALL_EFAULT
      | Some KSYSCALL_GETPID \<Rightarrow> px_err KSYSCALL_EINVAL
      | Some KSYSCALL_EXIT \<Rightarrow> \<lparr>sr_value = 0, sr_error = KSYSCALL_OK, sr_should_exit = True,
          sr_exit_status = ucast (r_arg0 r)\<rparr>
      | None \<Rightarrow> px_err KSYSCALL_ENOSYS)"

lemma dispatch_null_task:
  "ksyscall_dispatch M None (Some r) = Some (null_task_result r, None, M)"
  by (cases "ksyscall_number_of (ucast (r_nr r))")
     (auto simp: ksyscall_dispatch_def null_task_result_def sys_read_def sys_write_def sys_open_def
        sys_close_def sys_stat_def sys_getpid_def sys_exit_def task_contains_user_range_def bad_file_fd_def
        struct_defs split: ksyscall_number.splits)

end
