(* ===== verification/KEntry.thy ===== *)
theory KEntry
  imports KDispatch
begin

section \<open>The trap boundary (kernel/syscall_entry.c, kernel/include/kernel/syscall_entry.h)\<close>

text \<open>
  \<open>ksyscall_entry\<close> takes its registers from a trap frame, dispatches, and writes the result back
  into the frame. The lemmas state the register convention: which registers carry the number and
  the arguments, that \<open>rax\<close> carries the result, and that every other register the user program
  can see comes back unchanged.
\<close>

record ksyscall_trap_frame =
  fr_rax :: u64
  fr_rdi :: u64
  fr_rsi :: u64
  fr_rdx :: u64
  fr_r10 :: u64
  fr_r8 :: u64
  fr_r9 :: u64
  fr_rcx :: u64
  fr_r11 :: u64
  fr_user_rsp :: u64
  fr_result :: u64
  fr_error :: ksyscall_error
  fr_should_exit :: bool
  fr_exit_status :: u32

definition regs_of_frame :: "ksyscall_trap_frame \<Rightarrow> ksyscall_regs" where
  "regs_of_frame f = \<lparr>r_nr = fr_rax f, r_arg0 = fr_rdi f, r_arg1 = fr_rsi f, r_arg2 = fr_rdx f,
     r_arg3 = fr_r10 f, r_arg4 = fr_r8 f, r_arg5 = fr_r9 f\<rparr>"

definition ksyscall_entry ::
  "machine \<Rightarrow> ktask option \<Rightarrow> ksyscall_trap_frame option
   \<Rightarrow> (ktask option \<times> ksyscall_trap_frame option \<times> machine) option" where
  "ksyscall_entry M task frame =
     (case frame of
        None \<Rightarrow> Some (task, frame, M)
      | Some f \<Rightarrow> do {
          (result, task', M') \<leftarrow> ksyscall_dispatch M task (Some (regs_of_frame f));
          Some (task',
            Some (f\<lparr>fr_rax := sr_value result, fr_result := sr_value result, fr_error := sr_error result,
                    fr_should_exit := sr_should_exit result,
                    fr_exit_status := sr_exit_status result\<rparr>),
            M')
        })"

subsection \<open>The register convention\<close>

text \<open>What a frame carries back to the caller.\<close>

definition frame_result :: "ksyscall_trap_frame \<Rightarrow> ksyscall_result" where
  "frame_result f = \<lparr>sr_value = fr_result f, sr_error = fr_error f, sr_should_exit = fr_should_exit f,
     sr_exit_status = fr_exit_status f\<rparr>"

text \<open>The registers \<open>sysret\<close> needs and the ones the convention preserves.\<close>

definition preserved_registers :: "ksyscall_trap_frame \<Rightarrow> u64 list" where
  "preserved_registers f = [fr_rdi f, fr_rsi f, fr_rdx f, fr_r10 f, fr_r8 f, fr_r9 f, fr_rcx f, fr_r11 f,
     fr_user_rsp f]"

lemma entry_null: "ksyscall_entry M task None = Some (task, None, M)"
  by (simp add: ksyscall_entry_def)

lemma entry_dispatch:
  "ksyscall_entry M task (Some f) = Some (task', Some f', M') \<longleftrightarrow>
     ksyscall_dispatch M task (Some (regs_of_frame f)) = Some (frame_result f', task', M') \<and>
     fr_rax f' = fr_result f' \<and> preserved_registers f' = preserved_registers f"
  (is "?l \<longleftrightarrow> ?r")
proof
  assume ?l then show ?r
    by (auto simp: ksyscall_entry_def frame_result_def preserved_registers_def bind_Some_iff)
next
  assume ?r then show ?l
    by (cases f'; cases f)
       (auto simp: ksyscall_entry_def frame_result_def preserved_registers_def bind_Some_iff)
qed

definition trap_follows ::
  "uart \<Rightarrow> u8 list \<Rightarrow> entry list \<Rightarrow> machine \<Rightarrow> ktask \<Rightarrow> ksyscall_trap_frame \<Rightarrow> posix \<Rightarrow> bool" where
  "trap_follows u0 pre files M t f px \<longleftrightarrow>
     (\<exists>t' f' M'. ksyscall_entry M (Some t) (Some f) = Some (Some t', Some f', M') \<and>
        frame_result f' = snd (posix_call px (regs_of_frame f)) \<and> fr_rax f' = fr_result f' \<and>
        preserved_registers f' = preserved_registers f \<and>
        represents u0 pre files M' t' (fst (posix_call px (regs_of_frame f))) \<and>
        kernel_frame M t M' t')"

lemma entry_follows: "represents u0 pre files M t px \<Longrightarrow> trap_follows u0 pre files M t f px"
proof -
  assume "represents u0 pre files M t px"
  from dispatch_follows [OF this, of "regs_of_frame f"] obtain t' M' where
    d: "ksyscall_dispatch M (Some t) (Some (regs_of_frame f)) =
      Some (snd (posix_call px (regs_of_frame f)), Some t', M')"
    and rest: "represents u0 pre files M' t' (fst (posix_call px (regs_of_frame f)))"
      "kernel_frame M t M' t'" by (auto simp: follows_def)
  let ?r = "snd (posix_call px (regs_of_frame f))"
  let ?f = "f\<lparr>fr_rax := sr_value ?r, fr_result := sr_value ?r, fr_error := sr_error ?r,
    fr_should_exit := sr_should_exit ?r, fr_exit_status := sr_exit_status ?r\<rparr>"
  have "ksyscall_entry M (Some t) (Some f) = Some (Some t', Some ?f, M')"
    by (simp add: ksyscall_entry_def d)
  moreover have "frame_result ?f = ?r" by (simp add: frame_result_def)
  moreover have "preserved_registers ?f = preserved_registers f" by (simp add: preserved_registers_def)
  ultimately show ?thesis using rest unfolding trap_follows_def
    by (intro exI [of _ t'] exI [of _ ?f] exI [of _ M']) simp
qed

end
