(* ===== verification/KUser.thy ===== *)
theory KUser
  imports KEntry
begin

section \<open>User processes (kernel/user.c, kernel/include/kernel/user.h)\<close>

text \<open>
  A process owns 512 bytes of the byte memory, at the address \<open>p_memory\<close>; the other fields of
  \<open>struct kuser_process\<close> are a record. A program is a list of operations with its initial memory
  and its filesystem; the run loop interprets them through the trap boundary. \<open>int\<close> fields are
  32-bit words read with \<open>sint\<close>. \<^const>\<open>None\<close> is undefined behaviour.
\<close>

datatype kuser_error = KUSER_OK | KUSER_EFAULT | KUSER_ESYSCALL | KUSER_EBADFD | KUSER_EINVAL

datatype kuser_opcode =
    KUSER_OP_WRITE | KUSER_OP_OPEN | KUSER_OP_READ | KUSER_OP_CLOSE | KUSER_OP_STAT | KUSER_OP_EXIT

definition kuser_opcode_of :: "u32 \<Rightarrow> kuser_opcode option" where
  "kuser_opcode_of n =
     (if n = 1 then Some KUSER_OP_WRITE
      else if n = 2 then Some KUSER_OP_OPEN
      else if n = 3 then Some KUSER_OP_READ
      else if n = 4 then Some KUSER_OP_CLOSE
      else if n = 5 then Some KUSER_OP_STAT
      else if n = 6 then Some KUSER_OP_EXIT
      else None)"

fun kuser_opcode_code :: "kuser_opcode \<Rightarrow> u32" where
  "kuser_opcode_code KUSER_OP_WRITE = 1"
| "kuser_opcode_code KUSER_OP_OPEN = 2"
| "kuser_opcode_code KUSER_OP_READ = 3"
| "kuser_opcode_code KUSER_OP_CLOSE = 4"
| "kuser_opcode_code KUSER_OP_STAT = 5"
| "kuser_opcode_code KUSER_OP_EXIT = 6"

interpretation opcode: codec kuser_opcode_code "\<lambda>w. the (kuser_opcode_of w)" "\<lambda>_. True"
proof
  fix x show "the (kuser_opcode_of (kuser_opcode_code x)) = x"
    by (cases x) (simp_all add: kuser_opcode_of_def)
qed

definition KUSER_MEMORY_SIZE :: u32 where [struct_defs]: "KUSER_MEMORY_SIZE = 512"
definition KUSER_MAX_FD_SLOTS :: u32 where [struct_defs]: "KUSER_MAX_FD_SLOTS = 4"

record kuser_op =
  op_opcode :: u32
  op_fd_slot :: u32
  op_offset :: u32
  op_len :: u32
  op_aux_offset :: u32
  op_aux_len :: u32
  op_exit_status :: u32

record kuser_program =
  pr_initial_memory :: ptr
  pr_initial_memory_len :: usize
  pr_ops :: "kuser_op list option"
  pr_op_count :: usize
  pr_fs_nodes :: ptr
  pr_fs_node_count :: usize

record kuser_process =
  p_task :: ktask
  p_memory :: ptr
  p_fd_slots :: "u32 list"
  p_exited :: bool
  p_exit_status :: u32
  p_last_error :: kuser_error
  p_last_syscall_error :: ksyscall_error

subsection \<open>The operations\<close>

definition user_range_ok :: "u32 \<Rightarrow> u32 \<Rightarrow> bool" where
  "user_range_ok offset len \<longleftrightarrow> offset \<le> KUSER_MEMORY_SIZE \<and> len \<le> KUSER_MEMORY_SIZE - offset"

definition user_ptr :: "kuser_process \<Rightarrow> u32 \<Rightarrow> ptr" where
  "user_ptr p offset = p_memory p + ucast offset"

text \<open>\<open>kmemset(process, 0, sizeof(*process))\<close> clears the memory and zeroes every other field.\<close>

definition kuser_init_process ::
  "machine \<Rightarrow> kuser_process option \<Rightarrow> u32 \<Rightarrow> ptr \<Rightarrow> ptr \<Rightarrow> (kuser_process option \<times> machine) option" where
  "kuser_init_process M process pid write_byte write_ctx =
     (case process of
        None \<Rightarrow> Some (None, M)
      | Some p \<Rightarrow> do {
          (_, m') \<leftarrow> kmemset (p_memory p) 0 (ucast KUSER_MEMORY_SIZE) (m_mem M);
          Some (Some \<lparr>
              p_task = \<lparr>t_pid = pid, t_user_base = p_memory p, t_user_len = ucast KUSER_MEMORY_SIZE,
                        t_write_byte = write_byte, t_write_ctx = write_ctx,
                        t_files = replicate (unat KTASK_MAX_FILES) 0\<rparr>,
              p_memory = p_memory p,
              p_fd_slots = replicate (unat KUSER_MAX_FD_SLOTS) (- 1),
              p_exited = False, p_exit_status = 0,
              p_last_error = KUSER_OK, p_last_syscall_error = KSYSCALL_OK\<rparr>,
            M\<lparr>m_mem := m'\<rparr>)
        })"

definition run_frame ::
  "machine \<Rightarrow> kuser_process \<Rightarrow> ksyscall_trap_frame
   \<Rightarrow> (kuser_error \<times> ksyscall_trap_frame \<times> kuser_process \<times> machine) option" where
  "run_frame M p frame = do {
     (task, frame, M) \<leftarrow> ksyscall_entry M (Some (p_task p)) (Some frame);
     t \<leftarrow> task;
     f \<leftarrow> frame;
     let p = p\<lparr>p_task := t, p_last_syscall_error := fr_error f\<rparr> in
     if fr_error f \<noteq> KSYSCALL_OK then Some (KUSER_ESYSCALL, f, p, M)
     else let p = (if fr_should_exit f
                   then p\<lparr>p_exited := True, p_exit_status := fr_exit_status f\<rparr> else p)
          in Some (KUSER_OK, f, p, M)
   }"

definition zero_frame :: ksyscall_trap_frame where
  "zero_frame = \<lparr>fr_rax = 0, fr_rdi = 0, fr_rsi = 0, fr_rdx = 0, fr_r10 = 0, fr_r8 = 0, fr_r9 = 0,
     fr_rcx = 0, fr_r11 = 0, fr_user_rsp = 0, fr_result = 0, fr_error = KSYSCALL_OK,
     fr_should_exit = False, fr_exit_status = 0\<rparr>"

definition get_slot :: "kuser_process \<Rightarrow> u32 \<Rightarrow> u32 option" where
  "get_slot p slot = (if unat slot < length (p_fd_slots p) then Some (p_fd_slots p ! unat slot) else None)"

text \<open>\<open>fd_slot >= KUSER_MAX_FD_SLOTS || fd_slots[fd_slot] < 0\<close>\<close>

definition bad_slot :: "kuser_process \<Rightarrow> u32 \<Rightarrow> bool option" where
  "bad_slot p slot =
     (if slot \<ge> KUSER_MAX_FD_SLOTS then Some True
      else do { fd \<leftarrow> get_slot p slot; Some (sint fd < 0) })"

text \<open>The switch of the loop body: the trap frame of an operation, or the error it stops with.\<close>

definition op_frame :: "kuser_process \<Rightarrow> kuser_op \<Rightarrow> (kuser_error + ksyscall_trap_frame) option" where
  "op_frame p op =
     (case kuser_opcode_of (op_opcode op) of
        Some KUSER_OP_WRITE \<Rightarrow>
          Some (if \<not> user_range_ok (op_offset op) (op_len op) then Inl KUSER_EFAULT
                else Inr (zero_frame\<lparr>fr_rax := ksyscall_nr KSYSCALL_WRITE, fr_rdi := KSYSCALL_FD_STDOUT,
                            fr_rsi := user_ptr p (op_offset op), fr_rdx := ucast (op_len op)\<rparr>))
      | Some KUSER_OP_OPEN \<Rightarrow>
          Some (if op_fd_slot op \<ge> KUSER_MAX_FD_SLOTS \<or> \<not> user_range_ok (op_offset op) (op_len op)
                then Inl KUSER_EFAULT
                else Inr (zero_frame\<lparr>fr_rax := ksyscall_nr KSYSCALL_OPEN, fr_rdi := user_ptr p (op_offset op),
                            fr_rsi := ucast (op_len op)\<rparr>))
      | Some KUSER_OP_READ \<Rightarrow> do {
          bad \<leftarrow> bad_slot p (op_fd_slot op);
          if bad \<or> \<not> user_range_ok (op_offset op) (op_len op) then Some (Inl KUSER_EBADFD)
          else do {
            fd \<leftarrow> get_slot p (op_fd_slot op);
            Some (Inr (zero_frame\<lparr>fr_rax := ksyscall_nr KSYSCALL_READ, fr_rdi := scast fd,
                         fr_rsi := user_ptr p (op_offset op), fr_rdx := ucast (op_len op)\<rparr>))
          }
        }
      | Some KUSER_OP_CLOSE \<Rightarrow> do {
          bad \<leftarrow> bad_slot p (op_fd_slot op);
          if bad then Some (Inl KUSER_EBADFD)
          else do {
            fd \<leftarrow> get_slot p (op_fd_slot op);
            Some (Inr (zero_frame\<lparr>fr_rax := ksyscall_nr KSYSCALL_CLOSE, fr_rdi := scast fd\<rparr>))
          }
        }
      | Some KUSER_OP_STAT \<Rightarrow>
          Some (if \<not> user_range_ok (op_offset op) (op_len op) \<or>
                   \<not> user_range_ok (op_aux_offset op) (ucast sizeof_kfs_stat)
                then Inl KUSER_EFAULT
                else Inr (zero_frame\<lparr>fr_rax := ksyscall_nr KSYSCALL_STAT, fr_rdi := user_ptr p (op_offset op),
                            fr_rsi := ucast (op_len op), fr_rdx := user_ptr p (op_aux_offset op)\<rparr>))
      | Some KUSER_OP_EXIT \<Rightarrow>
          Some (Inr (zero_frame\<lparr>fr_rax := ksyscall_nr KSYSCALL_EXIT, fr_rdi := scast (op_exit_status op)\<rparr>))
      | None \<Rightarrow> Some (Inl KUSER_EINVAL))"

definition set_slot :: "kuser_process \<Rightarrow> u32 \<Rightarrow> u32 \<Rightarrow> kuser_process" where
  "set_slot p slot fd = p\<lparr>p_fd_slots := (p_fd_slots p)[unat slot := fd]\<rparr>"

text \<open>The body of the loop: \<^const>\<open>KUSER_OK\<close> goes on, any other value is returned.\<close>

definition kuser_step ::
  "machine \<Rightarrow> kuser_process \<Rightarrow> kuser_op \<Rightarrow> (kuser_error \<times> kuser_process \<times> machine) option" where
  "kuser_step M p op = do {
     prepared \<leftarrow> op_frame p op;
     case prepared of
       Inl e \<Rightarrow> Some (e, p\<lparr>p_last_error := e\<rparr>, M)
     | Inr frame \<Rightarrow> do {
         (err, frame, p, M) \<leftarrow> run_frame M p frame;
         if err \<noteq> KUSER_OK then Some (err, p\<lparr>p_last_error := err\<rparr>, M)
         else if kuser_opcode_of (op_opcode op) = Some KUSER_OP_OPEN
         then Some (KUSER_OK, set_slot p (op_fd_slot op) (ucast (fr_result frame)), M)
         else if kuser_opcode_of (op_opcode op) = Some KUSER_OP_CLOSE
         then Some (KUSER_OK, set_slot p (op_fd_slot op) (- 1), M)
         else Some (KUSER_OK, p, M)
       }
   }"

definition get_op :: "kuser_op list \<Rightarrow> usize \<Rightarrow> kuser_op option" where
  "get_op ops ip = (if unat ip < length ops then Some (ops ! unat ip) else None)"

function kuser_loop ::
  "kuser_op list \<Rightarrow> usize \<Rightarrow> usize \<Rightarrow> machine \<Rightarrow> kuser_process
   \<Rightarrow> (kuser_error \<times> kuser_process \<times> machine) option" where
  "kuser_loop ops n ip M p =
     (if ip < n \<and> \<not> p_exited p
      then do {
        op \<leftarrow> get_op ops ip;
        (err, p, M) \<leftarrow> kuser_step M p op;
        if err \<noteq> KUSER_OK then Some (err, p, M) else kuser_loop ops n (ip + 1) M p
      }
      else Some (KUSER_OK, p, M))"
  by pat_completeness auto
termination
  by (relation "measure (\<lambda>(_, n, ip, _). unat n - unat ip)")
     (auto simp: unat_inc_less word_less_nat_alt)

declare kuser_loop.simps [simp del]

definition kuser_run ::
  "machine \<Rightarrow> kuser_process option \<Rightarrow> kuser_program option
   \<Rightarrow> (kuser_error \<times> kuser_process option \<times> machine) option" where
  "kuser_run M process program =
     (case (process, program) of
        (Some p, Some prog) \<Rightarrow>
          (case pr_ops prog of
             None \<Rightarrow> Some (KUSER_EINVAL, process, M)
           | Some ops \<Rightarrow>
               if pr_initial_memory_len prog > ucast KUSER_MEMORY_SIZE
               then Some (KUSER_EFAULT, process, M)
               else do {
                 (ok, m) \<leftarrow> kmemcpy_checked (p_memory p) (ucast KUSER_MEMORY_SIZE)
                              (pr_initial_memory prog) (pr_initial_memory_len prog) (m_mem M);
                 if \<not> ok then Some (KUSER_EFAULT, process, M\<lparr>m_mem := m\<rparr>)
                 else do {
                   (err, p, M) \<leftarrow> kuser_loop ops (pr_op_count prog) 0
                     (M\<lparr>m_mem := m, m_fs := kfs_mount (pr_fs_nodes prog) (pr_fs_node_count prog) (m_fs M)\<rparr>)
                     (p\<lparr>p_last_error := KUSER_OK, p_last_syscall_error := KSYSCALL_OK\<rparr>);
                   Some (err, Some p, M)
                 }
               })
      | _ \<Rightarrow> Some (KUSER_EINVAL, process, M))"

end
