(* ===== verification/Process.thy ===== *)
theory Process
  imports KUser
begin

section \<open>What running a program means\<close>

text \<open>
  The abstract interpreter of user programs: the process sees a list of 512 bytes, files and
  descriptors of \<^typ>\<open>posix\<close>, and four slots, each empty or naming a descriptor. \<open>spec_run\<close>
  interprets a list of operations without addresses, words or trap frames.

  \<open>process_rel\<close> relates a process of the kernel to it. It carries the invariant the run loop
  maintains: a slot that is not empty names a descriptor that is open, and no two slots name the
  same one. The main lemma \<open>kuser_loop_refines\<close> says that the loop computes \<open>spec_run\<close>.
\<close>

record uspec =
  us_px :: posix
  us_slots :: "nat option list"
  us_exit :: "u32 option"
  us_err :: kuser_error
  us_sys :: ksyscall_error

definition in_user :: "u32 \<Rightarrow> u32 \<Rightarrow> bool" where
  "in_user off n \<longleftrightarrow> unat off + unat n \<le> 512"

definition umem :: "uspec \<Rightarrow> u32 \<Rightarrow> u32 \<Rightarrow> u8 list" where
  "umem us off n = take (unat n) (drop (unat off) (px_mem (us_px us)))"

definition us_stop :: "kuser_error \<Rightarrow> uspec \<Rightarrow> kuser_error \<times> uspec" where
  "us_stop e us = (e, us\<lparr>us_err := e\<rparr>)"

definition us_fault :: "ksyscall_error \<Rightarrow> uspec \<Rightarrow> kuser_error \<times> uspec" where
  "us_fault e us = (KUSER_ESYSCALL, us\<lparr>us_sys := e, us_err := KUSER_ESYSCALL\<rparr>)"

definition us_go :: "posix \<Rightarrow> uspec \<Rightarrow> kuser_error \<times> uspec" where
  "us_go px us = (KUSER_OK, us\<lparr>us_px := px, us_sys := KSYSCALL_OK\<rparr>)"

definition us_file :: "uspec \<Rightarrow> u32 \<Rightarrow> u32 \<Rightarrow> u8 list option" where
  "us_file us off n = (if n = 0 then None else px_files (us_px us) (umem us off n))"

definition us_fd :: "uspec \<Rightarrow> u32 \<Rightarrow> nat option" where
  "us_fd us slot = (if unat slot < 4 then us_slots us ! unat slot else None)"

definition us_write :: "uspec \<Rightarrow> u32 \<Rightarrow> u32 \<Rightarrow> kuser_error \<times> uspec" where
  "us_write us off n =
     (if \<not> in_user off n then us_stop KUSER_EFAULT us
      else us_go ((us_px us)\<lparr>px_out := px_out (us_px us) @ umem us off n\<rparr>) us)"

definition us_open :: "uspec \<Rightarrow> u32 \<Rightarrow> u32 \<Rightarrow> u32 \<Rightarrow> kuser_error \<times> uspec" where
  "us_open us slot off n =
     (if 4 \<le> unat slot \<or> \<not> in_user off n then us_stop KUSER_EFAULT us
      else case us_file us off n of
          None \<Rightarrow> us_fault KSYSCALL_ENOENT us
        | Some content \<Rightarrow>
            (case px_free_fd (px_fds (us_px us)) of
               None \<Rightarrow> us_fault KSYSCALL_EMFILE us
             | Some fd \<Rightarrow>
                 us_go ((us_px us)\<lparr>px_fds := (px_fds (us_px us))(fd \<mapsto> (content, 0))\<rparr>)
                   (us\<lparr>us_slots := (us_slots us)[unat slot := Some fd]\<rparr>)))"

definition us_read :: "uspec \<Rightarrow> u32 \<Rightarrow> u32 \<Rightarrow> u32 \<Rightarrow> kuser_error \<times> uspec" where
  "us_read us slot off n =
     (case us_fd us slot of
        None \<Rightarrow> us_stop KUSER_EBADFD us
      | Some fd \<Rightarrow>
          if \<not> in_user off n then us_stop KUSER_EBADFD us
          else case px_fds (us_px us) fd of
              None \<Rightarrow> us_fault KSYSCALL_EBADF us
            | Some (content, pos) \<Rightarrow>
                let bs = take (unat n) (drop pos content)
                in us_go ((us_px us)\<lparr>px_mem := splice (px_mem (us_px us)) (unat off) bs,
                            px_fds := (px_fds (us_px us))(fd \<mapsto> (content, pos + length bs))\<rparr>) us)"

definition us_close :: "uspec \<Rightarrow> u32 \<Rightarrow> kuser_error \<times> uspec" where
  "us_close us slot =
     (case us_fd us slot of
        None \<Rightarrow> us_stop KUSER_EBADFD us
      | Some fd \<Rightarrow>
          if px_fds (us_px us) fd = None then us_fault KSYSCALL_EBADF us
          else us_go ((us_px us)\<lparr>px_fds := (px_fds (us_px us))(fd := None)\<rparr>)
                 (us\<lparr>us_slots := (us_slots us)[unat slot := None]\<rparr>))"

definition us_stat :: "uspec \<Rightarrow> u32 \<Rightarrow> u32 \<Rightarrow> u32 \<Rightarrow> kuser_error \<times> uspec" where
  "us_stat us off n aux =
     (if \<not> in_user off n \<or> \<not> in_user aux 16 then us_stop KUSER_EFAULT us
      else case us_file us off n of
          None \<Rightarrow> us_fault KSYSCALL_ENOENT us
        | Some content \<Rightarrow>
            us_go ((us_px us)\<lparr>px_mem := splice (px_mem (us_px us)) (unat aux)
                     (stat_bytes \<lparr>st_size = of_nat (length content), st_mode = KFS_MODE_FILE,
                                  st_is_file = True\<rparr>)\<rparr>) us)"

definition spec_op :: "uspec \<Rightarrow> kuser_op \<Rightarrow> kuser_error \<times> uspec" where
  "spec_op us op =
     (case kuser_opcode_of (op_opcode op) of
        Some KUSER_OP_WRITE \<Rightarrow> us_write us (op_offset op) (op_len op)
      | Some KUSER_OP_OPEN \<Rightarrow> us_open us (op_fd_slot op) (op_offset op) (op_len op)
      | Some KUSER_OP_READ \<Rightarrow> us_read us (op_fd_slot op) (op_offset op) (op_len op)
      | Some KUSER_OP_CLOSE \<Rightarrow> us_close us (op_fd_slot op)
      | Some KUSER_OP_STAT \<Rightarrow> us_stat us (op_offset op) (op_len op) (op_aux_offset op)
      | Some KUSER_OP_EXIT \<Rightarrow> us_go (us_px us) (us\<lparr>us_exit := Some (op_exit_status op)\<rparr>)
      | None \<Rightarrow> us_stop KUSER_EINVAL us)"

fun spec_run :: "uspec \<Rightarrow> kuser_op list \<Rightarrow> kuser_error \<times> uspec" where
  "spec_run us [] = (KUSER_OK, us)"
| "spec_run us (op # ops) =
     (if us_exit us \<noteq> None then (KUSER_OK, us)
      else case spec_op us op of
          (KUSER_OK, us') \<Rightarrow> spec_run us' ops
        | (e, us') \<Rightarrow> (e, us'))"

subsection \<open>The invariant of the interpreter\<close>

definition slots_ok :: "nat option list \<Rightarrow> nat set \<Rightarrow> bool" where
  "slots_ok slots fds \<longleftrightarrow> length slots = 4 \<and> (\<forall>i < 4. \<forall>fd. slots ! i = Some fd \<longrightarrow> fd \<in> fds) \<and>
     (\<forall>i < 4. \<forall>j < 4. \<forall>fd. slots ! i = Some fd \<and> slots ! j = Some fd \<longrightarrow> i = j)"

definition us_ok :: "uspec \<Rightarrow> bool" where
  "us_ok us \<longleftrightarrow> slots_ok (us_slots us) (dom (px_fds (us_px us))) \<and>
     length (px_mem (us_px us)) = 512 \<and> dom (px_fds (us_px us)) \<subseteq> {3..<8}"

lemma slots_ok_set:
  assumes "slots_ok slots fds" "fd \<notin> fds" "k < 4"
  shows "slots_ok (slots[k := Some fd]) (insert fd fds)"
proof -
  from assms(1,2) have fresh: "slots ! i \<noteq> Some fd" if "i < 4" for i
    using that by (auto simp: slots_ok_def)
  from assms(1,3) show ?thesis using fresh unfolding slots_ok_def
    by (auto simp: nth_list_update split: if_splits)
qed

lemma slots_ok_clear:
  assumes "slots_ok slots fds" "slots ! k = Some fd" "k < 4"
  shows "slots_ok (slots[k := None]) (fds - {fd})"
  using assms unfolding slots_ok_def by (auto simp: nth_list_update split: if_splits)

lemma us_okD:
  assumes "us_ok us"
  shows "length (us_slots us) = 4" "length (px_mem (us_px us)) = 512"
    "dom (px_fds (us_px us)) \<subseteq> {3..<8}"
    "us_fd us slot = Some fd \<Longrightarrow> px_fds (us_px us) fd \<noteq> None"
    "us_fd us slot = Some fd \<Longrightarrow> unat slot < 4 \<and> us_slots us ! unat slot = Some fd"
  using assms by (fastforce simp: us_ok_def slots_ok_def us_fd_def domIff split: if_splits)+

lemmas us_result_defs = us_stop_def us_fault_def us_go_def
lemmas us_op_defs = us_write_def us_open_def us_read_def us_close_def us_stat_def

lemma us_okI:
  "us_ok us \<Longrightarrow> us_slots us' = us_slots us \<Longrightarrow> length (px_mem (us_px us')) = 512 \<Longrightarrow>
   dom (px_fds (us_px us')) = dom (px_fds (us_px us)) \<Longrightarrow> us_ok us'"
  by (simp add: us_ok_def)

lemma us_open_ok:
  assumes ok: "us_ok us" and fd: "px_free_fd (px_fds (us_px us)) = Some fd" and k: "k < 4"
  shows "us_ok (us\<lparr>us_slots := (us_slots us)[k := Some fd],
    us_px := (us_px us)\<lparr>px_fds := (px_fds (us_px us))(fd \<mapsto> e)\<rparr>\<rparr>)"
  using ok px_free_fd_bound [OF fd] slots_ok_set [OF _ _ k, of "us_slots us" _ fd]
  by (simp add: us_ok_def domIff)

lemma us_close_ok:
  assumes ok: "us_ok us" and fd: "us_slots us ! k = Some fd" and k: "k < 4"
  shows "us_ok (us\<lparr>us_slots := (us_slots us)[k := None],
    us_px := (us_px us)\<lparr>px_fds := (px_fds (us_px us))(fd := None)\<rparr>\<rparr>)"
  using ok slots_ok_clear [OF _ fd k] by (auto simp: us_ok_def)

lemma in_user_splice:
  "us_ok us \<Longrightarrow> in_user off n \<Longrightarrow> length bs \<le> unat n \<Longrightarrow>
   length (splice (px_mem (us_px us)) (unat off) bs) = 512"
  by (subst length_splice) (auto simp: in_user_def us_ok_def)

lemma us_ok_simps [simp]:
  "us_ok (us\<lparr>us_err := e\<rparr>) = us_ok us" "us_ok (us\<lparr>us_sys := f\<rparr>) = us_ok us"
  "us_ok (us\<lparr>us_exit := x\<rparr>) = us_ok us" "us_ok (us\<lparr>us_px := us_px us\<rparr>) = us_ok us"
  "us_ok (us\<lparr>us_px := px\<lparr>px_out := w\<rparr>\<rparr>) = us_ok (us\<lparr>us_px := px\<rparr>)"
  by (simp_all add: us_ok_def)

lemma us_ok_store:
  "us_ok us \<Longrightarrow> in_user off n \<Longrightarrow> length bs \<le> unat n \<Longrightarrow>
   us_ok (us\<lparr>us_px := (us_px us)\<lparr>px_mem := splice (px_mem (us_px us)) (unat off) bs\<rparr>\<rparr>)"
  by (simp add: us_ok_def in_user_splice)

lemma us_ok_store_fd:
  "us_ok us \<Longrightarrow> in_user off n \<Longrightarrow> length bs \<le> unat n \<Longrightarrow> px_fds (us_px us) fd \<noteq> None \<Longrightarrow>
   us_ok (us\<lparr>us_px := (us_px us)\<lparr>px_mem := splice (px_mem (us_px us)) (unat off) bs,
     px_fds := (px_fds (us_px us))(fd \<mapsto> e)\<rparr>\<rparr>)"
  using in_user_splice [of us off n bs] by (simp add: us_ok_def insert_absorb domIff)

lemma us_op_ok:
  assumes ok: "us_ok us"
  shows "us_ok (snd (us_write us off n))" "us_ok (snd (us_open us slot off n))"
    "us_ok (snd (us_read us slot off n))" "us_ok (snd (us_close us slot))"
    "us_ok (snd (us_stat us off n aux))"
  using ok us_open_ok [OF ok] us_okD(5) [OF ok, of slot] us_close_ok [OF ok, of "unat slot"]
  by (auto simp: us_op_defs us_result_defs Let_def not_le intro: us_ok_store us_ok_store_fd
      split: option.splits)

lemma spec_op_ok: "us_ok us \<Longrightarrow> us_ok (snd (spec_op us op))"
  using us_op_ok
  by (auto simp: spec_op_def us_result_defs split: option.splits kuser_opcode.splits)

text \<open>After the checks of the interpreter, the only errors a system call can still return are
  those of opening and stating a path.\<close>

definition honest :: "kuser_error \<Rightarrow> ksyscall_error \<Rightarrow> bool" where
  "honest e s \<longleftrightarrow>
     (if e = KUSER_ESYSCALL then s = KSYSCALL_ENOENT \<or> s = KSYSCALL_EMFILE else s = KSYSCALL_OK)"

definition honest_result :: "kuser_error \<times> uspec \<Rightarrow> bool" where
  "honest_result r \<longleftrightarrow> honest (fst r) (us_sys (snd r))"

lemma us_op_honest:
  assumes ok: "us_ok us" and s: "us_sys us = KSYSCALL_OK"
  shows "honest_result (us_write us off n)"
    "honest_result (us_open us slot off n)"
    "honest_result (us_read us slot off n)"
    "honest_result (us_close us slot)"
    "honest_result (us_stat us off n aux)"
  using us_okD(4) [OF ok, of slot] s
  by (auto simp: us_op_defs us_result_defs honest_result_def honest_def Let_def split: option.splits)

lemma spec_op_honest:
  assumes "us_ok us" "us_sys us = KSYSCALL_OK"
  shows "honest_result (spec_op us op)"
proof (cases "kuser_opcode_of (op_opcode op)")
  case None
  with assms(2) show ?thesis by (simp add: spec_op_def us_stop_def honest_result_def honest_def)
next
  case (Some c)
  have "honest_result (us_go px us')" for px us'
    by (simp add: us_go_def honest_result_def honest_def)
  with Some us_op_honest [OF assms] show ?thesis by (cases c) (simp_all add: spec_op_def)
qed

lemma spec_run_honest:
  "us_ok us \<Longrightarrow> us_sys us = KSYSCALL_OK \<Longrightarrow> honest_result (spec_run us ops)"
proof (induction us ops rule: spec_run.induct)
  case (2 us op ops)
  obtain e us' where s: "spec_op us op = (e, us')" by force
  note h = spec_op_honest [OF "2.prems", of op] and ok = spec_op_ok [OF "2.prems"(1), of op]
  show ?case
  proof (cases "us_exit us = None \<and> e = KUSER_OK")
    case True
    with s h ok have "us_ok us'" "us_sys us' = KSYSCALL_OK" by (auto simp: honest_result_def honest_def)
    with "2.IH" True s show ?thesis by simp
  next
    case False
    with s h "2.prems"(2) show ?thesis by (cases e) (auto simp: honest_result_def honest_def)
  qed
qed (simp add: honest_result_def honest_def)

subsection \<open>The relation to a process of the kernel\<close>

fun slot_word :: "nat option \<Rightarrow> u32" where
  "slot_word None = - 1"
| "slot_word (Some fd) = of_nat fd"

definition process_rel ::
  "uart \<Rightarrow> u8 list \<Rightarrow> entry list \<Rightarrow> machine \<Rightarrow> kuser_process \<Rightarrow> uspec \<Rightarrow> bool" where
  "process_rel u0 pre files M p us \<longleftrightarrow>
     represents u0 pre files M (p_task p) (us_px us) \<and> us_ok us \<and>
     p_memory p = px_base (us_px us) \<and> p_fd_slots p = map slot_word (us_slots us) \<and>
     p_exited p = (us_exit us \<noteq> None) \<and> (\<forall>s. us_exit us = Some s \<longrightarrow> p_exit_status p = s) \<and>
     p_last_error p = us_err us \<and> p_last_syscall_error p = us_sys us"

lemma process_relD:
  assumes "process_rel u0 pre files M p us"
  shows "represents u0 pre files M (p_task p) (us_px us)" "us_ok us"
    "p_memory p = px_base (us_px us)" "p_fd_slots p = map slot_word (us_slots us)"
    "unat (px_base (us_px us)) + 512 < 2 ^ 64"
proof -
  show r: "represents u0 pre files M (p_task p) (us_px us)" and ok: "us_ok us"
    and "p_memory p = px_base (us_px us)" "p_fd_slots p = map slot_word (us_slots us)"
    using assms by (simp_all add: process_rel_def)
  from representsD(2) [OF r] us_okD(2) [OF ok] show "unat (px_base (us_px us)) + 512 < 2 ^ 64"
    by (auto simp: user_rel_def)
qed

lemma unat_lt_32: "unat (x :: u32) < 2 ^ 32"
proof -
  have "unat x < 2 ^ LENGTH(32)" by (rule unsigned_less)
  then show ?thesis by simp
qed

lemma unat_ucast32: "unat (ucast (n :: u32) :: u64) = unat n"
  using unat_lt_32 [of n] by (simp add: unsigned_ucast_eq take_bit_nat_eq_self)

lemma user_range_ok_iff: "user_range_ok off n = in_user off n"
proof (cases "unat off \<le> 512")
  case True
  then have "unat (512 - off) = 512 - unat off"
    by (subst unat_sub) (simp_all add: word_le_nat_alt)
  with True show ?thesis by (auto simp: user_range_ok_def in_user_def struct_defs word_le_nat_alt)
qed (simp add: user_range_ok_def in_user_def struct_defs word_le_nat_alt)

lemma px_in_user:
  assumes b: "unat (px_base px) + 512 < 2 ^ 64" and len: "length (px_mem px) = 512" and u: "in_user off n"
  shows "px_off px (px_base px + ucast off) = unat off"
    "px_valid px (px_base px + ucast off) (ucast n)"
    "px_slice px (px_base px + ucast off) (ucast n) = take (unat n) (drop (unat off) (px_mem px))"
proof -
  from b u have a: "unat (px_base px + ucast off) = unat (px_base px) + unat off"
    by (subst unat_plus_no_overflow) (simp_all add: unat_ucast32 in_user_def)
  then show o: "px_off px (px_base px + ucast off) = unat off" by (simp add: px_off_def)
  show "px_valid px (px_base px + ucast off) (ucast n)"
    using a u len by (simp add: px_valid_def unat_ucast32 in_user_def)
  show "px_slice px (px_base px + ucast off) (ucast n) = take (unat n) (drop (unat off) (px_mem px))"
    by (simp add: px_slice_def o unat_ucast32)
qed

lemma small_slot:
  assumes "fd < 8"
  shows "sint (of_nat fd :: u32) = int fd" "(scast (of_nat fd :: u32) :: u64) = of_nat fd"
    "unat (of_nat fd :: u64) = fd"
proof -
  have "fd \<in> {0, 1, 2, 3, 4, 5, 6, 7}" using assms by (simp, presburger)
  then show "sint (of_nat fd :: u32) = int fd" "(scast (of_nat fd :: u32) :: u64) = of_nat fd"
    "unat (of_nat fd :: u64) = fd" by auto
qed

lemma bad_slot_spec:
  assumes ok: "us_ok us" and sl: "p_fd_slots p = map slot_word (us_slots us)"
  shows "bad_slot p slot = Some (us_fd us slot = None)"
    "us_fd us slot = Some fd \<Longrightarrow> get_slot p slot = Some (of_nat fd) \<and> fd < 8 \<and> unat slot < 4"
proof -
  have len: "length (p_fd_slots p) = 4" using us_okD(1) [OF ok] sl by simp
  have fd8: "fd < 8" if "us_fd us slot = Some fd" for fd
  proof -
    have "fd \<in> dom (px_fds (us_px us))" using us_okD(4) [OF ok that] by auto
    with us_okD(3) [OF ok] show ?thesis by auto
  qed
  show "bad_slot p slot = Some (us_fd us slot = None)"
  proof (cases "unat slot < 4")
    case True
    then have g: "get_slot p slot = Some (slot_word (us_slots us ! unat slot))"
      using len sl us_okD(1) [OF ok] by (simp add: get_slot_def)
    show ?thesis
    proof (cases "us_slots us ! unat slot")
      case None
      with True g show ?thesis by (simp add: bad_slot_def us_fd_def struct_defs word_le_nat_alt)
    next
      case (Some fd)
      then have "fd < 8" using True fd8 by (simp add: us_fd_def)
      with True g Some small_slot(1) [of fd] show ?thesis
        by (simp add: bad_slot_def us_fd_def struct_defs word_le_nat_alt)
    qed
  qed (simp add: bad_slot_def us_fd_def struct_defs word_le_nat_alt)
  show "us_fd us slot = Some fd \<Longrightarrow> get_slot p slot = Some (of_nat fd) \<and> fd < 8 \<and> unat slot < 4"
    using fd8 sl us_okD(1,5) [OF ok] by (auto simp: get_slot_def)
qed

subsection \<open>One operation\<close>

text \<open>What the loop body makes of the result of a system call.\<close>

definition us_result :: "kuser_op \<Rightarrow> uspec \<Rightarrow> posix \<times> ksyscall_result \<Rightarrow> kuser_error \<times> uspec" where
  "us_result op us out =
     (let px = fst out; r = snd out in
      if sr_error r \<noteq> KSYSCALL_OK
      then (KUSER_ESYSCALL, us\<lparr>us_px := px, us_sys := sr_error r, us_err := KUSER_ESYSCALL\<rparr>)
      else (KUSER_OK, us\<lparr>us_px := px, us_sys := KSYSCALL_OK,
              us_exit := (if sr_should_exit r then Some (sr_exit_status r) else us_exit us),
              us_slots :=
                (if kuser_opcode_of (op_opcode op) = Some KUSER_OP_OPEN
                 then (us_slots us)[unat (op_fd_slot op) := Some (unat (sr_value r))]
                 else if kuser_opcode_of (op_opcode op) = Some KUSER_OP_CLOSE
                 then (us_slots us)[unat (op_fd_slot op) := None]
                 else us_slots us)\<rparr>))"

lemma us_result_err:
  "us_result op us (us_px us, px_err e) = us_fault e us" if "e \<noteq> KSYSCALL_OK"
  using that by (simp add: us_result_def us_fault_def ksyscall_result_of_def)

text \<open>An operation either stops before the trap or is the system call in its frame.\<close>

definition prepared :: "kuser_process \<Rightarrow> kuser_op \<Rightarrow> uspec \<Rightarrow> bool" where
  "prepared p op us \<longleftrightarrow>
     (\<exists>e. op_frame p op = Some (Inl e) \<and> spec_op us op = us_stop e us) \<or>
     (\<exists>f. op_frame p op = Some (Inr f) \<and>
        spec_op us op = us_result op us (posix_call (us_px us) (regs_of_frame f)))"

lemma preparedI:
  "op_frame p op = Some (Inr f) \<Longrightarrow>
   spec_op us op = us_result op us (posix_call (us_px us) (regs_of_frame f)) \<Longrightarrow> prepared p op us"
  by (auto simp: prepared_def)

lemmas frame_defs = zero_frame_def regs_of_frame_def posix_call_def user_ptr_def

definition placed :: "kuser_process \<Rightarrow> uspec \<Rightarrow> bool" where
  "placed p us \<longleftrightarrow> us_ok us \<and> unat (px_base (us_px us)) + 512 < 2 ^ 64 \<and>
     p_memory p = px_base (us_px us) \<and> p_fd_slots p = map slot_word (us_slots us)"

lemma placedD:
  assumes "placed p us"
  shows "us_ok us" "p_memory p = px_base (us_px us)" "p_fd_slots p = map slot_word (us_slots us)"
    "in_user off n \<Longrightarrow> px_off (us_px us) (px_base (us_px us) + ucast off) = unat off"
    "in_user off n \<Longrightarrow> px_valid (us_px us) (px_base (us_px us) + ucast off) (ucast n)"
    "in_user off n \<Longrightarrow> px_slice (us_px us) (px_base (us_px us) + ucast off) (ucast n) = umem us off n"
  using assms px_in_user [of "us_px us" off n] us_okD(2) [of us]
  by (auto simp: placed_def umem_def)

lemma prepared_write:
  assumes pl: "placed p us" and op: "kuser_opcode_of (op_opcode op) = Some KUSER_OP_WRITE"
  shows "prepared p op us"
proof (cases "in_user (op_offset op) (op_len op)")
  case True
  show ?thesis
    by (rule preparedI) (simp_all add: op op_frame_def True user_range_ok_iff,
      simp add: op spec_op_def us_write_def True frame_defs placedD(2,5,6) [OF pl] px_write_def
        struct_defs us_result_def us_go_def ksyscall_result_of_def)
qed (simp add: prepared_def op op_frame_def spec_op_def us_write_def user_range_ok_iff)

lemma px_resolve_user:
  assumes "placed p us" "in_user off n"
  shows "px_resolve (us_px us) (px_base (us_px us) + ucast off) (ucast n) = us_file us off n"
proof -
  have "(ucast n :: u64) = 0 \<longleftrightarrow> n = 0"
    using unat_ucast32 [of n] by (metis unat_eq_0)
  then show ?thesis using placedD(6) [OF assms] by (simp add: px_resolve_def us_file_def)
qed

lemma prepared_open:
  assumes pl: "placed p us" and op: "kuser_opcode_of (op_opcode op) = Some KUSER_OP_OPEN"
  shows "prepared p op us"
proof (cases "unat (op_fd_slot op) < 4 \<and> in_user (op_offset op) (op_len op)")
  case False
  then show ?thesis
    by (auto simp: prepared_def op op_frame_def spec_op_def us_open_def user_range_ok_iff struct_defs
        word_le_nat_alt)
next
  case True
  have v: "unat (of_nat fd :: u64) = fd" if "px_free_fd (px_fds (us_px us)) = Some fd" for fd
    using px_free_fd_bound [OF that] small_slot(3) by blast
  show ?thesis
  proof (rule preparedI)
    show "op_frame p op = Some (Inr (zero_frame\<lparr>fr_rax := ksyscall_nr KSYSCALL_OPEN,
        fr_rdi := user_ptr p (op_offset op), fr_rsi := ucast (op_len op)\<rparr>))"
      using True by (simp add: op op_frame_def user_range_ok_iff struct_defs word_le_nat_alt)
  next
    show "spec_op us op = us_result op us (posix_call (us_px us) (regs_of_frame
        (zero_frame\<lparr>fr_rax := ksyscall_nr KSYSCALL_OPEN, fr_rdi := user_ptr p (op_offset op),
          fr_rsi := ucast (op_len op)\<rparr>)))"
      using True v placedD(2,5,6) [OF pl] px_resolve_user [OF pl]
      by (auto simp: op spec_op_def us_open_def frame_defs px_open_def us_result_def us_go_def
          us_fault_def ksyscall_result_of_def split: option.splits)
  qed
qed

lemma prepared_read:
  assumes pl: "placed p us" and op: "kuser_opcode_of (op_opcode op) = Some KUSER_OP_READ"
  shows "prepared p op us"
proof (cases "us_fd us (op_fd_slot op)")
  case None
  with bad_slot_spec(1) [OF placedD(1,3) [OF pl]] show ?thesis
    by (simp add: prepared_def op op_frame_def spec_op_def us_read_def)
next
  case (Some fd)
  note g = bad_slot_spec(2) [OF placedD(1,3) [OF pl] Some]
  note bad = bad_slot_spec(1) [OF placedD(1,3) [OF pl], of "op_fd_slot op"]
  show ?thesis
  proof (cases "in_user (op_offset op) (op_len op)")
    case False
    with bad Some show ?thesis
      by (simp add: prepared_def op op_frame_def spec_op_def us_read_def user_range_ok_iff)
  next
    case True
    show ?thesis
    proof (rule preparedI)
      show "op_frame p op = Some (Inr (zero_frame\<lparr>fr_rax := ksyscall_nr KSYSCALL_READ,
          fr_rdi := of_nat fd, fr_rsi := user_ptr p (op_offset op), fr_rdx := ucast (op_len op)\<rparr>))"
        using True bad g Some small_slot(2) [of fd] by (simp add: op op_frame_def user_range_ok_iff)
    next
      show "spec_op us op = us_result op us (posix_call (us_px us) (regs_of_frame
          (zero_frame\<lparr>fr_rax := ksyscall_nr KSYSCALL_READ, fr_rdi := of_nat fd,
            fr_rsi := user_ptr p (op_offset op), fr_rdx := ucast (op_len op)\<rparr>)))"
        using True Some g placedD(2) [OF pl] placedD(4,5) [OF pl True] small_slot(3) [of fd]
        by (auto simp: op spec_op_def us_read_def frame_defs px_read_def us_result_def us_go_def
            us_fault_def ksyscall_result_of_def Let_def px_store_def unat_ucast32
            split: option.splits)
    qed
  qed
qed

lemma prepared_close:
  assumes pl: "placed p us" and op: "kuser_opcode_of (op_opcode op) = Some KUSER_OP_CLOSE"
  shows "prepared p op us"
proof (cases "us_fd us (op_fd_slot op)")
  case None
  with bad_slot_spec(1) [OF placedD(1,3) [OF pl]] show ?thesis
    by (simp add: prepared_def op op_frame_def spec_op_def us_close_def)
next
  case (Some fd)
  note g = bad_slot_spec(2) [OF placedD(1,3) [OF pl] Some]
  note bad = bad_slot_spec(1) [OF placedD(1,3) [OF pl], of "op_fd_slot op"]
  show ?thesis
  proof (rule preparedI)
    show "op_frame p op = Some (Inr (zero_frame\<lparr>fr_rax := ksyscall_nr KSYSCALL_CLOSE,
        fr_rdi := of_nat fd\<rparr>))"
      using bad g Some small_slot(2) [of fd] by (simp add: op op_frame_def)
  next
    show "spec_op us op = us_result op us (posix_call (us_px us) (regs_of_frame
        (zero_frame\<lparr>fr_rax := ksyscall_nr KSYSCALL_CLOSE, fr_rdi := of_nat fd\<rparr>)))"
      using Some g small_slot(3) [of fd]
      by (auto simp: op spec_op_def us_close_def frame_defs px_close_def us_result_def us_go_def
          us_fault_def ksyscall_result_of_def)
  qed
qed

lemma prepared_stat:
  assumes pl: "placed p us" and op: "kuser_opcode_of (op_opcode op) = Some KUSER_OP_STAT"
  shows "prepared p op us"
proof (cases "in_user (op_offset op) (op_len op) \<and> in_user (op_aux_offset op) 16")
  case False
  then show ?thesis
    by (auto simp: prepared_def op op_frame_def spec_op_def us_stat_def user_range_ok_iff
        sizeof_kfs_stat_def)
next
  case True
  have sv: "px_valid (us_px us) (px_base (us_px us) + ucast (op_aux_offset op)) sizeof_kfs_stat"
    using placedD(5) [OF pl conjunct2 [OF True]] by (simp add: sizeof_kfs_stat_def)
  show ?thesis
  proof (rule preparedI)
    show "op_frame p op = Some (Inr (zero_frame\<lparr>fr_rax := ksyscall_nr KSYSCALL_STAT,
        fr_rdi := user_ptr p (op_offset op), fr_rsi := ucast (op_len op),
        fr_rdx := user_ptr p (op_aux_offset op)\<rparr>))"
      using True by (simp add: op op_frame_def user_range_ok_iff sizeof_kfs_stat_def)
  next
    show "spec_op us op = us_result op us (posix_call (us_px us) (regs_of_frame
        (zero_frame\<lparr>fr_rax := ksyscall_nr KSYSCALL_STAT, fr_rdi := user_ptr p (op_offset op),
          fr_rsi := ucast (op_len op), fr_rdx := user_ptr p (op_aux_offset op)\<rparr>)))"
      using True sv placedD(2,5) [OF pl] placedD(4) [OF pl conjunct2 [OF True]] px_resolve_user [OF pl]
      by (auto simp: op spec_op_def us_stat_def frame_defs px_stat_def us_result_def us_go_def
          us_fault_def ksyscall_result_of_def px_store_def split: option.splits)
  qed
qed

text \<open>The exit status is sign-extended into the register and truncated again by the kernel.\<close>

lemma exit_status_roundtrip: "ucast (scast (s :: u32) :: u64) = s"
  by (rule bit_word_eqI) (simp add: bit_simps)

lemma prepared_exit:
  assumes op: "kuser_opcode_of (op_opcode op) = Some KUSER_OP_EXIT"
  shows "prepared p op us"
proof (rule preparedI)
  show "op_frame p op = Some (Inr (zero_frame\<lparr>fr_rax := ksyscall_nr KSYSCALL_EXIT,
      fr_rdi := scast (op_exit_status op)\<rparr>))" by (simp add: op op_frame_def)
qed (simp add: op spec_op_def frame_defs us_result_def us_go_def exit_status_roundtrip)

lemma prepared_op: "placed p us \<Longrightarrow> prepared p op us"
proof (cases "kuser_opcode_of (op_opcode op)")
  case (Some c)
  assume pl: "placed p us"
  from Some prepared_write [OF pl] prepared_open [OF pl] prepared_read [OF pl] prepared_close [OF pl]
    prepared_stat [OF pl] prepared_exit show ?thesis by (cases c) simp_all
qed (simp add: prepared_def op_frame_def spec_op_def)

definition process_frame :: "machine \<Rightarrow> kuser_process \<Rightarrow> machine \<Rightarrow> kuser_process \<Rightarrow> bool" where
  "process_frame M p M' p' \<longleftrightarrow> kernel_frame M (p_task p) M' (p_task p') \<and> p_memory p' = p_memory p"

lemma process_frame_refl: "p_task p' = p_task p \<Longrightarrow> p_memory p' = p_memory p \<Longrightarrow> process_frame M p M p'"
  by (simp add: process_frame_def)

lemma process_frame_trans:
  "process_frame M p M' p' \<Longrightarrow> process_frame M' p' M'' p'' \<Longrightarrow> process_frame M p M'' p''"
  by (auto simp: process_frame_def intro: kernel_frame_trans)

lemma placed_rel: "process_rel u0 pre files M p us \<Longrightarrow> placed p us"
  using process_relD [of u0 pre files M p us] by (simp add: placed_def)

lemma represents_base:
  assumes "represents u0 pre files M t px" "represents u0 pre files M' t' px'" "kernel_frame M t M' t'"
  shows "px_base px' = px_base px"
proof -
  have "t_user_base t' = t_user_base t" using assms(3) by (cases t; cases t') (simp add: kernel_frame_def)
  with representsD(2) [OF assms(1)] representsD(2) [OF assms(2)] show ?thesis by (simp add: user_rel_def)
qed

text \<open>The result of a trap, carried into the process.\<close>

lemma trap_step:
  assumes rel: "process_rel u0 pre files M p us"
    and f: "op_frame p op = Some (Inr f)"
    and sp: "spec_op us op = us_result op us (posix_call (us_px us) (regs_of_frame f))"
  shows "\<exists>p' M'. kuser_step M p op = Some (fst (spec_op us op), p', M') \<and>
    process_rel u0 pre files M' p' (snd (spec_op us op)) \<and> process_frame M p M' p'"
proof -
  note r = process_relD(1) [OF rel]
  obtain px r' where pc: "posix_call (us_px us) (regs_of_frame f) = (px, r')" by force
  from entry_follows [OF r, of f] pc obtain t' f' M' where e:
    "ksyscall_entry M (Some (p_task p)) (Some f) = Some (Some t', Some f', M')"
    "frame_result f' = r'" "represents u0 pre files M' t' px" "kernel_frame M (p_task p) M' t'"
    by (auto simp: trap_follows_def)
  have base: "px_base px = px_base (us_px us)" by (rule represents_base [OF r e(3,4)])
  have fr: "fr_error f' = sr_error r'" "fr_result f' = sr_value r'" "fr_should_exit f' = sr_should_exit r'"
    "fr_exit_status f' = sr_exit_status r'" using e(2) by (auto simp: frame_result_def)
  have ok: "us_ok (snd (us_result op us (px, r')))"
    using spec_op_ok [OF process_relD(2) [OF rel], of op] sp pc by simp
  let ?p = "p\<lparr>p_task := t', p_last_syscall_error := sr_error r'\<rparr>"
  show ?thesis
  proof (cases "sr_error r' = KSYSCALL_OK")
    case False
    then have st: "kuser_step M p op = Some (KUSER_ESYSCALL, ?p\<lparr>p_last_error := KUSER_ESYSCALL\<rparr>, M')"
      by (simp add: kuser_step_def run_frame_def f e(1) fr Let_def)
    have "process_rel u0 pre files M' (?p\<lparr>p_last_error := KUSER_ESYSCALL\<rparr>)
        (snd (us_result op us (px, r')))"
      using rel e(3) ok base False by (simp add: process_rel_def us_result_def)
    with st sp pc False e(4) show ?thesis by (simp add: us_result_def process_frame_def)
  next
    case True
    let ?q = "if sr_should_exit r' then ?p\<lparr>p_exited := True, p_exit_status := sr_exit_status r'\<rparr> else ?p"
    let ?q' = "if kuser_opcode_of (op_opcode op) = Some KUSER_OP_OPEN
        then set_slot ?q (op_fd_slot op) (ucast (sr_value r'))
        else if kuser_opcode_of (op_opcode op) = Some KUSER_OP_CLOSE
        then set_slot ?q (op_fd_slot op) (- 1) else ?q"
    obtain q' where q': "q' = ?q'" by blast
    obtain us' where us': "us' = snd (us_result op us (px, r'))" by blast
    have st: "kuser_step M p op = Some (KUSER_OK, q', M')"
      unfolding q' using True by (simp add: kuser_step_def run_frame_def f e(1) fr Let_def)
    have q: "p_task q' = t'" "p_memory q' = p_memory p" "p_last_error q' = p_last_error p"
      "p_exited q' = (p_exited p \<or> sr_should_exit r')" "p_last_syscall_error q' = KSYSCALL_OK"
      "p_exit_status q' = (if sr_should_exit r' then sr_exit_status r' else p_exit_status p)"
      using True by (simp_all add: set_slot_def q')
    have u: "us_px us' = px" "us_err us' = us_err us" "us_sys us' = KSYSCALL_OK"
      "us_exit us' = (if sr_should_exit r' then Some (sr_exit_status r') else us_exit us)"
      using True by (simp_all add: us_result_def us')
    have sl: "p_fd_slots q' = map slot_word (us_slots us')"
      using process_relD(4) [OF rel] True by (simp add: set_slot_def us_result_def map_update q' us')
    have ok': "us_ok us'" unfolding us' by (rule ok)
    have x: "(\<forall>s. us_exit us' = Some s \<longrightarrow> p_exit_status q' = s)" "p_exited q' = (us_exit us' \<noteq> None)"
      using rel unfolding q(4,6) u(4) by (auto simp: process_rel_def)
    have "p_last_error p = us_err us" "p_memory p = px_base (us_px us)"
      using rel by (simp_all add: process_rel_def)
    then have "process_rel u0 pre files M' q' us'"
      unfolding process_rel_def q(1,2,3,5) u(1,2,3) using e(3) ok' sl x base by simp
    moreover have "spec_op us op = (KUSER_OK, us')" using sp pc True us' by (simp add: us_result_def)
    ultimately show ?thesis using st e(4) q by (simp add: process_frame_def)
  qed
qed

lemma kuser_step_refines:
  assumes rel: "process_rel u0 pre files M p us"
  shows "\<exists>p' M'. kuser_step M p op = Some (fst (spec_op us op), p', M') \<and>
    process_rel u0 pre files M' p' (snd (spec_op us op)) \<and> process_frame M p M' p'"
  using prepared_op [OF placed_rel [OF rel], of op] unfolding prepared_def
proof (elim disjE exE conjE)
  fix e assume e: "op_frame p op = Some (Inl e)" "spec_op us op = us_stop e us"
  have "process_rel u0 pre files M (p\<lparr>p_last_error := e\<rparr>) (us\<lparr>us_err := e\<rparr>)"
    using rel by (simp add: process_rel_def)
  with e show ?thesis by (simp add: kuser_step_def us_stop_def process_frame_refl)
next
  fix f assume "op_frame p op = Some (Inr f)"
    "spec_op us op = us_result op us (posix_call (us_px us) (regs_of_frame f))"
  then show ?thesis by (rule trap_step [OF rel])
qed

subsection \<open>The run loop\<close>

lemma kuser_loop_refines:
  assumes "process_rel u0 pre files M p us" "n = of_nat (length ops)" "length ops < 2 ^ 64"
    "unat ip \<le> length ops"
  shows "\<exists>p' M'. kuser_loop ops n ip M p = Some (fst (spec_run us (drop (unat ip) ops)), p', M') \<and>
    process_rel u0 pre files M' p' (snd (spec_run us (drop (unat ip) ops))) \<and> process_frame M p M' p'"
  using assms
proof (induction "length ops - unat ip" arbitrary: ip M p us)
  case 0
  then have "\<not> ip < n" by (simp add: word_less_nat_alt unat_of_nat64)
  with 0 show ?case by (subst kuser_loop.simps) (simp add: process_frame_refl)
next
  case (Suc d)
  then have less: "unat ip < length ops" by simp
  then have ipn: "ip < n" using Suc.prems(2,3) by (simp add: word_less_nat_alt unat_of_nat64)
  have dr: "drop (unat ip) ops = ops ! unat ip # drop (Suc (unat ip)) ops"
    using less by (simp add: Cons_nth_drop_Suc)
  have ex: "p_exited p \<longleftrightarrow> us_exit us \<noteq> None" using Suc.prems(1) by (simp add: process_rel_def)
  show ?case
  proof (cases "us_exit us = None")
    case False
    then show ?thesis using Suc.prems(1) ex dr
      by (subst kuser_loop.simps) (simp add: process_frame_refl)
  next
    case True
    obtain e us' where sp: "spec_op us (ops ! unat ip) = (e, us')" by force
    from kuser_step_refines [OF Suc.prems(1), of "ops ! unat ip"] sp obtain p' M' where st:
      "kuser_step M p (ops ! unat ip) = Some (e, p', M')" "process_rel u0 pre files M' p' us'"
      "process_frame M p M' p'" by auto
    have go: "get_op ops ip = Some (ops ! unat ip)" using less by (simp add: get_op_def)
    show ?thesis
    proof (cases "e = KUSER_OK")
      case False
      then have "spec_run us (drop (unat ip) ops) = (e, us')"
        using True sp dr by (cases e) simp_all
      moreover have "kuser_loop ops n ip M p = Some (e, p', M')"
        using ipn ex True go st(1) False by (subst kuser_loop.simps) simp
      ultimately show ?thesis using st by simp
    next
      case eok: True
      have ui: "unat (ip + 1) = Suc (unat ip)" by (rule unat_inc_less [OF ipn])
      have "d = length ops - unat (ip + 1)" using Suc.hyps(2) ui by simp
      from Suc.hyps(1) [OF this st(2) Suc.prems(2,3)] ui less obtain p'' M'' where
        "kuser_loop ops n (ip + 1) M' p' = Some (fst (spec_run us' (drop (Suc (unat ip)) ops)), p'', M'')"
        "process_rel u0 pre files M'' p'' (snd (spec_run us' (drop (Suc (unat ip)) ops)))"
        "process_frame M' p' M'' p''" by auto
      moreover have "kuser_loop ops n ip M p = kuser_loop ops n (ip + 1) M' p'"
        using ipn ex True go st(1) eok by (subst kuser_loop.simps) simp
      ultimately show ?thesis using True sp dr eok process_frame_trans [OF st(3)] by auto
    qed
  qed
qed

subsection \<open>Loading and running a program\<close>

definition mounted :: "machine \<Rightarrow> kuser_program \<Rightarrow> machine" where
  "mounted M prog = M\<lparr>m_fs := kfs_mount (pr_fs_nodes prog) (pr_fs_node_count prog) (m_fs M)\<rparr>"

text \<open>A program whose pointers are good: its operations \<open>ops\<close>, its initial memory \<open>init\<close> and its
  filesystem \<open>files\<close> are where it says, outside the memory of the process.\<close>

definition loadable ::
  "machine \<Rightarrow> kuser_process \<Rightarrow> kuser_program \<Rightarrow> kuser_op list \<Rightarrow> u8 list \<Rightarrow> entry list \<Rightarrow> bool" where
  "loadable M p prog ops init files \<longleftrightarrow>
     pr_ops prog = Some ops \<and> pr_op_count prog = of_nat (length ops) \<and> length ops < 2 ^ 64 \<and>
     pr_initial_memory_len prog = of_nat (length init) \<and> length init \<le> 512 \<and>
     pr_initial_memory prog \<noteq> 0 \<and> holds (m_mem M) (pr_initial_memory prog) init \<and>
     disjoint_ranges (p_memory p) 512 (pr_initial_memory prog) (of_nat (length init)) \<and>
     files_rel files (mounted M prog) (p_task p)"

definition us_load :: "uspec \<Rightarrow> u8 list \<Rightarrow> entry list \<Rightarrow> uspec" where
  "us_load us init files = us\<lparr>us_px := (us_px us)\<lparr>px_mem := splice (px_mem (us_px us)) 0 init,
     px_files := fs_map files\<rparr>, us_err := KUSER_OK, us_sys := KSYSCALL_OK\<rparr>"

lemma us_ok_load: "us_ok us \<Longrightarrow> length init \<le> 512 \<Longrightarrow> us_ok (us_load us init files)"
  by (simp add: us_ok_def us_load_def length_splice)

lemma isolated_mount: "isolated (kfs_mount n c fs) m t node pth content = isolated fs m t node pth content"
  by (simp add: isolated_def node_rep_def valid_node_def node_is_valid_def kfs_mount_def)

lemma represents_mount:
  assumes "represents u0 pre files0 M t px" "files_rel files (mounted M prog) t"
  shows "represents u0 pre files (mounted M prog) t (px\<lparr>px_files := fs_map files\<rparr>)"
proof -
  have "open_file (mounted M prog) t f e = open_file M t f e" for f e
    by (cases e) (auto simp: open_file_def mounted_def isolated_mount)
  then have "fds_rel (mounted M prog) t (px_fds px)"
    using representsD(5) [OF assms(1)] by (simp add: fds_rel_def)
  with assms show ?thesis by (simp add: represents_def) (simp add: mounted_def)
qed

lemma kuser_run_refines:
  assumes rel: "process_rel u0 pre files0 M p us" and ld: "loadable M p prog ops init files"
  shows "\<exists>p' M'. kuser_run M (Some p) (Some prog) =
      Some (fst (spec_run (us_load us init files) ops), Some p', M') \<and>
    process_rel u0 pre files M' p' (snd (spec_run (us_load us init files) ops)) \<and>
    process_frame (mounted M prog) p M' p'"
proof -
  let ?n = "of_nat (length init) :: u64" and ?px = "us_px us"
  note r = process_relD(1) [OF rel] and ok = process_relD(2) [OF rel]
  note u = representsD(2) [OF r]
  have l: "pr_ops prog = Some ops" "pr_op_count prog = of_nat (length ops)" "length ops < 2 ^ 64"
    "pr_initial_memory_len prog = ?n" "length init \<le> 512" "pr_initial_memory prog \<noteq> 0"
    "holds (m_mem M) (pr_initial_memory prog) init"
    "disjoint_ranges (p_memory p) 512 (pr_initial_memory prog) ?n"
    "files_rel files (mounted M prog) (p_task p)" using ld by (auto simp: loadable_def)
  have n: "unat ?n = length init" using l(5) by (intro unat_of_nat64) simp
  have base: "p_memory p = px_base ?px" "px_base ?px = t_user_base (p_task p)" "px_base ?px \<noteq> 0"
    using rel u by (auto simp: process_rel_def user_rel_def)
  have ul: "unat (t_user_len (p_task p)) = 512" using u us_okD(2) [OF ok] by (auto simp: user_rel_def)
  then have ul': "t_user_len (p_task p) = 512" by (simp add: word_unat_eq_iff)
  have "mapped (p_memory p) 512 (m_mem M)" using user_mapped [OF u] base ul' by simp
  then obtain m where m: "kmemcpy_checked (p_memory p) 512 (pr_initial_memory prog) ?n (m_mem M) = Some (True, m)"
    "holds m (p_memory p) init" "dom m = dom (m_mem M)"
    "\<And>q. \<not> in_range q (p_memory p) ?n \<Longrightarrow> m q = m_mem M q"
    using kmemcpy_checked_exact [OF _ l(6) _ l(7) _ _ l(8)] base(1,3) l(5) n
    by (auto simp: word_le_nat_alt)
  let ?M1 = "mounted M prog"
  have v: "px_valid (?px\<lparr>px_files := fs_map files\<rparr>) (p_memory p) ?n"
    using base(1) us_okD(2) [OF ok] l(5) n by (simp add: px_valid_def)
  have mm: "m_mem ?M1 = m_mem M" by (simp add: mounted_def)
  note st = represents_store [OF represents_mount [OF r l(9)] v _ m(2), unfolded mm n, OF order_refl m(4) m(3)]
  let ?M2 = "?M1\<lparr>m_mem := m\<rparr>" and ?p = "p\<lparr>p_last_error := KUSER_OK, p_last_syscall_error := KSYSCALL_OK\<rparr>"
  have M2: "?M2 = M\<lparr>m_mem := m, m_fs := kfs_mount (pr_fs_nodes prog) (pr_fs_node_count prog) (m_fs M)\<rparr>"
    by (simp add: mounted_def)
  have sp: "length (splice (px_mem ?px) 0 init) = 512"
    using us_okD(2) [OF ok] l(5) by (subst length_splice) simp_all
  have "px_store (p_memory p) init (?px\<lparr>px_files := fs_map files\<rparr>) = us_px (us_load us init files)"
    using base(1) by (simp add: px_store_def px_off_def us_load_def)
  then have "process_rel u0 pre files ?M2 ?p (us_load us init files)"
    using rel st(1) ok sp by (auto simp: process_rel_def us_load_def us_ok_def)
  from kuser_loop_refines [OF this l(2,3), of 0] obtain p' M' where
    lp: "kuser_loop ops (pr_op_count prog) 0 ?M2 ?p = Some (fst (spec_run (us_load us init files) ops), p', M')"
    "process_rel u0 pre files M' p' (snd (spec_run (us_load us init files) ops))"
    "process_frame ?M2 ?p M' p'" by auto
  have "process_frame ?M1 p ?M2 ?p" using st(2) by (simp add: process_frame_def)
  moreover have "kuser_run M (Some p) (Some prog) =
      Some (fst (spec_run (us_load us init files) ops), Some p', M')"
    using l(1,4,5) m(1) n lp(1) M2
    by (simp add: kuser_run_def KUSER_MEMORY_SIZE_def word_less_nat_alt)
  ultimately show ?thesis using lp(2,3) process_frame_trans by blast
qed

subsection \<open>A fresh process\<close>

definition us_init :: "u32 \<Rightarrow> ptr \<Rightarrow> entry list \<Rightarrow> uspec" where
  "us_init pid base files = \<lparr>
     us_px = \<lparr>px_pid = pid, px_base = base, px_mem = replicate 512 0, px_files = fs_map files,
              px_fds = Map.empty, px_out = []\<rparr>,
     us_slots = replicate 4 None, us_exit = None, us_err = KUSER_OK, us_sys = KSYSCALL_OK\<rparr>"

definition fresh_task :: "u32 \<Rightarrow> ptr \<Rightarrow> ptr \<Rightarrow> ptr \<Rightarrow> ktask" where
  "fresh_task pid base write_byte ctx = \<lparr>t_pid = pid, t_user_base = base, t_user_len = 512,
     t_write_byte = write_byte, t_write_ctx = ctx, t_files = replicate 8 0\<rparr>"

lemma us_ok_init: "us_ok (us_init pid base files)"
  by (auto simp: us_ok_def us_init_def slots_ok_def)

lemma files_rel_frame:
  assumes "files_rel files M t"
    and "\<And>q. \<not> in_range q (t_user_base t) (t_user_len t) \<Longrightarrow> m' q = m_mem M q"
  shows "files_rel files (M\<lparr>m_mem := m'\<rparr>) t"
proof -
  have iso: "isolated fs m' t node pth c" if "isolated fs (m_mem M) t node pth c" for fs node pth c
    using that assms(2) by (rule isolated_frame) simp_all
  then show ?thesis using assms(1)
    unfolding files_rel_def fs_rep_def entry_rep_def isolated_def
    by (auto split: option.splits if_splits prod.splits)
qed

lemma kuser_init_process_spec:
  assumes p: "p_memory p \<noteq> 0" "unat (p_memory p) + 512 < 2 ^ 64" "mapped (p_memory p) 512 (m_mem M)"
    and fl: "files_rel files M (fresh_task pid (p_memory p) wb ctx)"
    and sk: "sink_rel u0 pre (m_dev M) (fresh_task pid (p_memory p) wb ctx) []"
  shows "\<exists>p' M'. kuser_init_process M (Some p) pid wb ctx = Some (Some p', M') \<and>
    process_rel u0 pre files M' p' (us_init pid (p_memory p) files) \<and>
    p_task p' = fresh_task pid (p_memory p) wb ctx \<and> p_memory p' = p_memory p \<and>
    kernel_frame M (p_task p') M' (p_task p') \<and> m_dev M' = m_dev M"
proof -
  let ?t = "fresh_task pid (p_memory p) wb ctx"
  obtain m' where m': "kmemset (p_memory p) 0 512 (m_mem M) = Some (p_memory p, m')"
    "\<forall>q. m' q = (if in_range q (p_memory p) 512 then Some 0 else m_mem M q)"
    using kmemset_spec [OF p(1,3), of 0] by auto
  have "q \<in> dom m' \<longleftrightarrow> q \<in> dom (m_mem M)" for q
    using m'(2) p(3) by (cases "in_range q (p_memory p) 512") (auto simp: mapped_def)
  then have dm: "dom m' = dom (m_mem M)" by blast
  let ?M = "M\<lparr>m_mem := m'\<rparr>"
  have "holds m' (p_memory p) (replicate 512 0)"
    using m'(2) by (simp add: holds_iff in_range_offset word_less_nat_alt unat_of_nat64)
  then have "user_rel m' ?t (p_memory p) (replicate 512 0)"
    using p(1,2) by (simp add: user_rel_def fresh_task_def)
  moreover have "files_rel files ?M ?t"
    by (rule files_rel_frame [OF fl]) (use m'(2) in \<open>simp add: fresh_task_def\<close>)
  moreover have "fds_rel ?M ?t Map.empty" by (simp add: fds_rel_def open_file_def fresh_task_def)
  ultimately have rp: "represents u0 pre files ?M ?t (us_px (us_init pid (p_memory p) files))"
    using sk by (simp add: represents_def us_init_def fresh_task_def)
  let ?p = "\<lparr>p_task = ?t, p_memory = p_memory p, p_fd_slots = replicate 4 (- 1), p_exited = False,
    p_exit_status = 0, p_last_error = KUSER_OK, p_last_syscall_error = KSYSCALL_OK\<rparr>"
  have "kuser_init_process M (Some p) pid wb ctx = Some (Some ?p, ?M)"
    using m'(1) by (simp add: kuser_init_process_def struct_defs fresh_task_def)
  moreover have "process_rel u0 pre files ?M ?p (us_init pid (p_memory p) files)"
    using rp us_ok_init [of pid "p_memory p" files] by (simp add: process_rel_def us_init_def)
  moreover have "kernel_frame M ?t ?M ?t"
    using m'(2) dm by (simp add: kernel_frame_def fresh_task_def)
  ultimately show ?thesis by auto
qed

subsection \<open>Well-formed structures\<close>

lemma slot_word_unat: "fd < 8 \<Longrightarrow> unat (slot_word (Some fd)) = fd"
  by (simp add: unat_of_nat)

lemma slot_word_eq:
  assumes "fd < 8"
  shows "slot_word (Some fd) \<noteq> slot_word None" "fd' < 8 \<Longrightarrow> slot_word (Some fd) = slot_word (Some fd') \<Longrightarrow> fd = fd'"
proof -
  have "unat (- 1 :: u32) = 2 ^ 32 - 1" by (simp add: unsigned_minus_1_eq_mask mask_eq_exp_minus_1)
  with slot_word_unat [OF assms] assms show "slot_word (Some fd) \<noteq> slot_word None" by force
qed (metis assms slot_word_unat)

text \<open>What the invariant says of the structures themselves.\<close>

lemma slots_well_formed:
  assumes ok: "us_ok us" and fds: "fds_rel M t (px_fds (us_px us))"
  defines "ws \<equiv> map slot_word (us_slots us)"
  shows "length ws = 4" "length (t_files t) = 8"
    "i < 4 \<Longrightarrow> ws ! i = - 1 \<or> (\<exists>fd \<in> {3..<8}. ws ! i = of_nat fd \<and> f_used (t_files t ! fd))"
    "i < 4 \<Longrightarrow> j < 4 \<Longrightarrow> i \<noteq> j \<Longrightarrow> ws ! i = ws ! j \<Longrightarrow> ws ! i = - 1"
proof -
  show len: "length ws = 4" and "length (t_files t) = 8"
    using us_okD(1) [OF ok] fds by (simp_all add: ws_def fds_rel_def)
  have named: "fd \<in> {3..<8} \<and> f_used (t_files t ! fd)" if "i < 4" "us_slots us ! i = Some fd" for i fd
  proof -
    from ok that have "fd \<in> dom (px_fds (us_px us))" by (simp add: us_ok_def slots_ok_def)
    moreover from this us_okD(3) [OF ok] have "fd \<in> {3..<8}" by blast
    ultimately show ?thesis using fds by (auto simp: fds_rel_def open_file_def dest!: spec [of _ fd])
  qed
  have ws: "ws ! i = slot_word (us_slots us ! i)" if "i < 4" for i
    using that us_okD(1) [OF ok] by (simp add: ws_def)
  show "i < 4 \<Longrightarrow> ws ! i = - 1 \<or> (\<exists>fd \<in> {3..<8}. ws ! i = of_nat fd \<and> f_used (t_files t ! fd))"
    using ws [of i] named [of i] by (cases "us_slots us ! i") auto
  assume i: "i < 4" and j: "j < 4" and "i \<noteq> j" and eq: "ws ! i = ws ! j"
  show "ws ! i = - 1"
  proof (cases "us_slots us ! i")
    case (Some fd)
    with eq named [OF i] ws [OF i] ws [OF j] obtain fd' where fd': "us_slots us ! j = Some fd'"
      by (cases "us_slots us ! j") (use slot_word_eq(1) [of fd] in auto)
    with eq Some named [OF i] named [OF j] ws [OF i] ws [OF j] have "fd = fd'"
      by (intro slot_word_eq(2)) auto
    with ok i j Some fd' \<open>i \<noteq> j\<close> show ?thesis by (auto simp: us_ok_def slots_ok_def)
  qed (simp add: ws [OF i])
qed

end
