(* ===== verification/KInit.thy ===== *)
theory KInit
  imports Process
begin

section \<open>The built-in init program (init_* in kernel/user.c)\<close>

text \<open>
  The data of the init program, and what running it does. Its bytes and nodes are placed in
  memory by the linker: \<open>init_image\<close> names the addresses.
\<close>

record init_image =
  ii_memory :: ptr
  ii_motd :: ptr
  ii_path :: ptr
  ii_fs :: ptr

definition init_memory :: "u8 list" where
  "init_memory = string_bytes ''init: userspace online'' @ [10, 0] @ string_bytes ''/etc/motd'' @ [0] @
     replicate 16 0 @ replicate 16 0 @ [0]"

definition init_motd :: "u8 list" where
  "init_motd = string_bytes ''motd: hello from the in-memory filesystem'' @ [10]"

definition init_fs_node :: "init_image \<Rightarrow> kfs_node" where
  "init_fs_node img = \<lparr>node_path = ii_path img, node_data = ii_motd img,
     node_size = of_nat (length init_motd), node_mode = KFS_MODE_FILE\<rparr>"

definition INIT_MSG_OFF :: u32 where [struct_defs]: "INIT_MSG_OFF = 0"
definition INIT_MSG_LEN :: u32 where [struct_defs]: "INIT_MSG_LEN = 23"
definition INIT_PATH_OFF :: u32 where [struct_defs]: "INIT_PATH_OFF = 24"
definition INIT_PATH_LEN :: u32 where [struct_defs]: "INIT_PATH_LEN = 9"
definition INIT_BUFFER_OFF :: u32 where [struct_defs]: "INIT_BUFFER_OFF = 34"
definition INIT_BUFFER_LEN :: u32 where [struct_defs]: "INIT_BUFFER_LEN = 40"

definition zero_op :: kuser_op where
  "zero_op = \<lparr>op_opcode = 0, op_fd_slot = 0, op_offset = 0, op_len = 0, op_aux_offset = 0,
     op_aux_len = 0, op_exit_status = 0\<rparr>"

definition init_ops :: "kuser_op list" where
  "init_ops = [
     zero_op\<lparr>op_opcode := kuser_opcode_code KUSER_OP_WRITE, op_offset := INIT_MSG_OFF, op_len := INIT_MSG_LEN\<rparr>,
     zero_op\<lparr>op_opcode := kuser_opcode_code KUSER_OP_OPEN, op_fd_slot := 0, op_offset := INIT_PATH_OFF,
       op_len := INIT_PATH_LEN\<rparr>,
     zero_op\<lparr>op_opcode := kuser_opcode_code KUSER_OP_READ, op_fd_slot := 0, op_offset := INIT_BUFFER_OFF,
       op_len := INIT_BUFFER_LEN\<rparr>,
     zero_op\<lparr>op_opcode := kuser_opcode_code KUSER_OP_WRITE, op_offset := INIT_BUFFER_OFF,
       op_len := INIT_BUFFER_LEN\<rparr>,
     zero_op\<lparr>op_opcode := kuser_opcode_code KUSER_OP_CLOSE, op_fd_slot := 0\<rparr>,
     zero_op\<lparr>op_opcode := kuser_opcode_code KUSER_OP_EXIT, op_exit_status := 0\<rparr>]"

definition kuser_init_program :: "init_image \<Rightarrow> kuser_program" where
  "kuser_init_program img = \<lparr>pr_initial_memory = ii_memory img,
     pr_initial_memory_len = of_nat (length init_memory), pr_ops = Some init_ops,
     pr_op_count = of_nat (length init_ops), pr_fs_nodes = ii_fs img, pr_fs_node_count = 1\<rparr>"

subsection \<open>The abstract run\<close>

definition init_files :: "entry list" where
  "init_files = [Some (string_bytes ''/etc/motd'', init_motd)]"

definition init_message :: "u8 list" where
  "init_message = string_bytes ''init: userspace online'' @ [10]"

lemma init_run_test: "case spec_run (us_load (us_init 2 base []) init_memory init_files) init_ops of
  (e, us) \<Rightarrow> e = KUSER_OK \<and> us_exit us = Some 0 \<and> px_out (us_px us) = init_message @ take 40 init_motd"
  by code_simp

end
