(* ===== verification/KMain.thy ===== *)
theory KMain
  imports KInit
begin

section \<open>Booting (kernel_start in kernel/main.c)\<close>

text \<open>
  \<open>kernel_start\<close> from its first call to the halt. The addresses of static objects, of string
  literals and of the stack frame are an \<open>image\<close>; what \<open>static\<close> objects and the frame hold before
  they are written is arbitrary. The result is the machine in its halt loop.

  The lemma \<open>kernel_boots\<close> says what every boot of a well laid out image puts on the serial
  line, whatever the device answers, as long as it eventually accepts each byte.
\<close>

record image =
  im_lits :: literals
  im_banner_buffer :: ptr
  im_init :: init_image
  im_process :: kuser_process
  im_gdt_junk :: kx86_gdt_entry

definition klog_init :: "image \<Rightarrow> boot_tables \<Rightarrow> dev \<Rightarrow> (boot_tables \<times> dev) option" where
  "klog_init img bt d = arch_early_init (im_gdt_junk img) bt d"

text \<open>\<open>klog_writeln(text); arch_halt();\<close>\<close>

definition say_and_halt :: "image \<Rightarrow> string \<Rightarrow> machine \<Rightarrow> machine option" where
  "say_and_halt img text M = do {
     d \<leftarrow> klog_writeln (im_lits img text) (m_mem M) (m_dev M);
     Some (M\<lparr>m_dev := arch_halt d\<rparr>)
   }"

definition banner_text :: string where
  "banner_text = ''mini-kernel alive''"

definition start_init :: "image \<Rightarrow> machine \<Rightarrow> machine option" where
  "start_init img M = do {
     d \<leftarrow> klog_putc 10 (m_dev M);
     d \<leftarrow> klog_writeln (im_lits img ''syscall dispatcher online; launching init'') (m_mem M) d;
     (process, M) \<leftarrow> kuser_init_process (M\<lparr>m_dev := d\<rparr>) (Some (im_process img)) 2 0 0;
     (init_error, process, M) \<leftarrow> kuser_run M process (Some (kuser_init_program (im_init img)));
     p \<leftarrow> process;
     if init_error \<noteq> KUSER_OK \<or> \<not> p_exited p \<or> p_exit_status p \<noteq> 0
     then say_and_halt img ''init failed'' M
     else say_and_halt img ''init exited cleanly; entering secure halt loop'' M
   }"

definition kernel_start :: "image \<Rightarrow> boot_tables \<Rightarrow> machine \<Rightarrow> (boot_tables \<times> machine) option" where
  "kernel_start img bt M = do {
     (bt, d) \<leftarrow> klog_init img bt (m_dev M);
     let M = M\<lparr>m_dev := d\<rparr>; banner = im_lits img banner_text; buffer = im_banner_buffer img in do {
       n \<leftarrow> kstrlen banner (m_mem M);
       (copied, m) \<leftarrow> kmemcpy_checked buffer 64 banner (n + 1) (m_mem M);
       let M = M\<lparr>m_mem := m\<rparr> in do {
         M \<leftarrow> (if \<not> copied then say_and_halt img ''boot banner copy failed'' M
               else do {
                 user_len \<leftarrow> kstrlen buffer m;
                 arg2 \<leftarrow> kstrlen buffer m;
                 let init_task = \<lparr>t_pid = 1, t_user_base = buffer, t_user_len = user_len,
                       t_write_byte = 0, t_write_ctx = 0, t_files = replicate (unat KTASK_MAX_FILES) 0\<rparr>;
                     write_banner = \<lparr>r_nr = ksyscall_nr KSYSCALL_WRITE, r_arg0 = KSYSCALL_FD_STDOUT,
                       r_arg1 = buffer, r_arg2 = arg2, r_arg3 = 0, r_arg4 = 0, r_arg5 = 0\<rparr>
                 in do {
                   (write_result, _, M) \<leftarrow> ksyscall_dispatch M (Some init_task) (Some write_banner);
                   if sr_error write_result \<noteq> KSYSCALL_OK then say_and_halt img ''sys_write failed'' M
                   else start_init img M
                 }
               });
         Some (bt, M)
       }
     }
   }"

subsection \<open>A well laid out image\<close>

text \<open>The bytes the kernel only reads: they lie outside the two places it writes, the banner
  buffer and the memory of the init process.\<close>

definition read_only :: "image \<Rightarrow> mem \<Rightarrow> ptr \<Rightarrow> u8 list \<Rightarrow> bool" where
  "read_only img m p bs \<longleftrightarrow> p \<noteq> 0 \<and> holds m p bs \<and> length bs < 2 ^ 32 \<and>
     disjoint_ranges (im_banner_buffer img) 64 p (of_nat (length bs)) \<and>
     disjoint_ranges (p_memory (im_process img)) 512 p (of_nat (length bs))"

definition boot_literals :: "string list" where
  "boot_literals = [banner_text, ''syscall dispatcher online; launching init'',
     ''init exited cleanly; entering secure halt loop'']"

definition writable :: "ptr \<Rightarrow> usize \<Rightarrow> mem \<Rightarrow> bool" where
  "writable p n m \<longleftrightarrow> p \<noteq> 0 \<and> unat p + unat n < 2 ^ 64 \<and> mapped p n m"

definition image_ok :: "image \<Rightarrow> mem \<Rightarrow> kfs \<Rightarrow> bool" where
  "image_ok img m fs \<longleftrightarrow>
     (\<forall>s \<in> set boot_literals. read_only img m (im_lits img s) (string_bytes s @ [0])) \<and>
     read_only img m (ii_memory (im_init img)) init_memory \<and>
     read_only img m (ii_motd (im_init img)) init_motd \<and>
     read_only img m (ii_path (im_init img)) (string_bytes ''/etc/motd'' @ [0]) \<and>
     ii_fs (im_init img) \<noteq> 0 \<and> node_at fs (ii_fs (im_init img)) = Some (init_fs_node (im_init img)) \<and>
     writable (im_banner_buffer img) 64 m \<and> writable (p_memory (im_process img)) 512 m"

lemma image_okD:
  assumes "image_ok img m fs"
  shows "s \<in> set boot_literals \<Longrightarrow> read_only img m (im_lits img s) (string_bytes s @ [0])"
    "read_only img m (ii_memory (im_init img)) init_memory"
    "read_only img m (ii_motd (im_init img)) init_motd"
    "read_only img m (ii_path (im_init img)) (string_bytes ''/etc/motd'' @ [0])"
    "ii_fs (im_init img) \<noteq> 0" "node_at fs (ii_fs (im_init img)) = Some (init_fs_node (im_init img))"
    "writable (im_banner_buffer img) 64 m" "writable (p_memory (im_process img)) 512 m"
  using assms by (auto simp: image_ok_def)

text \<open>Writes to those two places leave the image as it was.\<close>

definition confined :: "image \<Rightarrow> mem \<Rightarrow> mem \<Rightarrow> bool" where
  "confined img m m' \<longleftrightarrow> dom m' = dom m \<and>
     (\<forall>q. \<not> in_range q (im_banner_buffer img) 64 \<and> \<not> in_range q (p_memory (im_process img)) 512 \<longrightarrow>
        m' q = m q)"

lemma read_only_confined:
  assumes "read_only img m p bs" "confined img m m'"
  shows "read_only img m' p bs"
proof -
  have "holds m p bs" "length bs < 2 ^ 64" using assms(1) by (auto simp: read_only_def)
  moreover have "m' (p + of_nat i) = m (p + of_nat i)" if "i < length bs" for i
    using assms disjoint_frame [OF _ \<open>length bs < 2 ^ 64\<close> that]
    by (simp add: read_only_def confined_def)
  ultimately show ?thesis using assms(1) holds_frame [of m p bs m'] by (simp add: read_only_def)
qed

lemma writable_confined: "writable p n m \<Longrightarrow> confined img m m' \<Longrightarrow> writable p n m'"
  unfolding writable_def confined_def using mapped_dom by blast

lemma image_ok_confined: "image_ok img m fs \<Longrightarrow> confined img m m' \<Longrightarrow> image_ok img m' fs"
  unfolding image_ok_def using read_only_confined writable_confined by blast

lemma string_bytes_append: "string_bytes (s @ t) = string_bytes s @ string_bytes t"
  by (simp add: string_bytes_def)

lemma boot_literals_ok:
  assumes "s \<in> set boot_literals"
  shows "0 \<notin> set (string_bytes s)" "10 \<notin> set (string_bytes s)"
proof -
  have "list_all (\<lambda>s. 0 \<notin> set (string_bytes s) \<and> 10 \<notin> set (string_bytes s)) boot_literals"
    by code_simp
  with assms show "0 \<notin> set (string_bytes s)" "10 \<notin> set (string_bytes s)"
    by (auto simp: list_all_iff)
qed

lemma literal_cstring:
  assumes "image_ok img m fs" "s \<in> set boot_literals"
  shows "cstring_at m (im_lits img s) (string_bytes s)"
  using image_okD(1) [OF assms] boot_literals_ok [OF assms(2)]
  by (simp add: read_only_def cstring_at_def)

subsection \<open>What a boot says\<close>

definition console_text :: "string \<Rightarrow> u8 list" where
  "console_text s = concat (map crlf (string_bytes s @ [10]))"

definition init_output :: "u8 list" where
  "init_output = concat (map crlf (init_message @ take 40 init_motd))"

definition boot_output :: "u8 list" where
  "boot_output = console_text banner_text @
     console_text ''syscall dispatcher online; launching init'' @ init_output @
     console_text ''init exited cleanly; entering secure halt loop''"

definition halted :: "dev \<Rightarrow> bool" where
  "halted d \<longleftrightarrow> trace d \<noteq> [] \<and> last (trace d) = Cli_hlt"

lemma halted_arch_halt: "halted (arch_halt d)" "uart_sent u0 (arch_halt d) = uart_sent u0 d"
  by (simp_all add: halted_def arch_halt_def uart_sent_def uart_of_emit)

lemma say_spec:
  assumes "image_ok img m fs" "s \<in> set boot_literals" "uart_ready u0 d"
  shows "\<exists>d'. klog_writeln (im_lits img s) m d = Some d' \<and> uart_ready u0 d' \<and>
    uart_sent u0 d' = uart_sent u0 d @ console_text s"
  using klog_writeln_cstring [OF literal_cstring [OF assms(1,2)] assms(3)]
  by (simp add: console_text_def crlf_def)

lemma say_and_halt_spec:
  assumes "image_ok img (m_mem M) (m_fs M)" "s \<in> set boot_literals" "uart_ready u0 (m_dev M)"
  shows "\<exists>M'. say_and_halt img s M = Some M' \<and> halted (m_dev M') \<and>
    uart_sent u0 (m_dev M') = uart_sent u0 (m_dev M) @ console_text s \<and> m_mem M' = m_mem M"
proof -
  obtain d' where "klog_writeln (im_lits img s) (m_mem M) (m_dev M) = Some d'"
    "uart_sent u0 d' = uart_sent u0 (m_dev M) @ console_text s" using say_spec [OF assms] by blast
  then show ?thesis by (simp add: say_and_halt_def halted_arch_halt)
qed

lemma confined_refl: "confined img m m"
  by (simp add: confined_def)

lemma confined_trans: "confined img m m' \<Longrightarrow> confined img m' m'' \<Longrightarrow> confined img m m''"
  by (simp add: confined_def)

lemma kernel_frame_confined:
  assumes "kernel_frame M t M' t'"
    and "\<And>q. in_range q (t_user_base t) (t_user_len t) \<Longrightarrow>
      in_range q (im_banner_buffer img) 64 \<or> in_range q (p_memory (im_process img)) 512"
  shows "confined img (m_mem M) (m_mem M')"
  using assms unfolding kernel_frame_def confined_def by blast

subsection \<open>The init process\<close>

lemma length_init: "length init_memory = 67" "length init_motd = 42" "length init_ops = 6"
  by code_simp+

lemma init_files_rel:
  assumes img: "image_ok img (m_mem M) (m_fs M)"
    and t: "(t_user_base t, t_user_len t) \<in> {(p_memory (im_process img), 512), (im_banner_buffer img, 64)}"
  shows "files_rel init_files (mounted M (kuser_init_program (im_init img))) t"
proof -
  let ?ii = "im_init img" and ?path = "string_bytes ''/etc/motd''"
  let ?M = "mounted M (kuser_init_program ?ii)"
  note i = image_okD [OF img]
  have fs: "mounted_nodes (m_fs ?M) = ii_fs ?ii" "mounted_count (m_fs ?M) = 1" "m_mem ?M = m_mem M"
    "node_at (m_fs ?M) = node_at (m_fs M)"
    by (simp_all add: mounted_def kfs_mount_def kuser_init_program_def)
  have pth: "0 \<notin> set ?path" "length ?path = 9" by code_simp+
  have nz: "ii_path ?ii \<noteq> 0" "ii_motd ?ii \<noteq> 0" using i(3,4) by (auto simp: read_only_def)
  have v: "valid_node (m_fs ?M) (ii_fs ?ii)"
    using i(5,6) nz fs(4) by (simp add: valid_node_def node_is_valid_def init_fs_node_def)
  have "cstring_at (m_mem M) (ii_path ?ii) ?path"
    using i(4) pth by (simp add: cstring_at_def read_only_def)
  moreover have "holds (m_mem M) (ii_motd ?ii) init_motd" using i(3) by (simp add: read_only_def)
  ultimately have nr: "node_rep (m_fs ?M) (m_mem ?M) (ii_fs ?ii) ?path init_motd"
    using v i(6) fs length_init(2) by (simp add: node_rep_def init_fs_node_def)
  have "disjoint_ranges (t_user_base t) (t_user_len t) (ii_path ?ii) (of_nat (length ?path + 1))"
    "disjoint_ranges (t_user_base t) (t_user_len t) (ii_motd ?ii) (of_nat (length init_motd))"
    using i(3,4) t by (auto simp: read_only_def)
  then have "isolated (m_fs ?M) (m_mem ?M) t (ii_fs ?ii) ?path init_motd"
    using nr i(6) fs(4) by (simp add: isolated_def init_fs_node_def)
  moreover have "node_ptr (m_fs ?M) 0 = ii_fs ?ii" by (simp add: node_ptr_def fs)
  moreover have "entry_rep (m_fs ?M) (m_mem ?M) (ii_fs ?ii) (Some (?path, init_motd))"
    using nr i(5) by (simp add: entry_rep_def)
  ultimately show ?thesis using i(5) fs(1,2)
    by (simp add: files_rel_def fs_rep_def init_files_def)
qed

lemma init_run:
  "\<exists>us. spec_run (us_load (us_init 2 base []) init_memory init_files) init_ops = (KUSER_OK, us) \<and>
     us_exit us = Some 0 \<and> px_out (us_px us) = init_message @ take 40 init_motd"
proof -
  have "case spec_run (us_load (us_init 2 base []) init_memory init_files) init_ops of
    (e, us) \<Rightarrow> e = KUSER_OK \<and> us_exit us = Some 0 \<and> px_out (us_px us) = init_message @ take 40 init_motd"
    by code_simp
  then show ?thesis by (auto split: prod.splits)
qed

lemma init_loadable:
  assumes img: "image_ok img (m_mem M) (m_fs M)" and p: "p_memory p = p_memory (im_process img)"
    and t: "p_task p = fresh_task 2 (p_memory p) 0 0"
  shows "loadable M p (kuser_init_program (im_init img)) init_ops init_memory init_files"
proof -
  have "files_rel init_files (mounted M (kuser_init_program (im_init img))) (p_task p)"
    by (rule init_files_rel [OF img]) (simp_all add: t p fresh_task_def)
  with image_okD(2) [OF img] show ?thesis
    by (simp add: loadable_def kuser_init_program_def read_only_def length_init p)
qed

lemma files_rel_unmounted: "mounted_nodes (m_fs M) = 0 \<Longrightarrow> files_rel [] M t"
  by (simp add: files_rel_def fs_rep_def)

lemma sink_rel_log: "uart_ready u0 d \<Longrightarrow> sink_rel u0 (uart_sent u0 d) d (fresh_task pid base 0 ctx) []"
  by (simp add: sink_rel_def fresh_task_def)

text \<open>Creating and running the init process, from any machine whose log works.\<close>

lemma init_process_spec:
  assumes img: "image_ok img (m_mem M) (m_fs M)" and un: "mounted_nodes (m_fs M) = 0"
    and rd: "uart_ready u0 (m_dev M)"
  shows "\<exists>p M1 p' M2. kuser_init_process M (Some (im_process img)) 2 0 0 = Some (Some p, M1) \<and>
    kuser_run M1 (Some p) (Some (kuser_init_program (im_init img))) = Some (KUSER_OK, Some p', M2) \<and>
    p_exited p' \<and> p_exit_status p' = 0 \<and> uart_ready u0 (m_dev M2) \<and>
    uart_sent u0 (m_dev M2) = uart_sent u0 (m_dev M) @ init_output \<and>
    confined img (m_mem M) (m_mem M2) \<and> node_at (m_fs M2) = node_at (m_fs M)"
proof -
  let ?prog = "kuser_init_program (im_init img)" and ?base = "p_memory (im_process img)"
  let ?pre = "uart_sent u0 (m_dev M)"
  have w: "?base \<noteq> 0" "unat ?base + 512 < 2 ^ 64" "mapped ?base 512 (m_mem M)"
    using image_okD(8) [OF img] by (simp_all add: writable_def)
  obtain p M1 where p: "kuser_init_process M (Some (im_process img)) 2 0 0 = Some (Some p, M1)"
    "process_rel u0 ?pre [] M1 p (us_init 2 ?base [])" "p_task p = fresh_task 2 ?base 0 0"
    "p_memory p = ?base" "kernel_frame M (p_task p) M1 (p_task p)"
    using kuser_init_process_spec [OF w files_rel_unmounted [OF un] sink_rel_log [OF rd]] by blast
  have c1: "confined img (m_mem M) (m_mem M1)"
    by (rule kernel_frame_confined [OF p(5)]) (simp add: p(3) fresh_task_def)
  have fs1: "m_fs M1 = m_fs M" using p(5) by (simp add: kernel_frame_def)
  have img1: "image_ok img (m_mem M1) (m_fs M1)" using image_ok_confined [OF img c1] fs1 by simp
  obtain us where us: "spec_run (us_load (us_init 2 ?base []) init_memory init_files) init_ops = (KUSER_OK, us)"
    "us_exit us = Some 0" "px_out (us_px us) = init_message @ take 40 init_motd"
    using init_run [of ?base] by blast
  have "loadable M1 p ?prog init_ops init_memory init_files"
    by (rule init_loadable [OF img1 p(4)]) (simp add: p(3,4))
  from kuser_run_refines [OF p(2) this] us(1) obtain p' M2 where r:
    "kuser_run M1 (Some p) (Some ?prog) = Some (KUSER_OK, Some p', M2)"
    "process_rel u0 ?pre init_files M2 p' us" "process_frame (mounted M1 ?prog) p M2 p'" by auto
  have kf: "kernel_frame (mounted M1 ?prog) (p_task p) M2 (p_task p')"
    using r(3) by (simp add: process_frame_def)
  have "confined img (m_mem (mounted M1 ?prog)) (m_mem M2)"
    by (rule kernel_frame_confined [OF kf]) (simp add: p(3) fresh_task_def)
  then have c2: "confined img (m_mem M) (m_mem M2)"
    using confined_trans [OF c1] by (simp add: mounted_def)
  have "t_write_byte (p_task p') = 0"
    using kf p(3) by (cases "p_task p'") (simp add: kernel_frame_def fresh_task_def)
  then have "uart_ready u0 (m_dev M2)" "uart_sent u0 (m_dev M2) = ?pre @ init_output"
    using representsD(6) [OF process_relD(1) [OF r(2)]] us(3) by (simp_all add: sink_rel_def init_output_def)
  moreover have "p_exited p'" "p_exit_status p' = 0"
    using r(2) us(2) by (simp_all add: process_rel_def)
  moreover have "node_at (m_fs M2) = node_at (m_fs M)"
    using kf fs1 by (simp add: kernel_frame_def mounted_def kfs_mount_def)
  ultimately show ?thesis using p(1) r(1) c2 by blast
qed

lemma start_init_spec:
  assumes img: "image_ok img (m_mem M) (m_fs M)" and un: "mounted_nodes (m_fs M) = 0"
    and rd: "uart_ready u0 (m_dev M)"
  shows "\<exists>M'. start_init img M = Some M' \<and> halted (m_dev M') \<and>
    uart_sent u0 (m_dev M') = uart_sent u0 (m_dev M) @ [13, 10] @
      console_text ''syscall dispatcher online; launching init'' @ init_output @
      console_text ''init exited cleanly; entering secure halt loop'' \<and>
    confined img (m_mem M) (m_mem M')"
proof -
  let ?s1 = "''syscall dispatcher online; launching init''"
    and ?s2 = "''init exited cleanly; entering secure halt loop''"
  have lit: "?s1 \<in> set boot_literals" "?s2 \<in> set boot_literals" by (simp_all add: boot_literals_def)
  obtain d1 where d1: "klog_putc 10 (m_dev M) = Some d1" "uart_ready u0 d1"
    "uart_sent u0 d1 = uart_sent u0 (m_dev M) @ [13, 10]"
    using klog.put_emits [OF rd, of 10] by (auto simp: crlf_def)
  obtain d2 where d2: "klog_writeln (im_lits img ?s1) (m_mem M) d1 = Some d2" "uart_ready u0 d2"
    "uart_sent u0 d2 = uart_sent u0 d1 @ console_text ?s1"
    using say_spec [OF img lit(1) d1(2)] by blast
  let ?M = "M\<lparr>m_dev := d2\<rparr>"
  obtain p M1 p' M2 where r: "kuser_init_process ?M (Some (im_process img)) 2 0 0 = Some (Some p, M1)"
    "kuser_run M1 (Some p) (Some (kuser_init_program (im_init img))) = Some (KUSER_OK, Some p', M2)"
    "p_exited p'" "p_exit_status p' = 0" "uart_ready u0 (m_dev M2)"
    "uart_sent u0 (m_dev M2) = uart_sent u0 d2 @ init_output"
    "confined img (m_mem M) (m_mem M2)" "node_at (m_fs M2) = node_at (m_fs M)"
    using init_process_spec [of img ?M u0] img un d2(2) by auto
  have "image_ok img (m_mem M2) (m_fs M)" by (rule image_ok_confined [OF img r(7)])
  then have "image_ok img (m_mem M2) (m_fs M2)" using r(8) unfolding image_ok_def by simp
  from say_and_halt_spec [OF this lit(2) r(5)] obtain M' where M': "say_and_halt img ?s2 M2 = Some M'"
    "halted (m_dev M')" "uart_sent u0 (m_dev M') = uart_sent u0 (m_dev M2) @ console_text ?s2"
    "m_mem M' = m_mem M2" by blast
  have "start_init img M = Some M'"
    unfolding start_init_def by (simp only: d1(1) d2(1) r(1-4) M'(1) bind.bind_lunit prod.case
        simp_thms if_False)
  with M' r(6,7) d1(3) d2(3) show ?thesis by simp
qed

subsection \<open>The banner\<close>

lemma banner_represents:
  assumes "mounted_nodes (m_fs M) = 0" "uart_ready u0 (m_dev M)"
    and "buf \<noteq> 0" "unat buf + length b < 2 ^ 64" "holds (m_mem M) buf b"
  shows "represents u0 (uart_sent u0 (m_dev M)) [] M
    \<lparr>t_pid = 1, t_user_base = buf, t_user_len = of_nat (length b), t_write_byte = 0, t_write_ctx = 0,
     t_files = replicate 8 0\<rparr>
    \<lparr>px_pid = 1, px_base = buf, px_mem = b, px_files = Map.empty, px_fds = Map.empty, px_out = []\<rparr>"
  using assms files_rel_unmounted [OF assms(1)] unat_of_nat64 [of "length b"]
  by (simp add: represents_def user_rel_def sink_rel_def fds_rel_def open_file_def)

lemma banner_call:
  assumes "unat buf + length b < 2 ^ 64"
  shows "posix_call \<lparr>px_pid = 1, px_base = buf, px_mem = b, px_files = Map.empty, px_fds = Map.empty, px_out = []\<rparr>
      \<lparr>r_nr = ksyscall_nr KSYSCALL_WRITE, r_arg0 = KSYSCALL_FD_STDOUT, r_arg1 = buf,
       r_arg2 = of_nat (length b), r_arg3 = 0, r_arg4 = 0, r_arg5 = 0\<rparr> =
    (\<lparr>px_pid = 1, px_base = buf, px_mem = b, px_files = Map.empty, px_fds = Map.empty, px_out = b\<rparr>,
     px_ok (of_nat (length b)))"
  using assms unat_of_nat64 [of "length b"]
  by (simp add: posix_call_def px_write_def px_valid_def px_slice_def px_off_def struct_defs)

lemma banner_written:
  assumes img: "image_ok img (m_mem M) (m_fs M)" and un: "mounted_nodes (m_fs M) = 0"
    and rd: "uart_ready u0 (m_dev M)" and b: "b = string_bytes banner_text"
    and h: "holds (m_mem M) (im_banner_buffer img) b"
    and t: "t = \<lparr>t_pid = 1, t_user_base = im_banner_buffer img, t_user_len = of_nat (length b),
      t_write_byte = 0, t_write_ctx = 0, t_files = replicate 8 0\<rparr>"
    and r: "r = \<lparr>r_nr = ksyscall_nr KSYSCALL_WRITE, r_arg0 = KSYSCALL_FD_STDOUT,
      r_arg1 = im_banner_buffer img, r_arg2 = of_nat (length b), r_arg3 = 0, r_arg4 = 0, r_arg5 = 0\<rparr>"
  shows "\<exists>t' M'. ksyscall_dispatch M (Some t) (Some r) = Some (px_ok (of_nat (length b)), t', M') \<and>
    uart_ready u0 (m_dev M') \<and> uart_sent u0 (m_dev M') = uart_sent u0 (m_dev M) @ concat (map crlf b) \<and>
    confined img (m_mem M) (m_mem M') \<and> m_fs M' = m_fs M"
proof -
  have len: "length b = 17" unfolding b by code_simp
  have w: "im_banner_buffer img \<noteq> 0" "unat (im_banner_buffer img) + length b < 2 ^ 64"
    using image_okD(7) [OF img] len by (simp_all add: writable_def)
  note rep = banner_represents [OF un rd w h, folded t]
  from dispatch_follows [OF rep, of r, unfolded r banner_call [OF w(2)], folded r]
  obtain t' M' where d: "ksyscall_dispatch M (Some t) (Some r) = Some (px_ok (of_nat (length b)), Some t', M')"
    "represents u0 (uart_sent u0 (m_dev M)) [] M' t'
      \<lparr>px_pid = 1, px_base = im_banner_buffer img, px_mem = b, px_files = Map.empty,
       px_fds = Map.empty, px_out = b\<rparr>"
    "kernel_frame M t M' t'" by (auto simp: follows_def)
  have "t_write_byte t' = 0" using d(3) by (cases t') (simp add: kernel_frame_def t)
  then have "uart_ready u0 (m_dev M')"
    "uart_sent u0 (m_dev M') = uart_sent u0 (m_dev M) @ concat (map crlf b)"
    using representsD(6) [OF d(2)] by (simp_all add: sink_rel_def)
  moreover have "confined img (m_mem M) (m_mem M')"
  proof (rule kernel_frame_confined [OF d(3)])
    fix q assume "in_range q (t_user_base t) (t_user_len t)"
    then have "in_range q (im_banner_buffer img) 64"
      using in_range_mono [of q "im_banner_buffer img" 17 64] by (simp add: t len)
    then show "in_range q (im_banner_buffer img) 64 \<or> in_range q (p_memory (im_process img)) 512" ..
  qed
  moreover have "m_fs M' = m_fs M" using d(3) by (simp add: kernel_frame_def)
  ultimately show ?thesis using d(1) by blast
qed

lemma banner_copied:
  assumes img: "image_ok img m fs" and b: "b = string_bytes banner_text"
  shows "\<exists>m'. kstrlen (im_lits img banner_text) m = Some (of_nat (length b)) \<and>
    kmemcpy_checked (im_banner_buffer img) 64 (im_lits img banner_text) (of_nat (length b) + 1) m =
      Some (True, m') \<and>
    cstring_at m' (im_banner_buffer img) b \<and> confined img m m'"
proof -
  have lit: "banner_text \<in> set boot_literals" by (simp add: boot_literals_def)
  note cs = literal_cstring [OF img lit, folded b]
  have len: "length b = 17" unfolding b by code_simp
  have ro: "im_lits img banner_text \<noteq> 0" "holds m (im_lits img banner_text) (b @ [0])"
    "disjoint_ranges (im_banner_buffer img) 64 (im_lits img banner_text) (of_nat (length (b @ [0])))"
    using image_okD(1) [OF img lit] by (simp_all add: read_only_def b)
  have w: "im_banner_buffer img \<noteq> 0" "mapped (im_banner_buffer img) 64 m"
    using image_okD(7) [OF img] by (simp_all add: writable_def)
  have "length (b @ [0]) < 2 ^ 64" "(of_nat (length (b @ [0])) :: u64) \<le> 64" by (simp_all add: len)
  from kmemcpy_checked_exact [OF w(1) ro(1) w(2) ro(2) this ro(3)] obtain m' where m':
    "kmemcpy_checked (im_banner_buffer img) 64 (im_lits img banner_text) (of_nat (length (b @ [0]))) m =
      Some (True, m')" "holds m' (im_banner_buffer img) (b @ [0])" "dom m' = dom m"
    "\<forall>q. \<not> in_range q (im_banner_buffer img) (of_nat (length (b @ [0]))) \<longrightarrow> m' q = m q" by blast
  have "confined img m m'"
    unfolding confined_def
  proof (intro conjI allI impI)
    fix q assume "\<not> in_range q (im_banner_buffer img) 64 \<and> \<not> in_range q (p_memory (im_process img)) 512"
    then have "\<not> in_range q (im_banner_buffer img) 18" using in_range_mono [of q _ 18 64] by auto
    then show "m' q = m q" using m'(4) by (simp add: len)
  qed (rule m'(3))
  moreover have "cstring_at m' (im_banner_buffer img) b"
    using m'(2) w(1) cs by (simp add: cstring_at_def)
  moreover have "(of_nat (length (b @ [0])) :: u64) = of_nat (length b) + 1" by simp
  ultimately show ?thesis using kstrlen_spec [OF cs] m'(1) by metis
qed

lemma console_banner: "console_text banner_text = concat (map crlf (string_bytes banner_text)) @ [13, 10]"
  by (simp add: console_text_def crlf_def)

lemma kernel_start_spec:
  assumes img: "image_ok img (m_mem M) (m_fs M)" and un: "mounted_nodes (m_fs M) = 0"
    and live: "uart_live (m_dev M)"
    and bt: "length (boot_gdt bt) = 5" "length (boot_idt bt) = 256" "boot_gdt_addr bt \<noteq> 0" "boot_idt_addr bt \<noteq> 0"
  shows "\<exists>bt' M'. kernel_start img bt M = Some (bt', M') \<and> boot_tables_ready bt' \<and> halted (m_dev M') \<and>
    uart_sent u0 (m_dev M') = uart_sent u0 (m_dev M) @ boot_output \<and> confined img (m_mem M) (m_mem M')"
proof -
  let ?buf = "im_banner_buffer img"
  obtain b where b: "b = string_bytes banner_text" by blast
  obtain bt' d1 where i: "klog_init img bt (m_dev M) = Some (bt', d1)" "boot_tables_ready bt'"
    "uart_ready u0 d1" "uart_sent u0 d1 = uart_sent u0 (m_dev M)"
    using early_init_spec [OF bt live] unfolding klog_init_def by blast
  obtain m where m: "kstrlen (im_lits img banner_text) (m_mem M) = Some (of_nat (length b))"
    "kmemcpy_checked ?buf 64 (im_lits img banner_text) (of_nat (length b) + 1) (m_mem M) = Some (True, m)"
    "cstring_at m ?buf b" "confined img (m_mem M) m"
    using banner_copied [OF img b] by blast
  let ?M1 = "M\<lparr>m_dev := d1, m_mem := m\<rparr>"
  have img1: "image_ok img (m_mem ?M1) (m_fs ?M1)" using image_ok_confined [OF img m(4)] by simp
  obtain t' M2 where d: "ksyscall_dispatch ?M1
      (Some \<lparr>t_pid = 1, t_user_base = ?buf, t_user_len = of_nat (length b), t_write_byte = 0,
        t_write_ctx = 0, t_files = replicate 8 0\<rparr>)
      (Some \<lparr>r_nr = ksyscall_nr KSYSCALL_WRITE, r_arg0 = KSYSCALL_FD_STDOUT, r_arg1 = ?buf,
        r_arg2 = of_nat (length b), r_arg3 = 0, r_arg4 = 0, r_arg5 = 0\<rparr>) =
      Some (px_ok (of_nat (length b)), t', M2)" "uart_ready u0 (m_dev M2)"
    "uart_sent u0 (m_dev M2) = uart_sent u0 d1 @ concat (map crlf b)"
    "confined img m (m_mem M2)" "m_fs M2 = m_fs M"
    using banner_written [OF img1 _ _ b _ refl refl, of u0] un i(3) cstring_holds [OF m(3)] by auto
  have "image_ok img (m_mem M2) (m_fs M2)"
    using image_ok_confined [OF image_ok_confined [OF img m(4)] d(4)] d(5) by simp
  from start_init_spec [OF this _ d(2)] un d(5) obtain M' where s: "start_init img M2 = Some M'"
    "halted (m_dev M')" "uart_sent u0 (m_dev M') = uart_sent u0 (m_dev M2) @ [13, 10] @
      console_text ''syscall dispatcher online; launching init'' @ init_output @
      console_text ''init exited cleanly; entering secure halt loop''"
    "confined img (m_mem M2) (m_mem M')" by auto
  have files8: "unat KTASK_MAX_FILES = 8" by (simp add: KTASK_MAX_FILES_def)
  have ok: "sr_error (px_ok v) = KSYSCALL_OK" for v by (simp add: ksyscall_result_of_def)
  have "kernel_start img bt M = Some (bt', M')"
    unfolding kernel_start_def Let_def
    by (simp add: i(1) m(1,2) kstrlen_spec [OF m(3)] files8 d(1) ok s(1))
  moreover have "confined img (m_mem M) (m_mem M')"
    using confined_trans [OF confined_trans [OF m(4) d(4)] s(4)] .
  moreover have "uart_sent u0 (m_dev M') = uart_sent u0 (m_dev M) @ boot_output"
    using s(3) d(3) i(4) by (simp add: boot_output_def console_banner b)
  ultimately show ?thesis using i(2) s(2) by blast
qed

end
