(* ===== verification/Sample.thy ===== *)
theory Sample
  imports KMain
begin

section \<open>A concrete machine\<close>

text \<open>
  A small memory layout, a filesystem with one node, a task, a process and a serial port that
  is always ready. The theorems of the development that have hypotheses are applied to it, which
  shows that the hypotheses can hold together.
\<close>

subsection \<open>Memory given by regions\<close>

fun region_mem :: "(ptr \<times> u8 list) list \<Rightarrow> mem" where
  "region_mem [] q = None"
| "region_mem ((p, bs) # rs) q = (if unat (q - p) < length bs then Some (bs ! unat (q - p)) else region_mem rs q)"

definition apart :: "ptr \<Rightarrow> nat \<Rightarrow> ptr \<Rightarrow> nat \<Rightarrow> bool" where
  "apart p n q k \<longleftrightarrow> (unat p + n \<le> unat q \<and> unat q + k < 2 ^ 64) \<or> (unat q + k \<le> unat p \<and> unat p + n < 2 ^ 64)"

fun region_at :: "(ptr \<times> u8 list) list \<Rightarrow> ptr \<Rightarrow> u8 list \<Rightarrow> bool" where
  "region_at [] p bs = False"
| "region_at ((q, cs) # rs) p bs =
     (if q = p then cs = bs else apart q (length cs) p (length bs) \<and> region_at rs p bs)"

lemma range_unat:
  fixes p q :: ptr
  assumes "unat (q - p) < n" "unat p + n < 2 ^ 64"
  shows "unat p \<le> unat q \<and> unat q < unat p + n"
proof -
  have "unat (q - p + p) = unat (q - p) + unat p"
    by (rule unat_plus_no_overflow) (use assms in linarith)
  with assms show ?thesis by simp
qed

lemma apart_bytes:
  assumes "apart p n q k" "unat (a - p) < n" "unat (a - q) < k"
  shows False
proof (cases "unat p + n \<le> unat q \<and> unat q + k < 2 ^ 64")
  case True
  with range_unat [OF assms(3)] have "unat p + n \<le> unat a" by linarith
  moreover from True have "unat p + n < 2 ^ 64" using unat_lt_64 [of q] by linarith
  ultimately show False using range_unat [OF assms(2)] by linarith
next
  case False
  with assms(1) have h: "unat q + k \<le> unat p" "unat p + n < 2 ^ 64" by (auto simp: apart_def)
  then have "unat q + k < 2 ^ 64" using unat_lt_64 [of p] by linarith
  with range_unat [OF assms(3)] range_unat [OF assms(2) h(2)] h show False by linarith
qed

lemma apart_disjoint:
  assumes "apart p n q k" "n < 2 ^ 64" "k < 2 ^ 64"
  shows "disjoint_ranges p (of_nat n) q (of_nat k)"
  using apart_bytes [OF assms(1)] assms(2,3)
  by (auto simp: disjoint_ranges_def in_range_def word_less_nat_alt unat_of_nat64)

lemma region_holds: "region_at rs p bs \<Longrightarrow> length bs < 2 ^ 64 \<Longrightarrow> holds (region_mem rs) p bs"
proof (induction rs)
  case (Cons r rs)
  obtain q cs where r: "r = (q, cs)" by (cases r)
  show ?case
  proof (cases "q = p")
    case True
    with Cons.prems r show ?thesis by (simp add: holds_iff unat_of_nat64)
  next
    case False
    with Cons r have h: "holds (region_mem rs) p bs" "apart q (length cs) p (length bs)" by simp_all
    have "region_mem (r # rs) (p + of_nat i) = region_mem rs (p + of_nat i)" if "i < length bs" for i
    proof -
      have "unat (p + of_nat i - p) < length bs" using that Cons.prems(2) by (simp add: unat_of_nat64)
      with apart_bytes [OF h(2)] have "\<not> unat (p + of_nat i - q) < length cs" by blast
      with r show ?thesis by simp
    qed
    with holds_frame [OF h(1)] show ?thesis by blast
  qed
qed simp

subsection \<open>The layout\<close>

definition sample_lits :: literals where
  "sample_lits s =
     (if s = banner_text then 0x1000
      else if s = ''syscall dispatcher online; launching init'' then 0x1020
      else if s = ''init exited cleanly; entering secure halt loop'' then 0x1060
      else 0)"

definition sample_init :: init_image where
  "sample_init = \<lparr>ii_memory = 0x10a0, ii_motd = 0x1100, ii_path = 0x1140, ii_fs = 0x5000\<rparr>"

definition sample_user :: "u8 list" where
  "sample_user = string_bytes ''/etc/motd'' @ replicate 503 0"

definition sample_regions :: "(ptr \<times> u8 list) list" where
  "sample_regions = [
     (0x1000, string_bytes banner_text @ [0]),
     (0x1020, string_bytes ''syscall dispatcher online; launching init'' @ [0]),
     (0x1060, string_bytes ''init exited cleanly; entering secure halt loop'' @ [0]),
     (0x10a0, init_memory),
     (0x1100, init_motd),
     (0x1140, string_bytes ''/etc/motd'' @ [0]),
     (0x2000, replicate 64 0),
     (0x3000, sample_user)]"

definition sample_mem :: mem where
  "sample_mem = region_mem sample_regions"

definition sample_fs :: kfs where
  "sample_fs = \<lparr>node_at = [0x5000 \<mapsto> init_fs_node sample_init], mounted_nodes = 0, mounted_count = 0\<rparr>"

definition sample_dev :: dev where
  "sample_dev = \<lparr>port_in = (\<lambda>_ _. 0x20), reads = 0, trace = []\<rparr>"

definition sample_uart :: uart where
  "sample_uart = \<lparr>u_ier = 0, u_fcr = 0, u_lcr = 0, u_mcr = 0, u_dll = 0, u_dlm = 0, u_sent = []\<rparr>"

definition sample_machine :: machine where
  "sample_machine = \<lparr>m_mem = sample_mem, m_fs = sample_fs, m_dev = sample_dev\<rparr>"

definition sample_process :: kuser_process where
  "sample_process = \<lparr>p_task = fresh_task 2 0x3000 0 0, p_memory = 0x3000, p_fd_slots = replicate 4 (- 1),
     p_exited = False, p_exit_status = 0, p_last_error = KUSER_OK, p_last_syscall_error = KSYSCALL_OK\<rparr>"

definition sample_image :: image where
  "sample_image = \<lparr>im_lits = sample_lits, im_banner_buffer = 0x2000, im_init = sample_init,
     im_process = sample_process, im_gdt_junk = 0\<rparr>"

definition sample_tables :: boot_tables where
  "sample_tables = \<lparr>boot_gdt_addr = 0x6000, boot_gdt = replicate 5 0, boot_idt_addr = 0x7000,
     boot_idt = replicate 256 0\<rparr>"

text \<open>The regions are pairwise apart; each is where the table says.\<close>

lemma length_string_bytes [simp]: "length (string_bytes s) = length s"
  by (simp add: string_bytes_def)

lemma length_sample_user: "length sample_user = 512"
  by (simp add: sample_user_def)

lemmas sample_lengths = length_init length_sample_user banner_text_def

lemma sample_regions_at: "list_all (\<lambda>(p, bs). region_at sample_regions p bs \<and> length bs < 600) sample_regions"
  by (simp add: sample_regions_def apart_def sample_lengths)

lemma sample_region:
  assumes "(p, bs) \<in> set sample_regions"
  shows "holds sample_mem p bs" "length bs < 600"
proof -
  from sample_regions_at assms have h: "region_at sample_regions p bs" "length bs < 600"
    by (auto simp: list_all_iff)
  then show "holds sample_mem p bs" "length bs < 600"
    unfolding sample_mem_def by (auto intro: region_holds)
qed

lemma sample_apart:
  "list_all (\<lambda>(p, bs). apart 0x2000 64 p (length bs) \<and> apart 0x3000 512 p (length bs)) (take 6 sample_regions)"
  by (simp add: sample_regions_def apart_def sample_lengths)

lemma sample_read_only:
  assumes "(p, bs) \<in> set (take 6 sample_regions)" "p \<noteq> 0"
  shows "read_only sample_image sample_mem p bs"
proof -
  have s: "(p, bs) \<in> set sample_regions" using assms(1) by (rule in_set_takeD)
  have "apart 0x2000 64 p (length bs)" "apart 0x3000 512 p (length bs)"
    using sample_apart assms(1) by (auto simp: list_all_iff)
  with sample_region [OF s] assms(2) show ?thesis
    using apart_disjoint [of "0x2000" 64 p "length bs"] apart_disjoint [of "0x3000" 512 p "length bs"]
    by (simp add: read_only_def sample_image_def sample_process_def)
qed

lemma sample_writable: "writable 0x2000 64 sample_mem" "writable 0x3000 512 sample_mem"
proof -
  note length_sample_user
  moreover have "holds sample_mem 0x2000 (replicate 64 0)" "holds sample_mem 0x3000 sample_user"
    by (rule sample_region(1), simp add: sample_regions_def)+
  ultimately show "writable 0x2000 64 sample_mem" "writable 0x3000 512 sample_mem"
    using holds_mapped [of sample_mem "0x2000" "replicate 64 0"] holds_mapped [of sample_mem "0x3000" sample_user]
    by (simp_all add: writable_def)
qed

lemma sample_image_ok: "image_ok sample_image sample_mem sample_fs"
proof -
  have a: "im_banner_buffer sample_image = 0x2000" "p_memory (im_process sample_image) = 0x3000"
    "im_init sample_image = sample_init" by (simp_all add: sample_image_def sample_process_def)
  have ro: "read_only sample_image sample_mem p bs"
    if "(p, bs) \<in> set (take 6 sample_regions)" "p \<noteq> 0" for p bs
    using that by (rule sample_read_only)
  have "read_only sample_image sample_mem (im_lits sample_image s) (string_bytes s @ [0])"
    if "s \<in> set boot_literals" for s
    using that by (auto simp: boot_literals_def intro!: ro)
      (simp_all add: sample_image_def sample_lits_def banner_text_def sample_regions_def)
  moreover have "read_only sample_image sample_mem (ii_memory sample_init) init_memory"
    "read_only sample_image sample_mem (ii_motd sample_init) init_motd"
    "read_only sample_image sample_mem (ii_path sample_init) (string_bytes ''/etc/motd'' @ [0])"
    by (rule ro; simp add: sample_init_def sample_regions_def)+
  moreover have "ii_fs sample_init \<noteq> 0"
    "node_at sample_fs (ii_fs sample_init) = Some (init_fs_node sample_init)"
    by (simp_all add: sample_init_def sample_fs_def)
  ultimately show ?thesis using sample_writable unfolding image_ok_def a by blast
qed

lemma sample_unmounted: "mounted_nodes sample_fs = 0"
  by (simp add: sample_fs_def)

lemma sample_live: "uart_live sample_dev"
  by (auto simp: uart_live_def sample_dev_def)

lemma sample_uart_of: "uart_of sample_uart sample_dev = sample_uart"
  by (simp add: uart_of_def sample_dev_def)

lemma sample_ready: "uart_ready sample_uart sample_dev" "uart_sent sample_uart sample_dev = []"
  using sample_live by (simp_all add: uart_ready_def sample_uart_of uart_sent_def)
    (simp_all add: sample_uart_def)

text \<open>The filesystem mounted, and the task in it.\<close>

definition sample_mounted :: machine where
  "sample_mounted = mounted sample_machine (kuser_init_program sample_init)"

definition sample_task :: ktask where
  "sample_task = fresh_task 2 0x3000 0 0"

definition sample_posix :: posix where
  "sample_posix = \<lparr>px_pid = 2, px_base = 0x3000, px_mem = sample_user, px_files = fs_map init_files,
     px_fds = Map.empty, px_out = []\<rparr>"

lemma sample_user_rel: "user_rel sample_mem sample_task 0x3000 sample_user"
proof -
  have "holds sample_mem 0x3000 sample_user" by (rule sample_region(1)) (simp add: sample_regions_def)
  then show ?thesis by (simp add: user_rel_def sample_task_def fresh_task_def length_sample_user)
qed

lemma sample_files_rel: "files_rel init_files sample_mounted sample_task"
  using init_files_rel [of sample_image sample_machine sample_task] sample_image_ok
  by (simp add: sample_machine_def sample_task_def fresh_task_def sample_mounted_def)
     (simp add: sample_image_def sample_process_def)

lemma sample_represents: "represents sample_uart [] init_files sample_mounted sample_task sample_posix"
proof -
  have "fds_rel sample_mounted sample_task Map.empty"
    by (simp add: fds_rel_def open_file_def sample_task_def fresh_task_def)
  moreover have "sink_rel sample_uart [] sample_dev sample_task []"
    using sample_ready by (simp add: sink_rel_def sample_task_def fresh_task_def)
  ultimately show ?thesis using sample_user_rel sample_files_rel
    by (simp add: represents_def sample_posix_def)
       (simp add: sample_mounted_def mounted_def sample_machine_def sample_task_def fresh_task_def)
qed

text \<open>A second task, in the banner buffer, as \<open>kernel_start\<close> makes one.\<close>

definition banner_task :: ktask where
  "banner_task = \<lparr>t_pid = 1, t_user_base = 0x2000, t_user_len = 64, t_write_byte = 0, t_write_ctx = 0,
     t_files = replicate 8 0\<rparr>"

definition banner_posix :: posix where
  "banner_posix = \<lparr>px_pid = 1, px_base = 0x2000, px_mem = replicate 64 0, px_files = fs_map init_files,
     px_fds = Map.empty, px_out = []\<rparr>"

lemma banner_task_represents: "represents sample_uart [] init_files sample_mounted banner_task banner_posix"
proof -
  have "holds sample_mem 0x2000 (replicate 64 0)" by (rule sample_region(1)) (simp add: sample_regions_def)
  then have "user_rel sample_mem banner_task 0x2000 (replicate 64 0)"
    by (simp add: user_rel_def banner_task_def)
  moreover have "files_rel init_files sample_mounted banner_task"
    using init_files_rel [of sample_image sample_machine banner_task] sample_image_ok
    by (simp add: sample_machine_def banner_task_def sample_mounted_def)
       (simp add: sample_image_def sample_process_def)
  moreover have "fds_rel sample_mounted banner_task Map.empty"
    by (simp add: fds_rel_def open_file_def banner_task_def)
  moreover have "sink_rel sample_uart [] sample_dev banner_task []"
    using sample_ready by (simp add: sink_rel_def banner_task_def)
  ultimately show ?thesis
    by (simp add: represents_def banner_posix_def)
       (simp add: sample_mounted_def mounted_def sample_machine_def banner_task_def)
qed

text \<open>The same task as a process, with the filesystem it is about to be given.\<close>

definition sample_us :: uspec where
  "sample_us = (us_init 2 0x3000 [])\<lparr>us_px := sample_posix\<lparr>px_files := Map.empty\<rparr>\<rparr>"

lemma sample_process_rel: "process_rel sample_uart [] [] sample_machine sample_process sample_us"
proof -
  have "fds_rel sample_machine sample_task Map.empty"
    by (simp add: fds_rel_def open_file_def sample_task_def fresh_task_def)
  moreover have "sink_rel sample_uart [] sample_dev sample_task []"
    using sample_ready by (simp add: sink_rel_def sample_task_def fresh_task_def)
  moreover have "files_rel [] sample_machine sample_task"
    by (rule files_rel_unmounted) (simp add: sample_machine_def sample_fs_def)
  ultimately have rp: "represents sample_uart [] [] sample_machine sample_task (sample_posix\<lparr>px_files := Map.empty\<rparr>)"
    using sample_user_rel
    by (simp add: represents_def sample_posix_def)
       (simp add: sample_machine_def sample_task_def fresh_task_def)
  have "us_ok sample_us"
    using us_ok_init [of 2 "0x3000" "[]"] length_sample_user
    by (simp add: us_ok_def sample_us_def us_init_def sample_posix_def)
  with rp show ?thesis
    by (simp add: process_rel_def sample_us_def us_init_def sample_process_def sample_task_def [symmetric])
       (simp add: sample_posix_def)
qed

lemma sample_loadable:
  "loadable sample_machine sample_process (kuser_init_program sample_init) init_ops init_memory init_files"
  using init_loadable [of sample_image sample_machine sample_process] sample_image_ok
  by (simp add: sample_machine_def sample_process_def sample_image_def)

end
