(* ===== verification/ComponentProperties.thy ===== *)
theory ComponentProperties
  imports Sample
begin

unbundle bit_operations_syntax

section \<open>Properties of the components\<close>

text \<open>
  One theorem per property of a single component, with a witness on the concrete machine of
  \<open>Sample\<close> where it has hypotheses. The properties that span components are in the root theory.
\<close>

subsection \<open>Descriptor tables\<close>

text \<open>C34: Whatever structure it is given to overwrite and whatever the arguments, what the
  processor reads back from the eight bytes \<open>kx86_gdt_entry_set\<close> writes is the base, the access
  byte, the low 20 bits of the limit and the low 4 bits of the flags.\<close>

theorem gdt_descriptor_roundtrip:
  "map_option (\<lambda>e. gdt_fields (gdt_entry_bytes e)) (kx86_gdt_entry_set (Some e0) base limit access flags) =
     Some \<lparr>seg_base = base, seg_limit = limit AND 0xfffff, seg_access = access, seg_flags = flags AND 0x0f\<rparr>"
proof -
  obtain e where e: "kx86_gdt_entry_set (Some e0) base limit access flags = Some e"
    by (simp add: kx86_gdt_entry_set_def)
  from e gdt_entry_set_fields [OF e] show ?thesis by simp
qed

text \<open>C35: Whatever structure it is given to overwrite and whatever the arguments, the processor
  reads from the sixteen bytes \<open>kx86_idt_gate_set\<close> writes a present gate with the whole 64-bit
  handler address, the selector, and the stack index, type and privilege level cut to their
  3, 4 and 2 bits.\<close>

theorem idt_gate_roundtrip:
  "map_option (\<lambda>g. gate_fields (idt_gate_bytes g)) (kx86_idt_gate_set (Some g0) handler selector ist t dpl) =
     Some \<lparr>gate_offset = handler, gate_selector = selector, gate_ist = ist AND 0x07,
           gate_type = t AND 0x0f, gate_dpl = dpl AND 0x03, gate_present = True\<rparr>"
proof -
  obtain g where g: "kx86_idt_gate_set (Some g0) handler selector ist t dpl = Some g"
    by (simp add: kx86_idt_gate_set_def)
  from g idt_gate_set_fields [OF g] show ?thesis by simp
qed

text \<open>C36: \<open>kx86_descriptor_tables_init\<close> does four things in this order and nothing else: it stores
  the GDT, it stores the IDT, it loads the GDT register and it loads the IDT register. What it has
  stored when it loads the registers is the null, kernel code, kernel data, user code and user data
  descriptors of a flat 64-bit layout, and 256 absent gates; the registers describe exactly the
  arrays it stored.\<close>

theorem descriptor_tables_loaded:
  assumes "length (boot_gdt t) = 5" "length (boot_idt t) = 256"
    and "boot_gdt_addr t \<noteq> 0" "boot_idt_addr t \<noteq> 0"
  shows "\<exists>t' d'. kx86_descriptor_tables_init junk t d = Some (t', d') \<and> boot_tables_ready t' \<and>
    trace d' = trace d @ [Store_gdt (boot_gdt_addr t) (boot_gdt t'),
                          Store_idt (boot_idt_addr t) (boot_idt t'),
                          Lgdt \<lparr>gdtr_limit = 39, gdtr_base = boot_gdt_addr t\<rparr>,
                          Lidt \<lparr>idtr_limit = 4095, idtr_base = boot_idt_addr t\<rparr>]"
  using descriptor_tables_spec [OF assms, of junk d] by (elim exE conjE) (simp only: emit_sel, simp)

lemma sample_tables_ok:
  "length (boot_gdt sample_tables) = 5" "length (boot_idt sample_tables) = 256"
  "boot_gdt_addr sample_tables \<noteq> 0" "boot_idt_addr sample_tables \<noteq> 0"
  by (simp_all add: sample_tables_def)

theorem descriptor_tables_loaded_witness:
  "\<exists>t' d'. kx86_descriptor_tables_init 0 sample_tables sample_dev = Some (t', d') \<and> boot_tables_ready t' \<and>
    trace d' = trace sample_dev @ [Store_gdt (boot_gdt_addr sample_tables) (boot_gdt t'),
      Store_idt (boot_idt_addr sample_tables) (boot_idt t'),
      Lgdt \<lparr>gdtr_limit = 39, gdtr_base = boot_gdt_addr sample_tables\<rparr>,
      Lidt \<lparr>idtr_limit = 4095, idtr_base = boot_idt_addr sample_tables\<rparr>]"
  by (rule descriptor_tables_loaded [OF sample_tables_ok])

text \<open>C37: The registers \<open>kx86_gdtr_make\<close> and \<open>kx86_idtr_make\<close> build cover their tables to the
  last byte, for every table of at most 8192 descriptors and 4096 gates; the 16-bit limit cannot
  describe more.\<close>

theorem table_registers_cover:
  assumes "entries \<noteq> 0" "0 < count" "count \<le> 8192" "gates \<noteq> 0" "0 < ngates" "ngates \<le> 4096"
  shows "unat (gdtr_limit (kx86_gdtr_make entries count)) + 1 = 8 * unat count \<and>
    gdtr_base (kx86_gdtr_make entries count) = entries \<and>
    unat (idtr_limit (kx86_idtr_make gates ngates)) + 1 = 16 * unat ngates \<and>
    idtr_base (kx86_idtr_make gates ngates) = gates"
  using gdtr_covers_table [OF assms(1-3)] idtr_covers_table [OF assms(4-6)] by simp

theorem table_registers_cover_witness:
  "unat (gdtr_limit (kx86_gdtr_make 0x6000 8192)) + 1 = 8 * unat (8192 :: u64) \<and>
    gdtr_base (kx86_gdtr_make 0x6000 8192) = 0x6000 \<and>
    unat (idtr_limit (kx86_idtr_make 0x7000 4096)) + 1 = 16 * unat (4096 :: u64) \<and>
    idtr_base (kx86_idtr_make 0x7000 4096) = 0x7000"
  by (rule table_registers_cover) simp_all

text \<open>\<open>kx86_idt_clear\<close> zeroes exactly the first \<open>count\<close> gates of a long enough array.\<close>

theorem idt_clear_exact:
  assumes "unat count \<le> length gs"
  shows "kx86_idt_clear (Some gs) count = Some (Some (replicate (unat count) 0 @ drop (unat count) gs))"
  using assms by (rule idt_clear_spec)

theorem idt_clear_exact_witness:
  "kx86_idt_clear (Some [0, 0, 0]) 2 =
     Some (Some (replicate (unat (2 :: u64)) 0 @ drop (unat (2 :: u64)) [0, 0, 0 :: kx86_idt_gate]))"
  by (rule idt_clear_exact) simp

subsection \<open>Serial port, log and panic\<close>

text \<open>\<open>arch_serial_init\<close> leaves the 16550 with divisor 3, 8 data bits without parity, the
  FIFOs on and the divisor latch closed, from any state, and transmits nothing. It masks the
  port's interrupts only when the latch was closed at the start: otherwise its first write sets
  the divisor.\<close>

theorem serial_init_state:
  "uart_of u0 (arch_serial_init d) =
     (uart_of u0 d)\<lparr>u_ier := (if bit (u_lcr (uart_of u0 d)) 7 then u_ier (uart_of u0 d) else 0),
        u_fcr := 0xc7, u_lcr := 0x03, u_mcr := 0x0b, u_dll := 3, u_dlm := 0\<rparr>"
  by (rule uart_after_init)

text \<open>C38: With a serial port that eventually accepts each byte, \<open>klog_writeln\<close> returns, and what
  is transmitted is the string with a carriage return before every newline, and a final CR LF.\<close>

theorem klog_writeln_output:
  assumes "cstring_at m p s" "uart_ready u0 d"
  shows "\<exists>d'. klog_writeln p m d = Some d' \<and> uart_ready u0 d' \<and>
    uart_sent u0 d' = uart_sent u0 d @ concat (map crlf s) @ [13, 10]"
  using assms by (rule klog_writeln_cstring)

lemma sample_literal: "cstring_at sample_mem 0x1000 (string_bytes banner_text)"
proof -
  have "cstring_at sample_mem (im_lits sample_image banner_text) (string_bytes banner_text)"
    by (rule literal_cstring [OF sample_image_ok]) (simp add: boot_literals_def)
  then show ?thesis by (simp add: sample_image_def sample_lits_def)
qed

theorem klog_writeln_output_witness:
  "\<exists>d'. klog_writeln 0x1000 sample_mem sample_dev = Some d' \<and> uart_ready sample_uart d' \<and>
    uart_sent sample_uart d' =
      uart_sent sample_uart sample_dev @ concat (map crlf (string_bytes banner_text)) @ [13, 10]"
  by (rule klog_writeln_output [OF sample_literal sample_ready(1)])

text \<open>C39: \<open>kernel_panic\<close> always reaches the halt loop, after printing its prefix, the message (or
  the replacement for NULL) and a newline; nothing follows the halt.\<close>

theorem panic_prints_and_halts:
  assumes "cstring_at m (lits ''kernel panic: '') pb"
    and "cstring_at m (if message = 0 then lits ''(null)'' else message) mb"
    and "uart_ready u0 d"
  shows "\<exists>d'. kernel_panic lits message m d = Some d' \<and> last (trace d') = Cli_hlt \<and>
    uart_sent u0 d' = uart_sent u0 d @ concat (map crlf (pb @ mb)) @ [13, 10]"
  using assms by (rule kernel_panic_spec)

theorem panic_prints_and_halts_witness:
  "\<exists>d'. kernel_panic (\<lambda>_. 0x1000) 0 sample_mem sample_dev = Some d' \<and> last (trace d') = Cli_hlt \<and>
    uart_sent sample_uart d' = uart_sent sample_uart sample_dev @
      concat (map crlf (string_bytes banner_text @ string_bytes banner_text)) @ [13, 10]"
  by (rule panic_prints_and_halts) (simp_all add: sample_literal sample_ready(1))

subsection \<open>Memory and strings\<close>

text \<open>Between mapped ranges that do not overlap, \<open>kmemcpy\<close> returns its destination, leaves the
  source bytes there and changes no other byte.\<close>

theorem memcpy_copies:
  assumes "dst \<noteq> 0" "src \<noteq> 0" "mapped dst (of_nat (length bs)) m" "holds m src bs" "length bs < 2 ^ 64"
    and "disjoint_ranges dst (of_nat (length bs)) src (of_nat (length bs))"
  shows "\<exists>m'. kmemcpy dst src (of_nat (length bs)) m = Some (dst, m') \<and> holds m' dst bs \<and>
    dom m' = dom m \<and> (\<forall>q. \<not> in_range q dst (of_nat (length bs)) \<longrightarrow> m' q = m q)"
  using assms by (rule kmemcpy_exact)

lemma sample_copy:
  "mapped 0x2000 42 sample_mem" "holds sample_mem 0x1100 init_motd" "disjoint_ranges 0x2000 42 0x1100 (42 :: u64)"
proof -
  show "mapped 0x2000 42 sample_mem"
    by (rule mapped_mono [of "0x2000" 64]) (use sample_writable(1) in \<open>auto simp: writable_def intro: in_range_mono\<close>)
  show "holds sample_mem 0x1100 init_motd" by (rule sample_region(1)) (simp add: sample_regions_def)
  show "disjoint_ranges 0x2000 42 0x1100 (42 :: u64)"
    using apart_disjoint [of "0x2000" 42 "0x1100" 42] by (simp add: apart_def)
qed

theorem memcpy_copies_witness:
  "\<exists>m'. kmemcpy 0x2000 0x1100 (of_nat (length init_motd)) sample_mem = Some (0x2000, m') \<and>
    holds m' 0x2000 init_motd \<and> dom m' = dom sample_mem \<and>
    (\<forall>q. \<not> in_range q 0x2000 (of_nat (length init_motd)) \<longrightarrow> m' q = sample_mem q)"
  by (rule memcpy_copies) (simp_all add: sample_copy length_init)

text \<open>\<open>kmemset\<close> sets every byte of a mapped range to the low byte of its value and no other
  byte, and returns its destination.\<close>

theorem memset_fills:
  assumes "dst \<noteq> 0" "mapped dst len m"
  shows "\<exists>m'. kmemset dst v len m = Some (dst, m') \<and>
    (\<forall>q. m' q = (if in_range q dst len then Some (ucast v) else m q))"
  using assms by (rule kmemset_spec)

theorem memset_fills_witness:
  "\<exists>m'. kmemset 0x2000 0x1ff 42 sample_mem = Some (0x2000, m') \<and>
    (\<forall>q. m' q = (if in_range q 0x2000 42 then Some (ucast (0x1ff :: u32)) else sample_mem q))"
  by (rule memset_fills) (simp_all add: sample_copy)

text \<open>C40: \<open>kmemcpy_checked\<close> refuses a source longer than the destination without touching memory,
  and otherwise copies, provided both pointers are good.\<close>

theorem memcpy_checked_bounds:
  assumes "dst \<noteq> 0" "src \<noteq> 0" "mapped dst dst_len m" "holds m src bs" "length bs < 2 ^ 64"
    and "disjoint_ranges dst dst_len src (of_nat (length bs))"
  shows "if of_nat (length bs) > dst_len
    then kmemcpy_checked dst dst_len src (of_nat (length bs)) m = Some (False, m)
    else \<exists>m'. kmemcpy_checked dst dst_len src (of_nat (length bs)) m = Some (True, m') \<and>
      holds m' dst bs \<and> (\<forall>q. \<not> in_range q dst (of_nat (length bs)) \<longrightarrow> m' q = m q)"
  using kmemcpy_checked_exact [OF assms(1-5) _ assms(6)] kmemcpy_checked_too_long
  by (auto simp: not_less)

theorem memcpy_checked_bounds_witness:
  "if of_nat (length init_motd) > (42 :: u64)
    then kmemcpy_checked 0x2000 42 0x1100 (of_nat (length init_motd)) sample_mem = Some (False, sample_mem)
    else \<exists>m'. kmemcpy_checked 0x2000 42 0x1100 (of_nat (length init_motd)) sample_mem = Some (True, m') \<and>
      holds m' 0x2000 init_motd \<and>
      (\<forall>q. \<not> in_range q 0x2000 (of_nat (length init_motd)) \<longrightarrow> m' q = sample_mem q)"
  by (rule memcpy_checked_bounds) (simp_all add: sample_copy length_init)

text \<open>Called with a NULL destination and a source that fits, \<open>kmemcpy_checked\<close> reports success
  although nothing was copied: it compares the NULL that \<open>kmemcpy\<close> returns on refusal with the
  NULL it was given.\<close>

theorem memcpy_checked_null_success:
  "src_len \<le> dst_len \<Longrightarrow> kmemcpy_checked 0 dst_len src src_len m = Some (True, m)"
  by (simp add: kmemcpy_checked_def kmemcpy_def not_less [symmetric])

theorem memcpy_checked_null_success_witness:
  "kmemcpy_checked 0 8 0x1100 (4 :: u64) sample_mem = Some (True, sample_mem)"
  by (rule memcpy_checked_null_success) simp

text \<open>\<open>kstrlen\<close> of a terminated string terminates with its length, and \<open>kmem_equal\<close> of two
  buffers of equal length decides whether their bytes are equal.\<close>

theorem strlen_and_equal:
  assumes "cstring_at m p s" "cstring_at m q s'" "length s = length s'"
  shows "kstrlen p m = Some (of_nat (length s)) \<and>
    kmem_equal p q (of_nat (length s)) m = Some (s = s')"
proof
  show "kstrlen p m = Some (of_nat (length s))" by (rule kstrlen_spec [OF assms(1)])
  have "p \<noteq> 0" "q \<noteq> 0" "length s < 2 ^ 64" using assms(1,2) by (simp_all add: cstring_at_def)
  from kmem_equal_spec [OF this(1,2) cstring_holds [OF assms(1)] cstring_holds [OF assms(2)] _ this(3)] assms(3)
  show "kmem_equal p q (of_nat (length s)) m = Some (s = s')" by simp
qed

theorem strlen_and_equal_witness:
  "kstrlen 0x1000 sample_mem = Some (of_nat (length (string_bytes banner_text))) \<and>
    kmem_equal 0x1000 0x1000 (of_nat (length (string_bytes banner_text))) sample_mem =
      Some (string_bytes banner_text = string_bytes banner_text)"
  by (rule strlen_and_equal [OF sample_literal sample_literal refl])

subsection \<open>The filesystem\<close>

lemma sample_fs_rep: "fs_rep (m_fs sample_mounted) sample_mem init_files"
  using sample_files_rel by (simp add: files_rel_def) (simp add: sample_mounted_def mounted_def sample_machine_def)

lemma sample_path: "cstring_at sample_mem 0x1140 (string_bytes ''/etc/motd'')"
proof -
  have "holds sample_mem 0x1140 (string_bytes ''/etc/motd'' @ [0])"
    by (rule sample_region(1)) (simp add: sample_regions_def)
  moreover have "0 \<notin> set (string_bytes ''/etc/motd'')" by code_simp
  ultimately show ?thesis by (simp add: cstring_at_def)
qed

text \<open>C28: \<open>kfs_open\<close> finds a path exactly when the mounted table has a valid node for it, and then
  returns a handle at offset zero on the first such node; otherwise it fails with \<open>ENOENT\<close> and
  clears the handle.\<close>

theorem fs_open_finds:
  assumes "fs_rep fs m files" "cstring_at m p name"
  shows "case (if name = [] then None else fs_map files name) of
      None \<Rightarrow> kfs_open fs p (Some h) m = Some (KFS_ENOENT, Some \<lparr>h_node = 0, h_offset = 0\<rparr>)
    | Some content \<Rightarrow> \<exists>node. kfs_open fs p (Some h) m = Some (KFS_OK, Some \<lparr>h_node = node, h_offset = 0\<rparr>) \<and>
        node_rep fs m node name content"
  using assms by (rule kfs_open_spec)

theorem fs_open_finds_witness:
  "case (if string_bytes ''/etc/motd'' = [] then None else fs_map init_files (string_bytes ''/etc/motd'')) of
      None \<Rightarrow> kfs_open (m_fs sample_mounted) 0x1140 (Some \<lparr>h_node = 1, h_offset = 1\<rparr>) sample_mem =
        Some (KFS_ENOENT, Some \<lparr>h_node = 0, h_offset = 0\<rparr>)
    | Some content \<Rightarrow> \<exists>node. kfs_open (m_fs sample_mounted) 0x1140 (Some \<lparr>h_node = 1, h_offset = 1\<rparr>) sample_mem =
        Some (KFS_OK, Some \<lparr>h_node = node, h_offset = 0\<rparr>) \<and>
        node_rep (m_fs sample_mounted) sample_mem node (string_bytes ''/etc/motd'') content"
  by (rule fs_open_finds [OF sample_fs_rep sample_path])

text \<open>C27: A client that reads a file through one buffer, in pieces of any length, collects the
  file's bytes in order from the handle's offset: \<open>n\<close> reads of \<open>len\<close> bytes give the next
  \<open>n * len\<close> bytes, or all that are left.\<close>

theorem fs_chunked_read:
  assumes "node_rep fs m (h_node h) pth content" "unat (h_offset h) \<le> length content"
    and "len \<noteq> 0 \<Longrightarrow> dst \<noteq> 0" "mapped dst len m" "detached fs (h_node h) pth dst len"
  shows "chunked_read fs h dst len n m = Some (take (n * unat len) (drop (unat (h_offset h)) content))"
  using assms by (rule chunked_read_spec)

lemma sample_node:
  "node_rep (m_fs sample_mounted) sample_mem 0x5000 (string_bytes ''/etc/motd'') init_motd"
  "node_at (m_fs sample_mounted) 0x5000 = Some (init_fs_node sample_init)"
  "detached (m_fs sample_mounted) 0x5000 (string_bytes ''/etc/motd'') 0x2000 16"
proof -
  have p: "node_ptr (m_fs sample_mounted) 0 = 0x5000"
    by (simp add: sample_mounted_def mounted_def kfs_mount_def node_ptr_def kuser_init_program_def sample_init_def)
  show at: "node_at (m_fs sample_mounted) 0x5000 = Some (init_fs_node sample_init)"
    by (simp add: sample_mounted_def mounted_def kfs_mount_def sample_machine_def sample_fs_def)
  have mem: "m_mem sample_mounted = sample_mem"
    by (simp add: sample_mounted_def mounted_def sample_machine_def)
  show "node_rep (m_fs sample_mounted) sample_mem 0x5000 (string_bytes ''/etc/motd'') init_motd"
    using sample_files_rel p mem by (simp add: files_rel_def init_files_def isolated_def)
  show "detached (m_fs sample_mounted) 0x5000 (string_bytes ''/etc/motd'') 0x2000 16"
    using apart_disjoint [of "0x2000" 16 "0x1140" 10] apart_disjoint [of "0x2000" 16 "0x1100" 42]
    by (simp add: detached_def at init_fs_node_def sample_init_def apart_def length_init)
qed

lemma sample_buffer: "mapped 0x2000 16 sample_mem"
  by (rule mapped_mono [OF sample_copy(1)]) (auto intro: in_range_mono)

theorem fs_chunked_read_witness:
  "chunked_read (m_fs sample_mounted) \<lparr>h_node = 0x5000, h_offset = 6\<rparr> 0x2000 16 3 sample_mem =
     Some (take (3 * unat (16 :: u64)) (drop (unat (h_offset \<lparr>h_node = 0x5000, h_offset = 6\<rparr>)) init_motd))"
  by (rule fs_chunked_read [where pth = "string_bytes ''/etc/motd''"])
     (simp_all add: sample_node sample_buffer length_init)

text \<open>C30: \<open>kfs_stat\<close> writes a structure from which the size, mode and kind of the file can be read
  back, a zeroed one when there is no such file, and changes only its 13 bytes of fields.\<close>

theorem fs_stat_result:
  assumes "fs_rep fs m files" "cstring_at m p name" "out \<noteq> 0" "mapped out sizeof_kfs_stat m"
  shows "\<exists>m'. kfs_stat fs p out m =
      Some (if name = [] \<or> fs_map files name = None then KFS_ENOENT else KFS_OK, m') \<and>
    load_kfs_stat out m' = Some
      (case (if name = [] then None else fs_map files name) of
         None \<Rightarrow> \<lparr>st_size = 0, st_mode = 0, st_is_file = False\<rparr>
       | Some content \<Rightarrow> \<lparr>st_size = of_nat (length content), st_mode = KFS_MODE_FILE, st_is_file = True\<rparr>) \<and>
    (\<forall>q. \<not> in_range q out 13 \<longrightarrow> m' q = m q)"
  using assms by (rule kfs_stat_spec)

theorem fs_stat_result_witness:
  "\<exists>m'. kfs_stat (m_fs sample_mounted) 0x1140 0x2000 sample_mem =
      Some (if string_bytes ''/etc/motd'' = [] \<or> fs_map init_files (string_bytes ''/etc/motd'') = None
            then KFS_ENOENT else KFS_OK, m') \<and>
    load_kfs_stat 0x2000 m' = Some
      (case (if string_bytes ''/etc/motd'' = [] then None else fs_map init_files (string_bytes ''/etc/motd'')) of
         None \<Rightarrow> \<lparr>st_size = 0, st_mode = 0, st_is_file = False\<rparr>
       | Some content \<Rightarrow> \<lparr>st_size = of_nat (length content), st_mode = KFS_MODE_FILE, st_is_file = True\<rparr>) \<and>
    (\<forall>q. \<not> in_range q 0x2000 13 \<longrightarrow> m' q = sample_mem q)"
  by (rule fs_stat_result [OF sample_fs_rep sample_path]) (simp_all add: sample_buffer sizeof_kfs_stat_def)

text \<open>C29: Reading from a valid node is memory safe for every offset and length, even when the
  destination overlaps the file: the read returns the smaller of the length and what is left
  after the offset (nothing past the end, with no wrap-around), and changes no byte outside the
  destination.\<close>

theorem fs_read_node_safe:
  assumes "valid_node fs node" "node_at fs node = Some nd" "mapped (node_data nd) (node_size nd) m"
    and "len \<noteq> 0 \<Longrightarrow> dst \<noteq> 0" "mapped dst len m"
  shows "\<exists>n m'. kfs_read_node fs node offset dst len m = Some (n, m') \<and>
    unat n = min (unat len) (unat (node_size nd) - unat offset) \<and>
    dom m' = dom m \<and> (\<forall>q. \<not> in_range q dst len \<longrightarrow> m' q = m q)"
proof -
  have "unat (read_len (node_size nd) offset len) = min (unat len) (unat (node_size nd) - unat offset)"
    by (auto simp: read_len_def word_le_nat_alt min_def unat_minus_le)
  with kfs_read_node_safe [OF assms, of offset] show ?thesis by blast
qed

theorem fs_read_node_safe_witness:
  "\<exists>n m'. kfs_read_node (m_fs sample_mounted) 0x5000 40 0x1100 10 sample_mem = Some (n, m') \<and>
    unat n = min (unat (10 :: u64)) (unat (node_size (init_fs_node sample_init)) - unat (40 :: u64)) \<and>
    dom m' = dom sample_mem \<and> (\<forall>q. \<not> in_range q 0x1100 10 \<longrightarrow> m' q = sample_mem q)"
proof (rule fs_read_node_safe)
  show "valid_node (m_fs sample_mounted) 0x5000" using sample_node(1) by (rule node_rep_valid)
  have h: "mapped 0x1100 42 sample_mem" using holds_mapped [OF sample_copy(2)] by (simp add: length_init)
  then show "mapped (node_data (init_fs_node sample_init)) (node_size (init_fs_node sample_init)) sample_mem"
    by (simp add: init_fs_node_def sample_init_def length_init)
  show "mapped 0x1100 10 sample_mem" by (rule mapped_mono [OF h]) (auto intro: in_range_mono)
qed (simp_all add: sample_node)

subsection \<open>System calls\<close>

text \<open>C31: A user range passes \<open>task_contains_user_range\<close> exactly when it is empty, or when neither
  it nor the task's own range wraps around the address space and it lies inside the latter.\<close>

theorem user_range_check:
  "task_contains_user_range (Some t) p n =
     (n = 0 \<or>
      (unat p + unat n < 2 ^ 64 \<and> unat (t_user_base t) + unat (t_user_len t) < 2 ^ 64 \<and>
       unat (t_user_base t) \<le> unat p \<and> unat p + unat n \<le> unat (t_user_base t) + unat (t_user_len t)))"
  by (auto simp: task_contains_user_range_def checked_add_def word_le_nat_alt unat_plus_no_overflow)

text \<open>Dispatching is defined for NULL pointers: without registers it fails with \<open>EINVAL\<close>;
  without a task every call fails with the error of its first guard, except \<open>exit\<close>, which does
  not need one. Nothing changes.\<close>

theorem dispatch_null_pointers:
  "ksyscall_dispatch M task None = Some (ksyscall_result_of (- 1) KSYSCALL_EINVAL, task, M) \<and>
   ksyscall_dispatch M None (Some r) = Some (null_task_result r, None, M)"
  by (simp add: dispatch_null_task) (simp add: ksyscall_dispatch_def)

text \<open>C33: Dispatching looks only at the low 32 bits of the system call number, because it converts
  the register to the 32-bit enum: numbers that are not system calls, such as \<open>2 ^ 32 + 1\<close>, run
  one.\<close>

theorem dispatch_ignores_upper_half:
  "ksyscall_dispatch M task (Some r) =
     ksyscall_dispatch M task (Some (r\<lparr>r_nr := ucast (ucast (r_nr r) :: u32)\<rparr>))"
proof -
  have "(ucast (ucast (ucast n :: u32) :: u64) :: u32) = ucast n" for n :: u64
    by (rule bit_word_eqI) (auto simp: bit_simps)
  then show ?thesis by (simp add: ksyscall_dispatch_def split: option.split ksyscall_number.split)
qed

text \<open>C32: The trap convention: the number is taken from \<open>rax\<close> and the arguments from \<open>rdi\<close>, \<open>rsi\<close>,
  \<open>rdx\<close>, \<open>r10\<close>, \<open>r8\<close>, \<open>r9\<close>; \<open>rax\<close> and the result fields carry what the dispatcher returned; every
  other register, including the return address in \<open>rcx\<close>, the flags in \<open>r11\<close> and the user stack
  pointer, is preserved. A NULL frame changes nothing.\<close>

theorem trap_register_convention:
  "(ksyscall_entry M task (Some f) = Some (task', Some f', M')) =
     (ksyscall_dispatch M task (Some \<lparr>r_nr = fr_rax f, r_arg0 = fr_rdi f, r_arg1 = fr_rsi f,
        r_arg2 = fr_rdx f, r_arg3 = fr_r10 f, r_arg4 = fr_r8 f, r_arg5 = fr_r9 f\<rparr>) =
        Some (frame_result f', task', M') \<and>
      fr_rax f' = fr_result f' \<and> preserved_registers f' = preserved_registers f) \<and>
   ksyscall_entry M task None = Some (task, None, M)"
  by (simp add: entry_dispatch entry_null regs_of_frame_def)

text \<open>An exit operation of a user program ends the process with exactly its status: the sign
  extension into the 64-bit register and the truncation in the kernel cancel, negative values
  included.\<close>

theorem exit_status_exact:
  assumes "kuser_opcode_of (op_opcode op) = Some KUSER_OP_EXIT"
  shows "kuser_step M p op = Some (KUSER_OK,
    p\<lparr>p_last_syscall_error := KSYSCALL_OK, p_exited := True, p_exit_status := op_exit_status op\<rparr>, M)"
  by (simp add: kuser_step_def op_frame_def assms run_frame_def ksyscall_entry_def regs_of_frame_def
      zero_frame_def ksyscall_dispatch_def sys_exit_def exit_status_roundtrip)

theorem exit_status_exact_witness:
  "kuser_step sample_machine sample_process (zero_op\<lparr>op_opcode := 6, op_exit_status := - 3\<rparr>) = Some (KUSER_OK,
    sample_process\<lparr>p_last_syscall_error := KSYSCALL_OK, p_exited := True,
      p_exit_status := op_exit_status (zero_op\<lparr>op_opcode := 6, op_exit_status := - 3\<rparr>)\<rparr>, sample_machine)"
  by (rule exit_status_exact) (simp add: kuser_opcode_of_def)

end
