(* ===== verification/Sessions.thy ===== *)
theory Sessions
  imports KDispatch
begin

section \<open>Sequences of system calls\<close>

text \<open>
  Facts about several system calls in a row, obtained from the simulation \<open>syscalls\<close> by computing
  the specification: which descriptor an open returns, and what opening, reading and closing a
  file does as a whole.
\<close>

definition syscall_regs :: "ksyscall_number \<Rightarrow> u64 \<Rightarrow> u64 \<Rightarrow> u64 \<Rightarrow> ksyscall_regs" where
  "syscall_regs nr a b c = \<lparr>r_nr = ksyscall_nr nr, r_arg0 = a, r_arg1 = b, r_arg2 = c, r_arg3 = 0,
     r_arg4 = 0, r_arg5 = 0\<rparr>"

lemma syscall_regs_sel [simp]:
  "r_nr (syscall_regs nr a b c) = ksyscall_nr nr" "r_arg0 (syscall_regs nr a b c) = a"
  "r_arg1 (syscall_regs nr a b c) = b" "r_arg2 (syscall_regs nr a b c) = c"
  by (simp_all add: syscall_regs_def)

text \<open>One dispatch, with what the specification says it returns.\<close>

lemma dispatch_once:
  assumes "represents u0 pre files M t px"
  shows "\<exists>t' M'. ksyscall_dispatch M (Some t) (Some r) = Some (snd (posix_call px r), Some t', M') \<and>
    represents u0 pre files M' t' (fst (posix_call px r)) \<and> kernel_frame M t M' t'"
  using dispatch_follows [OF assms] by (simp add: follows_def)

subsection \<open>The lowest free descriptor\<close>

lemma px_free_fd_least:
  "px_free_fd fds = (if \<forall>fd \<in> {3..<8}. fds fd \<noteq> None then None
                     else Some (LEAST fd. 3 \<le> fd \<and> fds fd = None))"
proof (cases "px_free_fd fds")
  case None
  then have "\<forall>fd \<in> {3..<8}. fds fd \<noteq> None"
    by (fastforce simp: px_free_fd_def first_hit_None_iff split: if_splits)
  with None show ?thesis by simp
next
  case (Some fd)
  note b = px_free_fd_bound [OF Some]
  have "(LEAST fd. 3 \<le> fd \<and> fds fd = None) = fd"
  proof (rule Least_equality)
    fix y assume "3 \<le> y \<and> fds y = None"
    with b show "fd \<le> y" by (metis not_le)
  qed (use b in simp)
  moreover have "\<not> (\<forall>fd \<in> {3..<8}. fds fd \<noteq> None)" using b by auto
  ultimately show ?thesis using Some by simp
qed

subsection \<open>Open, read, close\<close>

lemma splice_slice:
  "k + length ys \<le> length xs \<Longrightarrow> take (length ys) (drop k (splice xs k ys)) = ys"
  by (simp add: splice_def)

lemma stored_bytes:
  assumes rep: "represents u0 pre files M' t' px'" and mem: "px_mem px' = splice (px_mem px) (px_off px q) bs"
    and base: "px_base px' = px_base px" and v: "px_valid px q k" and len: "length bs \<le> unat k"
  shows "holds (m_mem M') q bs"
proof (cases "bs = []")
  case False
  note u = representsD(2) [OF rep]
  from False len have "k \<noteq> 0" by auto
  with v have off: "px_off px q + unat k \<le> length (px_mem px)"
    by (auto simp: px_valid_def px_off_def)
  then have ml: "length (px_mem px') = length (px_mem px)" using mem len by (simp add: length_splice)
  have n: "unat (of_nat (length bs) :: u64) = length bs"
    using len unat_lt_64 [of k] by (intro unat_of_nat64) simp
  have "px_valid px' q (of_nat (length bs))"
    using v len n ml base \<open>k \<noteq> 0\<close> by (auto simp: px_valid_def)
  from user_slice [OF u this] have "holds (m_mem M') q (px_slice px' q (of_nat (length bs)))" .
  moreover have "px_slice px' q (of_nat (length bs)) = bs"
    using splice_slice [of "px_off px q" bs "px_mem px"] off len
    by (simp add: px_slice_def n mem) (simp add: px_off_def base)
  ultimately show ?thesis by simp
qed simp

lemma read_session_spec:
  assumes p: "px_valid px p n" "px_resolve px p n = Some content"
    and fd: "px_free_fd (px_fds px) = Some fd" and q: "px_valid px q k"
  shows "spec_outputs posix_call px
      [syscall_regs KSYSCALL_OPEN p n 0, syscall_regs KSYSCALL_READ (of_nat fd) q k,
       syscall_regs KSYSCALL_CLOSE (of_nat fd) 0 0] =
    (px_store q (take (unat k) content) px,
     [px_ok (of_nat fd), px_ok (of_nat (length (take (unat k) content))), px_ok 0])"
proof -
  note b = px_free_fd_bound [OF fd]
  have u: "unat (of_nat fd :: u64) = fd" using b by (intro unat_of_nat64) simp
  have "(px_fds px)(fd := None) = px_fds px" using b by auto
  with p fd q u show ?thesis
    by (simp add: posix_call_def px_open_def px_read_def px_close_def px_valid_def px_store_def px_off_def
        Let_def)
qed

lemma read_session:
  assumes rep: "represents u0 pre files M t px"
    and p: "px_valid px p n" "px_resolve px p n = Some content"
    and fd: "px_free_fd (px_fds px) = Some fd" and q: "px_valid px q k"
  shows "\<exists>M' t'. run_outputs dispatch_step (M, t)
      [syscall_regs KSYSCALL_OPEN p n 0, syscall_regs KSYSCALL_READ (of_nat fd) q k,
       syscall_regs KSYSCALL_CLOSE (of_nat fd) 0 0] =
      Some ((M', t'), [px_ok (of_nat fd), px_ok (of_nat (length (take (unat k) content))), px_ok 0]) \<and>
    holds (m_mem M') q (take (unat k) content) \<and>
    represents u0 pre files M' t' (px_store q (take (unat k) content) px)"
proof -
  have "step_rel u0 pre files (M, t) px" using rep by (simp add: step_rel_def)
  from syscalls.run_sim [OF this, of "[syscall_regs KSYSCALL_OPEN p n 0,
      syscall_regs KSYSCALL_READ (of_nat fd) q k, syscall_regs KSYSCALL_CLOSE (of_nat fd) 0 0]"]
  obtain s where s: "run_outputs dispatch_step (M, t)
      [syscall_regs KSYSCALL_OPEN p n 0, syscall_regs KSYSCALL_READ (of_nat fd) q k,
       syscall_regs KSYSCALL_CLOSE (of_nat fd) 0 0] =
      Some (s, [px_ok (of_nat fd), px_ok (of_nat (length (take (unat k) content))), px_ok 0])"
    "step_rel u0 pre files s (px_store q (take (unat k) content) px)"
    unfolding read_session_spec [OF p fd q] by auto
  obtain M' t' where st: "s = (M', t')" by (cases s)
  have rep': "represents u0 pre files M' t' (px_store q (take (unat k) content) px)"
    using s(2) st by (simp add: step_rel_def)
  have "holds (m_mem M') q (take (unat k) content)"
    by (rule stored_bytes [OF rep' _ _ q]) (simp_all add: px_store_def)
  with s(1) st rep' show ?thesis by blast
qed

end
