(* ===== verification/Tasks.thy ===== *)
theory Tasks
  imports Sessions
begin

section \<open>Several tasks on one machine\<close>

text \<open>
  The kernel's state is one machine; each task has its own part of memory and its own descriptors.
  A schedule is a list of system calls, each with the number of the task that makes it; a number
  past the last task is a dispatch with the NULL task, as before the first process exists.

  The first theorem is a simulation: the interleaved run returns what each task's own abstract
  interface returns, and the console receives what the tasks write in the order in which they write
  it. The second is non-interference: what a task gets back, and what its memory holds in the end,
  depends on its own calls only.
\<close>

definition task_step ::
  "machine \<times> ktask list \<Rightarrow> nat \<times> ksyscall_regs \<Rightarrow> ((machine \<times> ktask list) \<times> ksyscall_result) option" where
  "task_step s i =
     (let ts = snd s; t = (if fst i < length ts then Some (ts ! fst i) else None) in
      map_option (\<lambda>(res, t', M'). ((M', case t' of None \<Rightarrow> ts | Some u \<Rightarrow> ts[fst i := u]), res))
        (ksyscall_dispatch (fst s) t (Some (snd i))))"

text \<open>What the tasks see, and the bytes on the console.\<close>

definition quiet :: "posix \<Rightarrow> posix" where
  "quiet px = px\<lparr>px_out := []\<rparr>"

definition tasks_call ::
  "posix list \<times> u8 list \<Rightarrow> nat \<times> ksyscall_regs \<Rightarrow> (posix list \<times> u8 list) \<times> ksyscall_result" where
  "tasks_call a i =
     (let (pxs, out) = a in
      if fst i < length pxs
      then let (px', res) = posix_call (quiet (pxs ! fst i)) (snd i)
           in ((pxs[fst i := quiet px'], out @ px_out px'), res)
      else (a, null_task_result (snd i)))"

definition listed :: "entry list \<Rightarrow> machine \<Rightarrow> ktask \<Rightarrow> bool" where
  "listed files M t \<longleftrightarrow>
     (\<forall>f \<in> set (t_files t). f_used f \<longrightarrow>
        (\<exists>i < length files. files ! i \<noteq> None \<and> f_node f = node_ptr (m_fs M) i))"

text \<open>The part of memory a task owns.\<close>

definition area :: "ktask \<Rightarrow> ptr \<times> usize" where
  "area t = (t_user_base t, t_user_len t)"

definition apart_areas :: "(ptr \<times> usize) list \<Rightarrow> bool" where
  "apart_areas as \<longleftrightarrow>
     (\<forall>i < length as. \<forall>j < length as. i \<noteq> j \<longrightarrow> disjoint_ranges (fst (as ! i)) (snd (as ! i)) (fst (as ! j)) (snd (as ! j)))"

definition tasks_rel ::
  "uart \<Rightarrow> u8 list \<Rightarrow> entry list \<Rightarrow> (ptr \<times> usize) list
   \<Rightarrow> machine \<times> ktask list \<Rightarrow> posix list \<times> u8 list \<Rightarrow> bool" where
  "tasks_rel u0 pre files as s a \<longleftrightarrow>
     length (snd s) = length (fst a) \<and> map area (snd s) = as \<and> apart_areas as \<and>
     uart_ready u0 (m_dev (fst s)) \<and>
     uart_sent u0 (m_dev (fst s)) = pre @ concat (map crlf (snd a)) \<and>
     (\<forall>i < length (snd s). t_write_byte (snd s ! i) = 0 \<and> listed files (fst s) (snd s ! i) \<and>
        px_out (fst a ! i) = [] \<and>
        represents u0 (uart_sent u0 (m_dev (fst s))) files (fst s) (snd s ! i) (fst a ! i))"

subsection \<open>What a step of another task leaves\<close>

lemma listed_put:
  assumes "listed files M t"
  shows "\<not> f_used f \<Longrightarrow> listed files M (put_file t fd f)"
    and "k < length files \<Longrightarrow> files ! k = Some e
      \<Longrightarrow> listed files M (put_file t fd \<lparr>f_node = node_ptr (m_fs M) k, f_offset = off, f_used = True\<rparr>)"
    and "get_file t fd' = Some f' \<Longrightarrow> f_used f' \<Longrightarrow> f_node f = f_node f' \<Longrightarrow> listed files M (put_file t fd f)"
  using assms unfolding listed_def put_file_def get_file_def
  by (auto dest!: set_update_subset_insert [THEN subsetD] split: if_splits)

lemma dispatch_listed:
  assumes rep: "represents u0 pre files M t px" and listed: "listed files M t"
    and run: "ksyscall_dispatch M (Some t) (Some r) = Some (res, Some t', M')"
  shows "listed files M' t'"
proof -
  have fs: "m_fs M' = m_fs M"
    using dispatch_once [OF rep, of r] run by (auto simp: kernel_frame_def)
  have "listed files M t'"
  proof (cases "ksyscall_number_of (ucast (r_nr r))")
    case None
    with run listed show ?thesis by (simp add: ksyscall_dispatch_def)
  next
    case (Some nr)
    show ?thesis
    proof (cases nr)
      case KSYSCALL_OPEN
      let ?p = "r_arg0 r" and ?n = "r_arg1 r"
      from Some run KSYSCALL_OPEN have o: "sys_open M (Some t) ?p ?n = Some (res, Some t', M')"
        by (simp add: ksyscall_dispatch_def)
      show ?thesis
      proof (cases "px_valid px ?p ?n")
        case True
        with o user_valid [OF representsD(2) [OF rep], of ?p ?n] open_slot [OF representsD(5) [OF rep]]
          lookup_user [OF rep True] listed show ?thesis
          by (auto simp: sys_open_def intro: listed_put(2) split: option.splits if_splits)
      next
        case False
        with o user_valid [OF representsD(2) [OF rep], of ?p ?n] listed show ?thesis by (simp add: sys_open_def)
      qed
    next
      case KSYSCALL_READ
      with Some run listed show ?thesis
        by (auto simp: ksyscall_dispatch_def sys_read_def bad_file_fd_def bind_eq_Some_conv
            intro: listed_put(3) split: if_splits)
    next
      case KSYSCALL_CLOSE
      with Some run listed show ?thesis
        by (auto simp: ksyscall_dispatch_def sys_close_def bind_eq_Some_conv intro: listed_put(1) split: if_splits)
    qed (use Some run listed in \<open>auto simp: ksyscall_dispatch_def sys_write_def sys_stat_def sys_getpid_def sys_exit_def
        bind_eq_Some_conv Let_def split: if_splits\<close>)
  qed
  with fs show ?thesis by (simp add: listed_def)
qed

lemma node_rep_unique:
  assumes "node_rep fs m node pth c" "node_rep fs m node pth' c'"
  shows "pth = pth' \<and> c = c'"
proof
  from assms(1) obtain nd where nd: "node_at fs node = Some nd" "cstring_at m (node_path nd) pth"
    "node_size nd = of_nat (length c)" "length c < 2 ^ 64" "holds m (node_data nd) c"
    unfolding node_rep_def by blast
  from assms(2) obtain nd' where nd': "node_at fs node = Some nd'" "cstring_at m (node_path nd') pth'"
    "node_size nd' = of_nat (length c')" "length c' < 2 ^ 64" "holds m (node_data nd') c'"
    unfolding node_rep_def by blast
  from nd(1) nd'(1) have eq: "nd' = nd" by simp
  note s = nd(2) nd'(2) [unfolded eq] and d = nd(5) nd'(5) [unfolded eq]
  have n: "length c < 2 ^ 64" "length c' < 2 ^ 64" "(of_nat (length c) :: u64) = of_nat (length c')"
    using nd(3,4) nd'(3,4) unfolding eq by simp_all
  from kstrlen_spec [OF s(1)] kstrlen_spec [OF s(2)]
  have "(of_nat (length pth) :: u64) = of_nat (length pth')" by simp
  moreover have "length pth < 2 ^ 64" "length pth' < 2 ^ 64" using s by (simp_all add: cstring_at_def)
  ultimately have "length pth = length pth'" using unat_of_nat64 by metis
  with cstring_holds [OF s(1)] cstring_holds [OF s(2)] show "pth = pth'" by (rule holds_unique)
  from n have "length c = length c'" using unat_of_nat64 by metis
  with d show "c = c'" by (rule holds_unique)
qed

lemma isolated_other:
  assumes u: "isolated fs m u node pth c" and t: "isolated fs m t node pth' c'"
    and frame: "\<And>q. \<not> in_range q (t_user_base t) (t_user_len t) \<Longrightarrow> m' q = m q"
  shows "isolated fs m' u node pth c"
proof -
  have "isolated fs m' t node pth' c'" by (rule isolated_frame [OF t frame]) simp_all
  moreover have "pth = pth' \<and> c = c'"
    using u t by (intro node_rep_unique [of fs m node]) (simp_all add: isolated_def)
  ultimately show ?thesis using u by (simp add: isolated_def)
qed

lemma represents_other:
  assumes t: "represents u0 pre files M t px" and frame: "kernel_frame M t M' t'"
    and u: "represents u0 pre files M u pu" and listed: "listed files M u"
    and apart: "disjoint_ranges (t_user_base t) (t_user_len t) (t_user_base u) (t_user_len u)"
    and log: "t_write_byte u = 0" "px_out pu = []" "uart_ready u0 (m_dev M')"
  shows "represents u0 (uart_sent u0 (m_dev M')) files M' u pu"
proof -
  have fs: "m_fs M' = m_fs M" and out: "\<And>q. \<not> in_range q (t_user_base t) (t_user_len t) \<Longrightarrow> m_mem M' q = m_mem M q"
    using frame by (auto simp: kernel_frame_def)
  note ur = representsD(2) [OF u]
  then have len: "of_nat (length (px_mem pu)) = t_user_len u" "length (px_mem pu) < 2 ^ 64"
    by (auto simp: user_rel_def unat_lt_64)
  have "holds (m_mem M') (px_base pu) (px_mem pu)"
  proof (rule holds_frame)
    show "holds (m_mem M) (px_base pu) (px_mem pu)" using ur unfolding user_rel_def by blast
    fix i assume "i < length (px_mem pu)"
    with apart len ur have "\<not> in_range (px_base pu + of_nat i) (t_user_base t) (t_user_len t)"
      by (intro disjoint_frame [where k = "length (px_mem pu)"]) (simp_all add: user_rel_def)
    then show "m_mem M' (px_base pu + of_nat i) = m_mem M (px_base pu + of_nat i)" by (rule out)
  qed
  then have "user_rel (m_mem M') u (px_base pu) (px_mem pu)" using ur unfolding user_rel_def by blast
  moreover have table: "isolated (m_fs M) (m_mem M') u node pth c"
    if "isolated (m_fs M) (m_mem M) u node pth c" "isolated (m_fs M) (m_mem M) t node pth' c'" for node pth c pth' c'
    using that out by (rule isolated_other)
  have nodes: "isolated (m_fs M) (m_mem M) t (node_ptr (m_fs M) i) pth c"
    "isolated (m_fs M) (m_mem M) u (node_ptr (m_fs M) i) pth c"
    if "i < length files" "files ! i = Some (pth, c)" for i pth c
    using that representsD(3) [OF t] representsD(3) [OF u] by (auto simp: files_rel_def)
  have "files_rel files M' u"
    using representsD(3) [OF u] table [OF nodes(2) nodes(1)] fs
    unfolding files_rel_def fs_rep_def entry_rep_def isolated_def
    by (auto split: option.splits if_splits prod.splits)
  moreover have "open_file M' u f e" if "open_file M u f e" "f \<in> set (t_files u)" for f e
  proof (cases "f_used f")
    case True
    with listed that obtain i pth' c' where "i < length files" "files ! i = Some (pth', c')"
      and node: "f_node f = node_ptr (m_fs M) i" by (fastforce simp: listed_def)
    from table [OF _ nodes(1) [OF this(1,2)]] that(1) node fs show ?thesis
      by (fastforce simp: open_file_def split: option.splits)
  qed (use that(1) in \<open>auto simp: open_file_def split: option.splits\<close>)
  then have "fds_rel M' u (px_fds pu)" using representsD(5) [OF u] by (simp add: fds_rel_def)
  ultimately show ?thesis using u log by (simp add: represents_def sink_rel_def)
qed

subsection \<open>The interleaved run\<close>

lemma quiet_simps [simp]:
  "px_out (quiet px) = []" "quiet (quiet px) = quiet px" "px_out px = [] \<Longrightarrow> quiet px = px"
  by (simp_all add: quiet_def)

lemma frame_task:
  assumes "kernel_frame M t M' t'"
  shows "t_user_base t' = t_user_base t" "t_user_len t' = t_user_len t" "t_write_byte t' = t_write_byte t"
proof -
  from assms have "t' = t\<lparr>t_files := t_files t'\<rparr>" by (simp add: kernel_frame_def)
  then have "t_user_base t' = t_user_base (t\<lparr>t_files := t_files t'\<rparr>)" "t_user_len t' = t_user_len (t\<lparr>t_files := t_files t'\<rparr>)"
    "t_write_byte t' = t_write_byte (t\<lparr>t_files := t_files t'\<rparr>)" by simp_all
  then show "t_user_base t' = t_user_base t" "t_user_len t' = t_user_len t" "t_write_byte t' = t_write_byte t" by simp_all
qed

lemma tasks_step_sim:
  assumes rel: "tasks_rel u0 pre files as (M, ts) (pxs, out)" and k: "k < length ts"
  shows "\<exists>t' M'. ksyscall_dispatch M (Some (ts ! k)) (Some r) = Some (snd (posix_call (pxs ! k) r), Some t', M') \<and>
    tasks_rel u0 pre files as (M', ts[k := t'])
      (pxs[k := quiet (fst (posix_call (pxs ! k) r))], out @ px_out (fst (posix_call (pxs ! k) r)))"
proof -
  let ?t = "ts ! k" and ?px = "pxs ! k" and ?sent = "uart_sent u0 (m_dev M)"
  let ?px' = "fst (posix_call ?px r)"
  from rel have len: "length ts = length pxs" and areas: "map area ts = as" and apart: "apart_areas as" and sent: "?sent = pre @ concat (map crlf out)"
    and each: "\<And>i. i < length ts \<Longrightarrow> t_write_byte (ts ! i) = 0 \<and> listed files M (ts ! i) \<and> px_out (pxs ! i) = []
      \<and> represents u0 ?sent files M (ts ! i) (pxs ! i)"
    by (auto simp: tasks_rel_def)
  note own = each [OF k]
  then obtain t' M' where run: "ksyscall_dispatch M (Some ?t) (Some r) = Some (snd (posix_call ?px r), Some t', M')"
    and rep: "represents u0 ?sent files M' t' ?px'" and frame: "kernel_frame M ?t M' t'"
    using dispatch_once by blast
  note same = frame_task [OF frame]
  have ready: "uart_ready u0 (m_dev M')" and sent': "uart_sent u0 (m_dev M') = ?sent @ concat (map crlf (px_out ?px'))"
    using representsD(6) [OF rep] own same by (simp_all add: sink_rel_def)
  have fs: "m_fs M' = m_fs M" using frame by (simp add: kernel_frame_def)
  have areas': "map area (ts[k := t']) = as"
  proof -
    have "area t' = map area ts ! k" using same k by (simp add: area_def)
    then show ?thesis using areas by (simp add: map_update)
  qed
  have new: "t_write_byte u = 0 \<and> listed files M' u \<and> px_out pu = [] \<and> represents u0 (uart_sent u0 (m_dev M')) files M' u pu"
    if "i < length ts" "u = ts[k := t'] ! i" "pu = pxs[k := quiet ?px'] ! i" for i u pu
  proof (cases "i = k")
    case True
    with that k len have u: "u = t'" "pu = quiet ?px'" by simp_all
    moreover have "represents u0 (uart_sent u0 (m_dev M')) files M' t' (quiet ?px')"
      using rep ready own same by (simp add: represents_def sink_rel_def quiet_def)
    moreover have "listed files M' t'" using dispatch_listed [OF _ _ run] own by blast
    ultimately show ?thesis using own same by simp
  next
    case False
    with that have u: "u = ts ! i" "pu = pxs ! i" by simp_all
    note other = each [OF that(1)]
    have "disjoint_ranges (t_user_base ?t) (t_user_len ?t) (t_user_base u) (t_user_len u)"
      using apart k that(1) False u unfolding areas [symmetric] by (auto simp: apart_areas_def area_def)
    then have "represents u0 (uart_sent u0 (m_dev M')) files M' u pu"
      using represents_other [OF _ frame _ _ _ _ _ ready] own other u by blast
    with other u fs show ?thesis by (simp add: listed_def)
  qed
  have "tasks_rel u0 pre files as (M', ts[k := t']) (pxs[k := quiet ?px'], out @ px_out ?px')"
    unfolding tasks_rel_def fst_conv snd_conv length_list_update
  proof (intro conjI allI impI)
    fix i
    assume "i < length ts"
    from new [OF this refl refl]
    show "t_write_byte (ts[k := t'] ! i) = 0" "listed files M' (ts[k := t'] ! i)" "px_out (pxs[k := quiet ?px'] ! i) = []"
      "represents u0 (uart_sent u0 (m_dev M')) files M' (ts[k := t'] ! i) (pxs[k := quiet ?px'] ! i)" by blast+
  qed (simp_all add: len ready sent sent' areas' apart)
  with run show ?thesis by blast
qed

interpretation tasks: simulation task_step tasks_call "tasks_rel u0 pre files as" for u0 pre files as
proof
  fix s :: "machine \<times> ktask list" and a :: "posix list \<times> u8 list" and i :: "nat \<times> ksyscall_regs"
  obtain M ts pxs out k r where parts: "s = (M, ts)" "a = (pxs, out)" "i = (k, r)" by (metis surj_pair)
  assume rel: "tasks_rel u0 pre files as s a"
  then have len: "length ts = length pxs" and still: "k < length ts \<Longrightarrow> px_out (pxs ! k) = []"
    unfolding parts by (simp_all add: tasks_rel_def)
  show "\<exists>t. task_step s i = Some (t, snd (tasks_call a i)) \<and> tasks_rel u0 pre files as t (fst (tasks_call a i))"
  proof (cases "k < length ts")
    case True
    with tasks_step_sim [OF rel [unfolded parts] True, of r] len still show ?thesis
      by (auto simp: parts task_step_def tasks_call_def split: prod.split)
  next
    case False
    with rel len show ?thesis
      by (simp add: parts task_step_def tasks_call_def dispatch_null_task)
  qed
qed

subsection \<open>Non-interference\<close>

text \<open>The calls of one task in a schedule, and what they return.\<close>

definition calls_of :: "nat \<Rightarrow> (nat \<times> ksyscall_regs) list \<Rightarrow> ksyscall_regs list" where
  "calls_of k sch = map snd (filter (\<lambda>i. fst i = k) sch)"

definition results_of :: "nat \<Rightarrow> (nat \<times> ksyscall_regs) list \<Rightarrow> 'r list \<Rightarrow> 'r list" where
  "results_of k sch rs = map snd (filter (\<lambda>x. fst (fst x) = k) (zip sch rs))"

definition same_quiet :: "posix \<times> ksyscall_result \<Rightarrow> posix \<times> ksyscall_result \<Rightarrow> bool" where
  "same_quiet p q \<longleftrightarrow> snd p = snd q \<and> quiet (fst p) = quiet (fst q)"

lemma quiet_reads:
  "px_valid (quiet px) p n = px_valid px p n" "px_slice (quiet px) p n = px_slice px p n"
  "px_resolve (quiet px) p n = px_resolve px p n" "px_fds (quiet px) = px_fds px" "px_pid (quiet px) = px_pid px"
  by (simp_all add: px_valid_def px_slice_def px_off_def px_resolve_def quiet_def)

lemma quiet_updates:
  "quiet (px_store p bs px) = px_store p bs (quiet px)"
  "quiet (px\<lparr>px_fds := fds\<rparr>) = quiet px\<lparr>px_fds := fds\<rparr>"
  "quiet (px\<lparr>px_out := bs\<rparr>) = quiet px"
  "quiet px\<lparr>px_out := []\<rparr> = quiet px"
  by (simp_all add: px_store_def px_off_def quiet_def)

lemma quiet_read: "same_quiet (px_read (quiet px) fd p n) (px_read px fd p n)"
  by (simp add: same_quiet_def px_read_def quiet_reads quiet_updates Let_def split: option.split)

lemma quiet_write: "same_quiet (px_write (quiet px) fd p n) (px_write px fd p n)"
  by (simp add: same_quiet_def px_write_def quiet_reads quiet_updates)

lemma quiet_open: "same_quiet (px_open (quiet px) p n) (px_open px p n)"
  by (simp add: same_quiet_def px_open_def quiet_reads quiet_updates split: option.split)

lemma quiet_close: "same_quiet (px_close (quiet px) fd) (px_close px fd)"
  by (simp add: same_quiet_def px_close_def quiet_reads quiet_updates)

lemma quiet_stat: "same_quiet (px_stat (quiet px) p n sp) (px_stat px p n sp)"
  by (simp add: same_quiet_def px_stat_def quiet_reads quiet_updates split: option.split)

lemma px_quiet:
  "snd (posix_call (quiet px) r) = snd (posix_call px r)"
  "quiet (fst (posix_call (quiet px) r)) = quiet (fst (posix_call px r))"
proof -
  have "same_quiet (posix_call (quiet px) r) (posix_call px r)"
    using quiet_read quiet_write quiet_open quiet_close quiet_stat
    by (cases "ksyscall_number_of (ucast (r_nr r))"; simp add: posix_call_def split: ksyscall_number.split)
       (simp_all add: same_quiet_def quiet_reads)
  then show "snd (posix_call (quiet px) r) = snd (posix_call px r)"
    "quiet (fst (posix_call (quiet px) r)) = quiet (fst (posix_call px r))"
    by (simp_all add: same_quiet_def)
qed

lemma quiet_outputs:
  "quiet px = quiet px' \<Longrightarrow> snd (spec_outputs posix_call px rs) = snd (spec_outputs posix_call px' rs) \<and>
     quiet (fst (spec_outputs posix_call px rs)) = quiet (fst (spec_outputs posix_call px' rs))"
proof (induction rs arbitrary: px px')
  case (Cons r rs)
  from px_quiet [of px r] px_quiet [of px' r] Cons.prems
  have "snd (posix_call px r) = snd (posix_call px' r)" "quiet (fst (posix_call px r)) = quiet (fst (posix_call px' r))"
    by simp_all
  with Cons.IH [OF this(2)] show ?case by (simp add: case_prod_beta Let_def)
qed simp

lemma tasks_project:
  assumes "k < length pxs"
  shows "results_of k sch (snd (spec_outputs tasks_call (pxs, out) sch)) = snd (spec_outputs posix_call (pxs ! k) (calls_of k sch))
    \<and> quiet (fst (fst (spec_outputs tasks_call (pxs, out) sch)) ! k) = quiet (fst (spec_outputs posix_call (pxs ! k) (calls_of k sch)))
    \<and> length (fst (fst (spec_outputs tasks_call (pxs, out) sch))) = length pxs"
  using assms
proof (induction sch arbitrary: pxs out)
  case (Cons i sch)
  obtain j r where i: "i = (j, r)" by (cases i)
  have skip: "calls_of k (i # sch) = (if j = k then [r] else []) @ calls_of k sch"
    "results_of k (i # sch) (res # rs) = (if j = k then [res] else []) @ results_of k sch rs" for res and rs :: "ksyscall_result list"
    by (simp_all add: i calls_of_def results_of_def)
  show ?case
  proof (cases "j < length pxs")
    case True
    let ?p = "posix_call (quiet (pxs ! j)) r" and ?q = "posix_call (pxs ! j) r"
    let ?pxs = "pxs[j := quiet (fst ?p)]" and ?out = "out @ px_out (fst ?p)"
    have step: "tasks_call (pxs, out) i = ((?pxs, ?out), snd ?q)"
      using True by (simp add: i tasks_call_def px_quiet case_prod_beta Let_def)
    have IH: "results_of k sch (snd (spec_outputs tasks_call (?pxs, ?out) sch)) = snd (spec_outputs posix_call (?pxs ! k) (calls_of k sch))
        \<and> quiet (fst (fst (spec_outputs tasks_call (?pxs, ?out) sch)) ! k) = quiet (fst (spec_outputs posix_call (?pxs ! k) (calls_of k sch)))
        \<and> length (fst (fst (spec_outputs tasks_call (?pxs, ?out) sch))) = length ?pxs"
      using Cons.prems by (intro Cons.IH) simp
    have "quiet (?pxs ! k) = quiet (if j = k then fst ?q else pxs ! k)"
      using True by (simp add: nth_list_update px_quiet)
    from quiet_outputs [OF this, of "calls_of k sch"] IH show ?thesis
      by (auto simp: step skip case_prod_beta Let_def)
  next
    case False
    then have "tasks_call (pxs, out) i = ((pxs, out), null_task_result r)" by (simp add: i tasks_call_def)
    moreover have "j \<noteq> k" using False Cons.prems by auto
    ultimately show ?thesis using Cons.IH [OF Cons.prems, of out] by (simp add: skip case_prod_beta Let_def)
  qed
qed (simp add: results_of_def calls_of_def)

subsection \<open>What the run of a task leaves in its memory\<close>

lemma quiet_mem [simp]: "px_mem (quiet px) = px_mem px" "px_base (quiet px) = px_base px"
  by (simp_all add: quiet_def)

lemma tasks_run:
  assumes rel: "tasks_rel u0 pre files as (M, ts) (pxs, out)" and k: "k < length ts"
  shows "\<exists>M' ts' rs. run_outputs task_step (M, ts) sch = Some ((M', ts'), rs) \<and>
    results_of k sch rs = snd (spec_outputs posix_call (pxs ! k) (calls_of k sch)) \<and>
    (\<forall>q. in_range q (t_user_base (ts ! k)) (t_user_len (ts ! k)) \<longrightarrow>
       m_mem M' q = Some (px_mem (fst (spec_outputs posix_call (pxs ! k) (calls_of k sch))) ! unat (q - t_user_base (ts ! k))))"
proof -
  let ?px = "fst (spec_outputs posix_call (pxs ! k) (calls_of k sch))"
  from tasks.run_sim [OF rel, of sch] obtain s' where
    run: "run_outputs task_step (M, ts) sch = Some (s', snd (spec_outputs tasks_call (pxs, out) sch))"
    and rel': "tasks_rel u0 pre files as s' (fst (spec_outputs tasks_call (pxs, out) sch))" by blast
  obtain M' ts' where s': "s' = (M', ts')" by (cases s')
  have "k < length pxs" using rel k by (simp add: tasks_rel_def)
  note own = tasks_project [OF this, of sch out]
  have k': "k < length ts'" using rel' own k rel by (simp add: tasks_rel_def s')
  have "map area ts = as" "map area ts' = as" using rel rel' by (simp_all add: tasks_rel_def s')
  then have "area (ts' ! k) = area (ts ! k)" using k k' nth_map by metis
  moreover have "user_rel (m_mem M') (ts' ! k) (px_base ?px) (px_mem ?px)"
  proof -
    let ?p = "fst (fst (spec_outputs tasks_call (pxs, out) sch)) ! k"
    have "user_rel (m_mem M') (ts' ! k) (px_base ?p) (px_mem ?p)"
      using rel' k' by (auto simp: tasks_rel_def s' dest: representsD(2))
    moreover have "px_base ?p = px_base ?px" "px_mem ?p = px_mem ?px"
      using own by (metis quiet_mem)+
    ultimately show ?thesis by simp
  qed
  ultimately have h: "holds (m_mem M') (t_user_base (ts ! k)) (px_mem ?px)" "length (px_mem ?px) = unat (t_user_len (ts ! k))"
    unfolding user_rel_def area_def by auto
  have "m_mem M' q = Some (px_mem ?px ! unat (q - t_user_base (ts ! k)))"
    if "in_range q (t_user_base (ts ! k)) (t_user_len (ts ! k))" for q
    using holds_word [OF h(1), of "q - t_user_base (ts ! k)"] that h(2) by (simp add: in_range_def word_less_nat_alt)
  with run own show ?thesis unfolding s' by blast
qed

end
