(* ===== verification/Linux.thy ===== *)
theory Linux
  imports Prelude
begin

section \<open>User-space programs over an arbitrary operating system\<close>

text \<open>
  The demos under \<open>src/src\<close> are single-threaded C programs whose behaviour is the calls they
  make. A program is a function of the state of its process: the operating system, which is an
  arbitrary function from the calls made so far and the next call to a reply, the log of calls
  and replies, and \<open>errno\<close>. Nothing is assumed of the replies; a theorem that needs documented
  behaviour of a call says so in its hypotheses.

  A program ends with a value, with \<open>exit\<close>, or by becoming another program; \<^const>\<open>None\<close> is a run
  that never ends. \<open>errno\<close> after a call is whatever the reply says, also when the call succeeds,
  as POSIX allows. What is given to the standard output and error streams is a list of pieces,
  since the text of an error number is the C library's, and \<open>Str_at\<close> is the text in memory at an
  address; the calls of the library that fill and flush a stream are the events \<open>Stdout\<close>,
  \<open>Stderr\<close> and \<open>Lib_fflush\<close>.
\<close>

subsection \<open>Calls and replies\<close>

datatype piece = Txt string | Dec int | Hex int | Ptr int | Str_at int | Strerror int | Strsignal int

abbreviation NL :: piece where
  "NL \<equiv> Txt [CHR 0x0A]"

text \<open>The structure behind the pointer that \<open>clone\<close> passes to the child's function, field by field in
  the order of its declaration; none for \<open>NULL\<close>.\<close>

datatype c_field = Int_field int | Str_field string | Strs_field "string list"

text \<open>\<open>clone\<close> has the top of the child's stack, the flags and that argument.\<close>

datatype linux_call =
    Sys_open string "string list"
  | Sys_read int int
  | Sys_write int string
  | Sys_close int
  | Sys_mkdir string int
  | Sys_rmdir string
  | Sys_pipe
  | Sys_fork
  | Sys_clone int "string list" "c_field list"
  | Sys_waitpid int
  | Sys_getpid
  | Sys_getppid
  | Sys_getuid
  | Sys_getgid
  | Sys_sethostname string
  | Sys_gethostname int
  | Sys_mount "string option" string "string option" "string list" "string option"
  | Sys_chroot string
  | Sys_chdir string
  | Sys_execvp string "string list"
  | Sys_mmap int "string list" int
  | Sys_munmap int int
  | Sys_ioctl int string "int list"
  | Sys_prctl string "int list"
  | Sys_socket "string list"
  | Sys_capget
  | Sys_capset "(u32 \<times> u32 \<times> u32) list"
  | Sys_syscall string "int list"
  | Lib_malloc int
  | Lib_memcpy int "u8 list"
  | Lib_free int
  | Lib_sysconf string
  | Lib_fopen string string
  | Lib_getline int int
  | Lib_fgets int int
  | Lib_fclose int
  | Lib_fflush
  | Stdout "piece list"
  | Stderr "piece list"

text \<open>The value returned, \<open>errno\<close> afterwards, and what the call stored through its pointers: numbers
  and text.\<close>

record reply =
  rp_value :: int
  rp_errno :: int
  rp_nums :: "int list"
  rp_text :: string

type_synonym event = "linux_call \<times> reply"

record proc =
  os :: "event list \<Rightarrow> linux_call \<Rightarrow> reply"
  log :: "event list"
  errno :: int

subsection \<open>Programs\<close>

datatype 'a outcome = Value 'a | Exited int | Replaced

type_synonym 'a prog = "proc \<Rightarrow> ('a outcome \<times> proc) option"

definition ret :: "'a \<Rightarrow> 'a prog" where
  "ret x s = Some (Value x, s)"

definition seq :: "'a prog \<Rightarrow> ('a \<Rightarrow> 'b prog) \<Rightarrow> 'b prog" where
  "seq m f s =
     (case m s of
        None \<Rightarrow> None
      | Some (Value x, s') \<Rightarrow> f x s'
      | Some (Exited c, s') \<Rightarrow> Some (Exited c, s')
      | Some (Replaced, s') \<Rightarrow> Some (Replaced, s'))"

definition exit_with :: "int \<Rightarrow> 'a prog" where
  "exit_with c s = Some (Exited c, s)"

definition call :: "linux_call \<Rightarrow> reply prog" where
  "call c s =
     (let r = os s (log s) c in Some (Value r, s\<lparr>log := log s @ [(c, r)], errno := rp_errno r\<rparr>))"

definition get_errno :: "int prog" where
  "get_errno s = Some (Value (errno s), s)"

definition set_errno :: "int \<Rightarrow> unit prog" where
  "set_errno e s = Some (Value (), s\<lparr>errno := e\<rparr>)"

definition sys :: "linux_call \<Rightarrow> int prog" where
  "sys c = seq (call c) (\<lambda>r. ret (rp_value r))"

definition ignore :: "linux_call \<Rightarrow> unit prog" where
  "ignore c = seq (call c) (\<lambda>_. ret ())"

abbreviation print :: "piece list \<Rightarrow> unit prog" where
  "print ps \<equiv> ignore (Stdout ps)"

abbreviation eprint :: "piece list \<Rightarrow> unit prog" where
  "eprint ps \<equiv> ignore (Stderr ps)"

definition perror :: "string \<Rightarrow> unit prog" where
  "perror msg = seq get_errno (\<lambda>e. eprint [Txt msg, Txt '': '', Strerror e])"

text \<open>\<open>perror(msg); exit(EXIT_FAILURE);\<close>\<close>

definition die :: "string \<Rightarrow> 'a prog" where
  "die msg = seq (perror msg) (\<lambda>_. exit_with 1)"

text \<open>\<open>execvp\<close> returns only when it fails.\<close>

definition execvp :: "string \<Rightarrow> string list \<Rightarrow> int prog" where
  "execvp file args s =
     (case call (Sys_execvp file args) s of
        Some (Value r, s') \<Rightarrow> if rp_value r < 0 then Some (Value (rp_value r), s') else Some (Replaced, s')
      | _ \<Rightarrow> None)"

subsection \<open>Numbers, names and the wait status\<close>

function dec_nat :: "nat \<Rightarrow> string" where
  "dec_nat n = (if n < 10 then [char_of (48 + n)] else dec_nat (n div 10) @ [char_of (48 + n mod 10)])"
  by pat_completeness auto
termination
  by (relation "measure id") auto

declare dec_nat.simps [simp del]

text \<open>\<open>%d\<close> and \<open>%ld\<close>.\<close>

definition dec :: "int \<Rightarrow> string" where
  "dec i = (if i < 0 then CHR ''-'' # dec_nat (nat (- i)) else dec_nat (nat i))"

lemma dec_not_Nil [simp]: "dec i \<noteq> []" "dec_nat n \<noteq> []"
  by (auto simp: dec_def) (subst (asm) dec_nat.simps, simp split: if_splits)+

text \<open>A line of text.\<close>

definition ln :: "string \<Rightarrow> string" where
  "ln s = s @ [CHR 0x0A]"

lemma length_ln [simp]: "length (ln s) = Suc (length s)"
  by (simp add: ln_def)

lemma ln_eq_Cons [simp]: "ln s \<noteq> [c] \<longleftrightarrow> s \<noteq> [] \<or> c \<noteq> CHR 0x0A"
  by (auto simp: ln_def append_eq_Cons_conv)

text \<open>A string literal in memory.\<close>

definition c_bytes :: "string \<Rightarrow> u8 list" where
  "c_bytes s = map of_char s @ [0]"

text \<open>What \<open>snprintf\<close> leaves in a buffer of the given size.\<close>

definition snprintf :: "nat \<Rightarrow> string \<Rightarrow> string" where
  "snprintf cap s = take (cap - 1) s"

text \<open>The \<open>k\<close>-th number a call stored.\<close>

definition num :: "reply \<Rightarrow> nat \<Rightarrow> int" where
  "num r k = (if k < length (rp_nums r) then rp_nums r ! k else 0)"

definition arg0 :: "string list \<Rightarrow> string" where
  "arg0 argv = (case argv of [] \<Rightarrow> [] | a # _ \<Rightarrow> a)"

definition EPERM :: int where "EPERM = 1"
definition ENOENT :: int where "ENOENT = 2"
definition EINTR :: int where "EINTR = 4"
definition EIO :: int where "EIO = 5"
definition EACCES :: int where "EACCES = 13"
definition EBUSY :: int where "EBUSY = 16"
definition EEXIST :: int where "EEXIST = 17"
definition ENODEV :: int where "ENODEV = 19"
definition EINVAL :: int where "EINVAL = 22"
definition EROFS :: int where "EROFS = 30"
definition ENAMETOOLONG :: int where "ENAMETOOLONG = 36"

lemmas errno_defs = EPERM_def ENOENT_def EINTR_def EIO_def EACCES_def EBUSY_def EEXIST_def ENODEV_def
  EINVAL_def EROFS_def ENAMETOOLONG_def

text \<open>The macros of \<open>sys/wait.h\<close>, on the two's complement status: the low 7 bits are the signal,
  0 for an exit and 127 for a stop, and the next 8 bits of an exit its code.\<close>

definition WTERMSIG :: "int \<Rightarrow> int" where
  "WTERMSIG status = status mod 128"

definition WIFEXITED :: "int \<Rightarrow> bool" where
  "WIFEXITED status \<longleftrightarrow> WTERMSIG status = 0"

definition WEXITSTATUS :: "int \<Rightarrow> int" where
  "WEXITSTATUS status = status div 256 mod 256"

definition WIFSIGNALED :: "int \<Rightarrow> bool" where
  "WIFSIGNALED status \<longleftrightarrow> 0 < WTERMSIG status \<and> WTERMSIG status < 127"

text \<open>A C loop: a round gives the next loop state, or leaves the loop. A loop that is never left
  has no result.\<close>

partial_function (option) loop ::
  "('a \<Rightarrow> proc \<Rightarrow> (('a + 'b) outcome \<times> proc) option) \<Rightarrow> 'a \<Rightarrow> proc \<Rightarrow> ('b outcome \<times> proc) option" where
  "loop body x s =
     (case body x s of
        None \<Rightarrow> None
      | Some (Value (Inl y), s') \<Rightarrow> loop body y s'
      | Some (Value (Inr z), s') \<Rightarrow> Some (Value z, s')
      | Some (Exited c, s') \<Rightarrow> Some (Exited c, s')
      | Some (Replaced, s') \<Rightarrow> Some (Replaced, s'))"

subsection \<open>Reasoning about runs\<close>

text \<open>The state after a call. It stays folded, so that the state after a long run is a short term.\<close>

definition after :: "proc \<Rightarrow> linux_call \<Rightarrow> reply \<Rightarrow> proc" where
  "after s c r = s\<lparr>log := log s @ [(c, r)], errno := rp_errno r\<rparr>"

lemma after_sel [simp]:
  "os (after s c r) = os s" "log (after s c r) = log s @ [(c, r)]" "errno (after s c r) = rp_errno r"
  by (simp_all add: after_def)

definition answers :: "proc \<Rightarrow> linux_call \<Rightarrow> reply \<Rightarrow> bool" where
  "answers s c r \<longleftrightarrow> r = os s (log s) c"

text \<open>Every run of \<open>m\<close> from \<open>s\<close> that ends does so in an outcome and a state that satisfy \<open>Q\<close>; and
  there is such a run.\<close>

definition wlp :: "'a prog \<Rightarrow> ('a outcome \<Rightarrow> proc \<Rightarrow> bool) \<Rightarrow> proc \<Rightarrow> bool" where
  "wlp m Q s \<longleftrightarrow> (\<forall>r s'. m s = Some (r, s') \<longrightarrow> Q r s')"

definition finishes :: "'a prog \<Rightarrow> proc \<Rightarrow> bool" where
  "finishes m s \<longleftrightarrow> (\<exists>r s'. m s = Some (r, s'))"

lemma wlpI: "(\<And>r s'. m s = Some (r, s') \<Longrightarrow> Q r s') \<Longrightarrow> wlp m Q s"
  by (simp add: wlp_def)

lemma wlpD: "wlp m Q s \<Longrightarrow> m s = Some (r, s') \<Longrightarrow> Q r s'"
  by (simp add: wlp_def)

lemma wlp_conseq: "wlp m P s \<Longrightarrow> (\<And>r s'. P r s' \<Longrightarrow> Q r s') \<Longrightarrow> wlp m Q s"
  by (simp add: wlp_def)

named_theorems wlp_simps \<open>the weakest precondition of each construct\<close>

text \<open>The post-condition of the first part of a sequence.\<close>

definition continue :: "('a \<Rightarrow> 'b prog) \<Rightarrow> ('b outcome \<Rightarrow> proc \<Rightarrow> bool) \<Rightarrow> 'a outcome \<Rightarrow> proc \<Rightarrow> bool" where
  "continue f Q r s = (case r of Value x \<Rightarrow> wlp (f x) Q s | Exited c \<Rightarrow> Q (Exited c) s | Replaced \<Rightarrow> Q Replaced s)"

lemma continue_simps [wlp_simps]:
  "continue f Q (Value x) s = wlp (f x) Q s"
  "continue f Q (Exited c) s = Q (Exited c) s"
  "continue f Q Replaced s = Q Replaced s"
  by (simp_all add: continue_def)

lemma wlp_seq [wlp_simps]: "wlp (seq m f) Q s = wlp m (continue f Q) s"
  by (auto simp: wlp_def seq_def continue_def split: option.splits outcome.splits prod.splits)

lemma wlp_if [wlp_simps]: "wlp (if b then m else m') Q s = (if b then wlp m Q s else wlp m' Q s)"
  by simp

lemma wlp_call [wlp_simps]: "wlp (call c) Q s \<longleftrightarrow> (\<forall>r. answers s c r \<longrightarrow> Q (Value r) (after s c r))"
  by (simp add: wlp_def call_def answers_def after_def Let_def)

lemma wlp_basic [wlp_simps]:
  "wlp (ret x) Q s = Q (Value x) s"
  "wlp (exit_with c) Q s = Q (Exited c) s"
  "wlp get_errno Q' s = Q' (Value (errno s)) s"
  "wlp (set_errno e) Q'' s = Q'' (Value ()) (s\<lparr>errno := e\<rparr>)"
  by (simp_all add: wlp_def ret_def exit_with_def get_errno_def set_errno_def)

lemma wlp_sys [wlp_simps]: "wlp (sys c) Q s \<longleftrightarrow> (\<forall>r. answers s c r \<longrightarrow> Q (Value (rp_value r)) (after s c r))"
  by (simp add: sys_def wlp_simps)

lemma wlp_ignore [wlp_simps]: "wlp (ignore c) Q s \<longleftrightarrow> (\<forall>r. answers s c r \<longrightarrow> Q (Value ()) (after s c r))"
  by (simp add: ignore_def wlp_simps)

lemma wlp_execvp [wlp_simps]:
  "wlp (execvp file args) Q s \<longleftrightarrow>
     (\<forall>r. answers s (Sys_execvp file args) r \<longrightarrow>
        (if rp_value r < 0 then Q (Value (rp_value r)) (after s (Sys_execvp file args) r)
         else Q Replaced (after s (Sys_execvp file args) r)))"
  by (simp add: wlp_def execvp_def call_def answers_def after_def Let_def)

lemma wlp_perror [wlp_simps]:
  "wlp (perror msg) Q s \<longleftrightarrow>
     (\<forall>r. answers s (Stderr [Txt msg, Txt '': '', Strerror (errno s)]) r \<longrightarrow>
        Q (Value ()) (after s (Stderr [Txt msg, Txt '': '', Strerror (errno s)]) r))"
  by (simp add: perror_def wlp_simps)

lemma wlp_die [wlp_simps]:
  "wlp (die msg) Q s \<longleftrightarrow>
     (\<forall>r. answers s (Stderr [Txt msg, Txt '': '', Strerror (errno s)]) r \<longrightarrow>
        Q (Exited 1) (after s (Stderr [Txt msg, Txt '': '', Strerror (errno s)]) r))"
  by (simp add: die_def wlp_simps)

text \<open>The same, stopping at the calls of other functions, which are reasoned about by their own
  specifications.\<close>

lemmas wlp_step =
  wlp_seq [where m = "sys c" for c] wlp_seq [where m = "call c" for c] wlp_seq [where m = "ignore c" for c]
  wlp_seq [where m = get_errno] wlp_seq [where m = "set_errno e" for e] wlp_seq [where m = "ret x" for x]
  wlp_seq [where m = "perror msg" for msg] wlp_seq [where m = "if b then m1 else m2" for b m1 m2]
  wlp_seq [where m = "execvp f as" for f as] wlp_seq [where m = "seq m1 m2" for m1 m2]
  wlp_if wlp_call wlp_basic wlp_sys wlp_ignore wlp_execvp wlp_perror wlp_die continue_simps

text \<open>A loop keeps its invariant as long as it goes on.\<close>

lemma wlp_loop:
  assumes inv: "I x s"
    and round: "\<And>x s. I x s \<Longrightarrow> wlp (body x)
      (\<lambda>r s'. case r of Value (Inl y) \<Rightarrow> I y s' | Value (Inr z) \<Rightarrow> Q (Value z) s'
         | Exited c \<Rightarrow> Q (Exited c) s' | Replaced \<Rightarrow> Q Replaced s') s"
  shows "wlp (loop body x) Q s"
proof (rule wlpI)
  fix r s'
  assume run: "loop body x s = Some (r, s')"
  have "body = body \<longrightarrow> I x s \<longrightarrow> Q (fst (r, s')) (snd (r, s'))"
  proof (rule loop.raw_induct [where P = "\<lambda>b x s p. b = body \<longrightarrow> I x s \<longrightarrow> Q (fst p) (snd p)"
        and xa = "((body, x), s)" and y = "(r, s')", unfolded prod.case, OF _ run])
    fix lp :: "('a \<Rightarrow> proc \<Rightarrow> (('a + 'b) outcome \<times> proc) option) \<Rightarrow> 'a \<Rightarrow> proc \<Rightarrow> ('b outcome \<times> proc) option"
      and b x s p
    assume IH: "\<And>b x s p. lp b x s = Some p \<Longrightarrow> b = body \<longrightarrow> I x s \<longrightarrow> Q (fst p) (snd p)"
      and eq: "(case b x s of None \<Rightarrow> None
        | Some (Value (Inl y), s') \<Rightarrow> lp b y s' | Some (Value (Inr z), s') \<Rightarrow> Some (Value z, s')
        | Some (Exited c, s') \<Rightarrow> Some (Exited c, s') | Some (Replaced, s') \<Rightarrow> Some (Replaced, s')) = Some p"
    show "b = body \<longrightarrow> I x s \<longrightarrow> Q (fst p) (snd p)"
    proof (intro impI)
      assume "b = body" "I x s"
      then show "Q (fst p) (snd p)"
        using round [of x s] IH [of body _ _ p] eq
        by (auto simp: wlp_def split: option.splits outcome.splits sum.splits prod.splits)
    qed
  qed
  with inv show "Q r s'" by simp
qed

named_theorems finishes_intros \<open>programs that always end\<close>

lemma finishes_seq [finishes_intros]: "(\<And>s. finishes m s) \<Longrightarrow> (\<And>x s. finishes (f x) s) \<Longrightarrow> finishes (seq m f) s"
  by (fastforce simp: finishes_def seq_def split: option.splits outcome.splits)

lemma finishes_basic [finishes_intros]:
  "finishes (ret x) s" "finishes (exit_with c) s" "finishes (call k) s" "finishes get_errno s"
  "finishes (set_errno e) s" "finishes (sys k) s" "finishes (ignore k) s" "finishes (perror msg) s"
  "finishes (die msg) s" "finishes (execvp file args) s"
  by (simp_all add: finishes_def ret_def exit_with_def call_def get_errno_def set_errno_def sys_def
      ignore_def perror_def die_def execvp_def seq_def Let_def)

lemma finishes_if [finishes_intros]: "finishes m s \<Longrightarrow> finishes m' s \<Longrightarrow> finishes (if b then m else m') s"
  by simp

text \<open>No program changes the operating system, and the log of every run is what that system
  answered.\<close>

definition genuine :: "proc \<Rightarrow> bool" where
  "genuine s \<longleftrightarrow> (\<forall>k < length (log s). snd (log s ! k) = os s (take k (log s)) (fst (log s ! k)))"

lemma genuine_Nil: "log s = [] \<Longrightarrow> genuine s"
  by (simp add: genuine_def)

lemma genuine_call:
  "genuine s \<Longrightarrow> genuine (s\<lparr>log := log s @ [(c, os s (log s) c)]\<rparr>)"
  by (auto simp: genuine_def nth_append less_Suc_eq)

lemma genuine_errno [simp]: "genuine (s\<lparr>errno := e\<rparr>) \<longleftrightarrow> genuine s"
  by (simp add: genuine_def)

definition lawful :: "'a prog \<Rightarrow> bool" where
  "lawful m \<longleftrightarrow> (\<forall>s r s'. m s = Some (r, s') \<longrightarrow> os s' = os s \<and> (genuine s \<longrightarrow> genuine s'))"

named_theorems lawful_intros \<open>programs that keep the operating system\<close>

lemma lawful_seq [lawful_intros]: "lawful m \<Longrightarrow> (\<And>x. lawful (f x)) \<Longrightarrow> lawful (seq m f)"
  by (fastforce simp: lawful_def seq_def split: option.splits outcome.splits)

lemma lawful_call [lawful_intros]: "lawful (call k)" "lawful (sys k)" "lawful (ignore k)"
  by (auto simp: lawful_def call_def ret_def sys_def ignore_def seq_def Let_def intro: genuine_call)

lemma lawful_basic [lawful_intros]:
  "lawful (ret x)" "lawful (exit_with c)" "lawful get_errno" "lawful (set_errno e)"
  by (auto simp: lawful_def ret_def exit_with_def get_errno_def set_errno_def)

lemma lawful_perror [lawful_intros]: "lawful (perror msg)" "lawful (die msg)"
  unfolding die_def perror_def by (intro lawful_seq lawful_call lawful_basic)+

lemma lawful_if [lawful_intros]: "lawful m \<Longrightarrow> lawful m' \<Longrightarrow> lawful (if b then m else m')"
  by simp

lemma lawful_loop [lawful_intros]:
  assumes "\<And>x. lawful (body x)"
  shows "lawful (loop body x)"
  unfolding lawful_def
proof (intro allI impI)
  fix s s' :: proc and r
  assume run: "loop body x s = Some (r, s')"
  have "wlp (loop body x) (\<lambda>_ s'. os s' = os s \<and> (genuine s \<longrightarrow> genuine s')) s"
    by (rule wlp_loop [where I = "\<lambda>_ s'. os s' = os s \<and> (genuine s \<longrightarrow> genuine s')"])
       (use assms in \<open>auto simp: wlp_def lawful_def split: outcome.splits sum.splits\<close>)
  from wlpD [OF this run] show "os s' = os s \<and> (genuine s \<longrightarrow> genuine s')" .
qed

lemma genuine_run:
  assumes "lawful m" "log s = []" "m s = Some (r, s')"
  shows "genuine s' \<and> os s' = os s"
  using assms genuine_Nil by (auto simp: lawful_def)

lemma finishes_seq_os:
  assumes "finishes m s" "lawful m" "\<And>x s'. os s' = os s \<Longrightarrow> finishes (f x) s'"
  shows "finishes (seq m f) s"
  using assms by (fastforce simp: finishes_def lawful_def seq_def split: outcome.splits)

text \<open>A loop whose rounds end, and whose measure goes down as long as it goes on, ends.\<close>

lemma finishes_loop:
  assumes "I x s"
    and round: "\<And>x s. I x s \<Longrightarrow>
      \<exists>r s'. body x s = Some (r, s') \<and> (\<forall>y. r = Value (Inl y) \<longrightarrow> I y s' \<and> \<mu> y s' < (\<mu> x s :: nat))"
  shows "finishes (loop body x) s"
  using assms(1)
proof (induction "\<mu> x s" arbitrary: x s rule: less_induct)
  case less
  obtain r s' where r: "body x s = Some (r, s')"
    and go: "\<forall>y. r = Value (Inl y) \<longrightarrow> I y s' \<and> \<mu> y s' < \<mu> x s"
    using round [OF less.prems] by blast
  show ?case
  proof (cases "\<exists>y. r = Value (Inl y)")
    case True
    then obtain y where y: "r = Value (Inl y)" by blast
    with go less.hyps have "finishes (loop body y) s'" by blast
    with r y show ?thesis by (simp add: finishes_def loop.simps [of body x])
  next
    case False
    with r show ?thesis
      by (auto simp: finishes_def loop.simps [of body x] split: outcome.splits sum.splits)
  qed
qed

subsection \<open>Specifications of logs\<close>

text \<open>A list of calls, each with what its reply has to satisfy.\<close>

definition performs :: "(linux_call \<times> (reply \<Rightarrow> bool)) list \<Rightarrow> event list \<Rightarrow> bool" where
  "performs steps E \<longleftrightarrow> list_all2 (\<lambda>(c, ok) e. fst e = c \<and> ok (snd e)) steps E"

lemma performs_Nil [simp]: "performs [] E \<longleftrightarrow> E = []"
  by (simp add: performs_def)

lemma performs_Cons [simp]:
  "performs ((c, ok) # steps) E \<longleftrightarrow> (\<exists>r E'. E = (c, r) # E' \<and> ok r \<and> performs steps E')"
  by (auto simp: performs_def list_all2_Cons1)

abbreviation succeeds :: "reply \<Rightarrow> bool" where
  "succeeds r \<equiv> 0 \<le> rp_value r"

abbreviation anything :: "reply \<Rightarrow> bool" where
  "anything r \<equiv> True"

text \<open>A call that was not granted: it failed, gave no memory, wrote less than it was asked to, or read
  nothing. Output to a stream does not count, as no program looks at its result.\<close>

definition refused :: "event \<Rightarrow> bool" where
  "refused e \<longleftrightarrow>
     (case fst e of
        Stdout _ \<Rightarrow> False
      | Stderr _ \<Rightarrow> False
      | Lib_malloc _ \<Rightarrow> rp_value (snd e) = 0
      | Sys_read _ _ \<Rightarrow> rp_value (snd e) \<le> 0
      | Sys_write _ content \<Rightarrow> rp_value (snd e) \<noteq> int (length content)
      | _ \<Rightarrow> rp_value (snd e) < 0)"

lemma refused_simps [simp]:
  "refused (c, r) =
     (case c of
        Stdout _ \<Rightarrow> False
      | Stderr _ \<Rightarrow> False
      | Lib_malloc _ \<Rightarrow> rp_value r = 0
      | Sys_read _ _ \<Rightarrow> rp_value r \<le> 0
      | Sys_write _ content \<Rightarrow> rp_value r \<noteq> int (length content)
      | _ \<Rightarrow> rp_value r < 0)"
  by (simp add: refused_def cong: linux_call.case_cong)

text \<open>What a program adds to the log.\<close>

definition adds :: "'a prog \<Rightarrow> ('a outcome \<Rightarrow> event list \<Rightarrow> bool) \<Rightarrow> bool" where
  "adds m P \<longleftrightarrow> (\<forall>s. wlp m (\<lambda>r s'. \<exists>E. log s' = log s @ E \<and> P r E) s)"

lemma addsI: "(\<And>s. wlp m (\<lambda>r s'. \<exists>E. log s' = log s @ E \<and> P r E) s) \<Longrightarrow> adds m P"
  by (simp add: adds_def)

lemma addsD: "adds m P \<Longrightarrow> m s = Some (r, s') \<Longrightarrow> \<exists>E. log s' = log s @ E \<and> P r E"
  by (auto simp: adds_def wlp_def)

text \<open>A specification and an end make a total statement.\<close>

lemma adds_total: "adds m P \<Longrightarrow> finishes m s \<Longrightarrow> \<exists>r s' E. m s = Some (r, s') \<and> log s' = log s @ E \<and> P r E"
  unfolding finishes_def by (metis addsD)

lemma adds_conseq: "adds m P \<Longrightarrow> (\<And>r E. P r E \<Longrightarrow> Q r E) \<Longrightarrow> adds m Q"
  by (fastforce simp: adds_def wlp_def)

lemma adds_wlp:
  "adds m P \<Longrightarrow> (\<And>r E s'. P r E \<Longrightarrow> log s' = log s @ E \<Longrightarrow> Q r s') \<Longrightarrow> wlp m Q s"
  by (fastforce simp: adds_def wlp_def)

lemma adds_seq:
  assumes "adds m P" "\<And>x. adds (f x) (F x)"
    and "\<And>x E r E'. P (Value x) E \<Longrightarrow> F x r E' \<Longrightarrow> Q r (E @ E')"
    and "\<And>c E. P (Exited c) E \<Longrightarrow> Q (Exited c) E"
    and "\<And>E. P Replaced E \<Longrightarrow> Q Replaced E"
  shows "adds (seq m f) Q"
proof (rule addsI, unfold wlp_seq, rule adds_wlp [OF assms(1)])
  fix s s' :: proc and r E
  assume "P r E" "log s' = log s @ E"
  with assms(3-) show "continue f (\<lambda>r s'. \<exists>E. log s' = log s @ E \<and> Q r E) r s'"
    by (cases r) (auto simp: wlp_simps intro!: adds_wlp [OF assms(2)])
qed

text \<open>
  The same for long programs, by rules that follow one path at a time: \<open>emits m Q e E\<close> says that
  from any state with \<open>errno\<close> \<open>e\<close> and after the events \<open>E\<close>, \<open>m\<close> ends with \<open>Q\<close> of its outcome, \<open>errno\<close>
  and all the events.
\<close>

definition emits :: "'a prog \<Rightarrow> ('a outcome \<Rightarrow> int \<Rightarrow> event list \<Rightarrow> bool) \<Rightarrow> int \<Rightarrow> event list \<Rightarrow> bool" where
  "emits m Q e E \<longleftrightarrow>
     (\<forall>s. errno s = e \<longrightarrow> wlp m (\<lambda>r s'. \<exists>E'. log s' = log s @ E' \<and> Q r (errno s') (E @ E')) s)"

lemma adds_emits: "(\<And>e. emits m (\<lambda>r e E. P r E) e []) \<Longrightarrow> adds m P"
  by (simp add: emits_def adds_def)

named_theorems emits_intros \<open>following one path of a program\<close>

lemma emits_seq [emits_intros]:
  assumes "emits m (\<lambda>r e E. case r of Value x \<Rightarrow> emits (f x) Q e E | Exited c \<Rightarrow> Q (Exited c) e E
    | Replaced \<Rightarrow> Q Replaced e E) e E"
  shows "emits (seq m f) Q e E"
  unfolding emits_def wlp_seq
proof (intro allI impI)
  fix s :: proc
  assume "errno s = e"
  with assms have "wlp m (\<lambda>r s'. \<exists>E'. log s' = log s @ E' \<and> (case r of Value x \<Rightarrow> emits (f x) Q (errno s') (E @ E')
      | Exited c \<Rightarrow> Q (Exited c) (errno s') (E @ E') | Replaced \<Rightarrow> Q Replaced (errno s') (E @ E'))) s"
    by (auto simp: emits_def)
  then show "wlp m (continue f (\<lambda>r s'. \<exists>E'. log s' = log s @ E' \<and> Q r (errno s') (E @ E'))) s"
    by (rule wlp_conseq)
       (fastforce simp: continue_def emits_def wlp_def split: outcome.splits)
qed

lemma emits_if [emits_intros]:
  "(b \<Longrightarrow> emits m Q e E) \<Longrightarrow> (\<not> b \<Longrightarrow> emits m' Q e E) \<Longrightarrow> emits (if b then m else m') Q e E"
  by simp

lemma emits_basic [emits_intros]:
  "Q1 (Value x) e E \<Longrightarrow> emits (ret x) Q1 e E"
  "Q2 (Exited c) e E \<Longrightarrow> emits (exit_with c) Q2 e E"
  "Q3 (Value e) e E \<Longrightarrow> emits get_errno Q3 e E"
  "Q4 (Value ()) e' E \<Longrightarrow> emits (set_errno e') Q4 e E"
  by (simp_all add: emits_def wlp_basic)

lemma emits_call [emits_intros]:
  "(\<And>r. Q1 (Value r) (rp_errno r) (E @ [(c, r)])) \<Longrightarrow> emits (call c) Q1 e E"
  "(\<And>r. Q2 (Value (rp_value r)) (rp_errno r) (E @ [(c, r)])) \<Longrightarrow> emits (sys c) Q2 e E"
  "(\<And>r. Q3 (Value ()) (rp_errno r) (E @ [(c, r)])) \<Longrightarrow> emits (ignore c) Q3 e E"
  by (simp_all add: emits_def wlp_simps)

lemma emits_perror [emits_intros]:
  "(\<And>r. Q1 (Value ()) (rp_errno r) (E @ [(Stderr [Txt msg, Txt '': '', Strerror e], r)])) \<Longrightarrow> emits (perror msg) Q1 e E"
  "(\<And>r. Q2 (Exited 1) (rp_errno r) (E @ [(Stderr [Txt msg, Txt '': '', Strerror e], r)])) \<Longrightarrow> emits (die msg) Q2 e E"
  by (simp_all add: emits_def wlp_simps)

text \<open>The continuation after a value.\<close>

lemma emits_case [emits_intros]:
  "P1 x \<Longrightarrow> (case Value x of Value x \<Rightarrow> P1 x | Exited c \<Rightarrow> Q1 c | Replaced \<Rightarrow> R1)"
  "Q2 c \<Longrightarrow> (case Exited c of Value x \<Rightarrow> P2 x | Exited c \<Rightarrow> Q2 c | Replaced \<Rightarrow> R2)"
  by simp_all

lemma emits_adds:
  "adds m P \<Longrightarrow> (\<And>r e E'. P r E' \<Longrightarrow> Q r e (E @ E')) \<Longrightarrow> emits m Q e E"
  by (auto simp: emits_def intro!: adds_wlp)

subsection \<open>Running a program on a concrete system\<close>

text \<open>One step at a time, with the rest of the program untouched until its turn comes.\<close>

lemma seq_cong: "m = m' \<Longrightarrow> s = s' \<Longrightarrow> seq m f s = seq m' f s'"
  by simp

lemma run_steps:
  "ret x s = Some (Value x, s)"
  "exit_with c s = Some (Exited c, s)"
  "seq (ret x) f s = f x s"
  "seq (exit_with c) g s = Some (Exited c, s)"
  "seq (call k) h s = h (os s (log s) k) (after s k (os s (log s) k))"
  "seq (sys k) i s = i (rp_value (os s (log s) k)) (after s k (os s (log s) k))"
  "seq (ignore k) j s = j () (after s k (os s (log s) k))"
  "seq get_errno e s = e (errno s) s"
  "seq (set_errno v) u s = u () (s\<lparr>errno := v\<rparr>)"
  "seq (seq m f') g' s = seq m (\<lambda>x. seq (f' x) g') s"
  "seq (if b then m1 else m2) f'' s = (if b then seq m1 f'' s else seq m2 f'' s)"
  "seq (execvp p as) w s =
     (let r = os s (log s) (Sys_execvp p as); s' = after s (Sys_execvp p as) r in
      if rp_value r < 0 then w (rp_value r) s' else Some (Replaced, s'))"
  "call k s = Some (Value (os s (log s) k), after s k (os s (log s) k))"
  "sys k s = Some (Value (rp_value (os s (log s) k)), after s k (os s (log s) k))"
  "ignore k s = Some (Value (), after s k (os s (log s) k))"
  by (auto simp: seq_def ret_def exit_with_def call_def sys_def ignore_def get_errno_def set_errno_def after_def
      execvp_def Let_def split: option.splits outcome.splits)

end
