(* ===== verification/SyncPipe.thy ===== *)
theory SyncPipe
  imports Linux "HOL-Library.Sublist"
begin

section \<open>Two processes that meet in a pipe\<close>

text \<open>
  The container and the user-namespace demo start a child that blocks on a pipe until the parent
  has prepared it. This theory is their common argument. The two processes run interleaved: a
  step is one call of either, and a read of the pipe that returns a byte takes a byte that a
  write has put there. That is all that is assumed of the pipe, and nothing is assumed of the
  scheduler.

  A provider shows of its two programs that the parent writes only after its preparation, and
  that the child acts only after its read; then no interleaving lets the child act unprepared.
\<close>

text \<open>The calls made so far by the parent and by the child, and the bytes in the pipe.\<close>

inductive pipe_run :: "(event \<Rightarrow> bool) \<Rightarrow> (event \<Rightarrow> bool) \<Rightarrow> event list \<Rightarrow> event list \<Rightarrow> nat \<Rightarrow> bool"
  for release received where
  start: "pipe_run release received [] [] 0"
| parent: "pipe_run release received ps cs n
    \<Longrightarrow> pipe_run release received (ps @ [e]) cs (if release e then Suc n else n)"
| child: "pipe_run release received ps cs n \<Longrightarrow> \<not> received e
    \<Longrightarrow> pipe_run release received ps (cs @ [e]) n"
| child_token: "pipe_run release received ps cs (Suc n) \<Longrightarrow> received e
    \<Longrightarrow> pipe_run release received ps (cs @ [e]) n"

text \<open>No byte is read that was not written.\<close>

lemma pipe_run_tokens:
  "pipe_run release received ps cs n
    \<Longrightarrow> length (filter release ps) = n + length (filter received cs)"
  by (induction rule: pipe_run.induct) auto

text \<open>A schedule that exists whenever the parent writes enough: the parent first.\<close>

lemma pipe_run_parent_first: "pipe_run release received ps [] (length (filter release ps))"
proof (induction ps rule: rev_induct)
  case (snoc e ps)
  from pipe_run.parent [OF snoc, of e] show ?case by (cases "release e") auto
qed (simp add: pipe_run.start)

lemma pipe_run_complete:
  "length (filter received cs) \<le> length (filter release ps)
    \<Longrightarrow> pipe_run release received ps cs (length (filter release ps) - length (filter received cs))"
proof (induction cs rule: rev_induct)
  case Nil
  show ?case using pipe_run_parent_first by simp
next
  case (snoc e cs)
  show ?case
  proof (cases "received e")
    case True
    with snoc have "pipe_run release received ps cs
        (Suc (length (filter release ps) - length (filter received (cs @ [e]))))"
      by (simp add: Suc_diff_Suc)
    from pipe_run.child_token [OF this True] show ?thesis .
  next
    case False
    with snoc show ?thesis by (simp add: pipe_run.child)
  qed
qed

text \<open>Every \<open>Q\<close> in the list comes after something that satisfies \<open>P\<close>.\<close>

definition preceded :: "('a list \<Rightarrow> bool) \<Rightarrow> ('a \<Rightarrow> bool) \<Rightarrow> 'a list \<Rightarrow> bool" where
  "preceded P Q l \<longleftrightarrow> (\<forall>k < length l. Q (l ! k) \<longrightarrow> P (take k l))"

lemma preceded_Nil [simp]: "preceded P Q []"
  by (simp add: preceded_def)

lemma preceded_Cons [simp]:
  "preceded P Q (x # l) \<longleftrightarrow> (Q x \<longrightarrow> P []) \<and> preceded (\<lambda>l. P (x # l)) Q l"
  by (auto simp: preceded_def All_less_Suc2)

lemma preceded_snoc: "preceded P Q (l @ [x]) \<longleftrightarrow> preceded P Q l \<and> (Q x \<longrightarrow> P l)"
  by (auto simp: preceded_def nth_append less_Suc_eq)

lemma preceded_none: "\<forall>x \<in> set l. \<not> Q x \<Longrightarrow> preceded P Q l"
  by (simp add: preceded_def)

lemma preceded_append [simp]:
  "preceded P Q (l @ l') \<longleftrightarrow> preceded P Q l \<and> preceded (\<lambda>xs. P (l @ xs)) Q l'"
  by (induction l arbitrary: P) auto

lemma preceded_mono: "preceded P Q l \<Longrightarrow> (\<And>xs. P xs \<Longrightarrow> P' xs) \<Longrightarrow> preceded P' Q l"
  by (simp add: preceded_def)

lemma preceded_prefix:
  assumes "preceded P Q l" "prefix l' l"
  shows "preceded P Q l'"
proof -
  from assms(2) obtain z where z: "l = l' @ z" by (auto simp: prefix_def)
  show ?thesis
    unfolding preceded_def
  proof (intro allI impI)
    fix k
    assume "k < length l'" "Q (l' ! k)"
    with assms(1) z show "P (take k l')" by (auto simp: preceded_def nth_append dest: spec [of _ k])
  qed
qed

text \<open>The logs of the complete runs of a program.\<close>

definition logs_of :: "'a prog \<Rightarrow> event list set" where
  "logs_of m = {l. \<exists>s r s'. log s = [] \<and> m s = Some (r, s') \<and> l = log s'}"

lemma logs_ofI: "log s = [] \<Longrightarrow> m s = Some (r, s') \<Longrightarrow> log s' \<in> logs_of m"
  by (auto simp: logs_of_def)

lemma logs_of_adds: "adds m P \<Longrightarrow> l \<in> logs_of m \<Longrightarrow> \<exists>r. P r l"
  by (force simp: logs_of_def dest: addsD)

locale sync_pipe =
  fixes parent_logs :: "event list set" and child_logs :: "event list set"
    and prepared :: "event list \<Rightarrow> bool" and release :: "event \<Rightarrow> bool"
    and received :: "event \<Rightarrow> bool" and act :: "event \<Rightarrow> bool"
  assumes parent_prepares: "l \<in> parent_logs \<Longrightarrow> preceded prepared release l"
    and child_waits: "l \<in> child_logs \<Longrightarrow> preceded (\<lambda>l. list_ex received l) act l"
begin

lemma prepared_before_act:
  assumes run: "pipe_run release received ps cs n"
    and ps: "prefix ps p" "p \<in> parent_logs" and cs: "prefix cs c" "c \<in> child_logs"
    and act: "e \<in> set cs" "act e"
  shows "\<exists>k < length ps. release (ps ! k) \<and> prepared (take k ps)"
proof -
  from act(1) obtain k where k: "k < length cs" "cs ! k = e" by (auto simp: in_set_conv_nth)
  have "preceded (\<lambda>l. list_ex received l) act cs"
    using preceded_prefix [OF child_waits [OF cs(2)] cs(1)] .
  with k act(2) have "list_ex received (take k cs)" by (auto simp: preceded_def)
  then have "filter received cs \<noteq> []"
    by (auto simp: list_ex_iff filter_empty_conv dest: in_set_takeD)
  with pipe_run_tokens [OF run] have "filter release ps \<noteq> []" by auto
  then obtain e' where "e' \<in> set ps" "release e'" by (auto simp: filter_empty_conv)
  then obtain j where j: "j < length ps" "release (ps ! j)" by (auto simp: in_set_conv_nth)
  have "preceded prepared release ps"
    using preceded_prefix [OF parent_prepares [OF ps(2)] ps(1)] .
  with j show ?thesis by (auto simp: preceded_def)
qed

end

end
