(* ===== verification/DContainer.thy ===== *)
theory DContainer
  imports SyncPipe
begin

section \<open>The mini container (src/part-07-container/mini_container.c)\<close>

text \<open>
  The parent, \<open>container_main\<close>, and the child that \<open>clone\<close> starts, \<open>container_child\<close>, are two
  programs, each with its own calls and replies; the child gets the configuration that the parent
  passes to \<open>clone\<close>, and they meet in the pipe. \<open>main\<close> ends with the exit code it returns. Truncation by \<open>snprintf\<close> is written out.

  The theorems: the child executes the command only at the end of the complete isolation
  sequence, every step of which succeeded, and otherwise fails; the parent starts it with the root and
  the command of its own arguments and lets the child go only
  after it has tried every resource limit; and in every interleaving of the two in which the pipe
  behaves, the limits come before the child's first step.
\<close>

definition write_file :: "string \<Rightarrow> string \<Rightarrow> int prog" where
  "write_file path value =
     seq (sys (Sys_open path [''O_WRONLY'', ''O_CLOEXEC''])) (\<lambda>fd.
     if fd < 0 then ret (- 1)
     else seq (sys (Sys_write fd value)) (\<lambda>n.
     if n \<noteq> int (length value)
     then seq get_errno (\<lambda>saved.
          seq (ignore (Sys_close fd)) (\<lambda>_.
          seq (set_errno saved) (\<lambda>_. ret (- 1))))
     else seq (ignore (Sys_close fd)) (\<lambda>_. ret 0)))"

definition warn_errno :: "string \<Rightarrow> unit prog" where
  "warn_errno msg = seq get_errno (\<lambda>e.
     eprint [Txt ''warning: '', Txt msg, Txt '': '', Strerror e])"

definition container_cgroup :: "int \<Rightarrow> string" where
  "container_cgroup child_pid = snprintf 256 (''/sys/fs/cgroup/mini-container-'' @ dec child_pid)"

text \<open>One limit: \<open>if (write_file(path, value) < 0) warn_errno(msg);\<close>\<close>

definition write_or_warn :: "string \<Rightarrow> string \<Rightarrow> string \<Rightarrow> unit prog" where
  "write_or_warn path value msg =
     seq (write_file path value) (\<lambda>r. if r < 0 then warn_errno msg else ret ())"

definition try_apply_cgroup_limits :: "int \<Rightarrow> unit prog" where
  "try_apply_cgroup_limits child_pid =
     (let dir = container_cgroup child_pid in
      seq (sys (Sys_mkdir dir 493)) (\<lambda>made.
      seq get_errno (\<lambda>e.
      if made < 0 \<and> e \<noteq> EEXIST
      then warn_errno ''could not create cgroup; run as root on a cgroup v2 Linux host''
      else seq (write_or_warn (snprintf 512 (dir @ ''/pids.max'')) (ln ''64'')
                  ''could not set pids.max'') (\<lambda>_.
           seq (write_or_warn (snprintf 512 (dir @ ''/memory.max'')) (ln ''134217728'')
                  ''could not set memory.max'') (\<lambda>_.
           write_or_warn (snprintf 512 (dir @ ''/cgroup.procs''))
             (snprintf 64 (ln (dec child_pid))) ''could not move child into cgroup'')))))"

definition wait_for_parent :: "int \<Rightarrow> unit prog" where
  "wait_for_parent fd =
     seq (sys (Sys_read fd 1)) (\<lambda>n.
     if n < 0 then die ''read sync pipe''
     else if n = 0
     then seq (eprint [Txt ''parent exited before container started'', NL])
            (\<lambda>_. exit_with 1)
     else ignore (Sys_close fd))"

record child_config =
  cc_argv :: "string list"
  cc_rootfs :: string
  cc_sync_fd :: int

text \<open>What \<open>main\<close> passes to the child, and its fields as \<open>clone\<close> gets them.\<close>

definition container_config :: "string list \<Rightarrow> reply \<Rightarrow> child_config" where
  "container_config argv p = \<lparr>cc_argv = drop 2 argv, cc_rootfs = argv ! 1, cc_sync_fd = num p 0\<rparr>"

definition config_fields :: "child_config \<Rightarrow> c_field list" where
  "config_fields config =
     [Strs_field (cc_argv config), Str_field (cc_rootfs config), Int_field (cc_sync_fd config)]"

lemma config_fields_eq [simp]: "config_fields config = config_fields config' \<longleftrightarrow> config = config'"
  by (auto simp: config_fields_def)

text \<open>\<open>if (call < 0) die(msg);\<close>\<close>

definition require :: "linux_call \<Rightarrow> string \<Rightarrow> unit prog" where
  "require c msg = seq (sys c) (\<lambda>r. if r < 0 then die msg else ret ())"

definition container_child :: "child_config \<Rightarrow> unit prog" where
  "container_child config =
     seq (wait_for_parent (cc_sync_fd config)) (\<lambda>_.
     seq (require (Sys_sethostname ''mini-container'') ''sethostname'') (\<lambda>_.
     seq (require (Sys_mount None ''/'' None [''MS_REC'', ''MS_PRIVATE''] None) ''make mounts private'') (\<lambda>_.
     seq (require (Sys_chroot (cc_rootfs config)) ''chroot'') (\<lambda>_.
     seq (require (Sys_chdir ''/'') ''chdir /'') (\<lambda>_.
     seq (sys (Sys_mkdir ''/proc'' 365)) (\<lambda>made.
     seq get_errno (\<lambda>e.
     if made < 0 \<and> e \<noteq> EEXIST then die ''mkdir /proc''
     else seq (require (Sys_mount (Some ''proc'') ''/proc'' (Some ''proc'') [] (Some '''')) ''mount /proc'') (\<lambda>_.
     seq (sys Sys_getpid) (\<lambda>pid.
     seq (print [Txt ''inside container: hostname=mini-container, pid='', Dec pid, NL]) (\<lambda>_.
     seq (execvp (arg0 (cc_argv config)) (cc_argv config)) (\<lambda>_.
     die ''execvp'')))))))))))"

definition container_usage :: "string \<Rightarrow> unit prog" where
  "container_usage prog =
     seq (eprint [Txt ''usage: sudo '', Txt prog, Txt '' ROOTFS COMMAND [ARG...]'', NL]) (\<lambda>_.
     eprint [Txt ''example: sudo '', Txt prog, Txt '' ./rootfs /bin/sh'', NL])"

definition container_flags :: "string list" where
  "container_flags = [''CLONE_NEWUTS'', ''CLONE_NEWPID'', ''CLONE_NEWNS'', ''CLONE_NEWIPC'',
     ''CLONE_NEWNET'', ''SIGCHLD'']"

definition exit_code :: "int \<Rightarrow> int" where
  "exit_code status =
     (if WIFEXITED status then WEXITSTATUS status
      else if WIFSIGNALED status then 128 + WTERMSIG status
      else 1)"

definition container_main :: "string list \<Rightarrow> unit prog" where
  "container_main argv =
     (if length argv < 3 then seq (container_usage (arg0 argv)) (\<lambda>_. exit_with 1)
      else seq (sys (Lib_malloc (1024 * 1024))) (\<lambda>stack.
      if stack = 0 then die ''malloc stack''
      else seq (call Sys_pipe) (\<lambda>p.
      if rp_value p < 0 then die ''pipe''
      else let config = container_config argv p in
      seq (sys (Sys_clone (stack + 1024 * 1024) container_flags (config_fields config))) (\<lambda>child_pid.
      if child_pid < 0 then die ''clone''
      else seq (ignore (Sys_close (num p 0))) (\<lambda>_.
      seq (try_apply_cgroup_limits child_pid) (\<lambda>_.
      seq (sys (Sys_write (num p 1) ''1'')) (\<lambda>n.
      if n \<noteq> 1 then die ''write sync pipe''
      else seq (ignore (Sys_close (num p 1))) (\<lambda>_.
      seq (call (Sys_waitpid child_pid)) (\<lambda>w.
      if rp_value w < 0 then die ''waitpid''
      else seq (sys (Sys_rmdir (container_cgroup child_pid))) (\<lambda>r.
      seq get_errno (\<lambda>e.
      seq (if r < 0 \<and> e \<noteq> ENOENT then warn_errno ''could not remove cgroup directory'' else ret ()) (\<lambda>_.
      seq (ignore (Lib_free stack)) (\<lambda>_.
      exit_with (exit_code (num w 0)))))))))))))))"

subsection \<open>The child\<close>

text \<open>What the child has done when it calls \<open>execvp\<close>.\<close>

definition container_isolation :: "child_config \<Rightarrow> int \<Rightarrow> (linux_call \<times> (reply \<Rightarrow> bool)) list" where
  "container_isolation config pid =
     [(Sys_read (cc_sync_fd config) 1, \<lambda>r. 0 < rp_value r),
      (Sys_close (cc_sync_fd config), anything),
      (Sys_sethostname ''mini-container'', succeeds),
      (Sys_mount None ''/'' None [''MS_REC'', ''MS_PRIVATE''] None, succeeds),
      (Sys_chroot (cc_rootfs config), succeeds),
      (Sys_chdir ''/'', succeeds),
      (Sys_mkdir ''/proc'' 365, \<lambda>r. succeeds r \<or> rp_errno r = EEXIST),
      (Sys_mount (Some ''proc'') ''/proc'' (Some ''proc'') [] (Some ''''), succeeds),
      (Sys_getpid, \<lambda>r. rp_value r = pid),
      (Stdout [Txt ''inside container: hostname=mini-container, pid='', Dec pid, NL], anything)]"

definition is_exec :: "event \<Rightarrow> bool" where
  "is_exec e = (case fst e of Sys_execvp _ _ \<Rightarrow> True | _ \<Rightarrow> False)"

definition container_isolated :: "child_config \<Rightarrow> event list \<Rightarrow> bool" where
  "container_isolated config l \<longleftrightarrow> (\<exists>pid. performs (container_isolation config pid) l)"

lemma container_child_adds:
  "adds (container_child config) (\<lambda>r E.
     preceded (container_isolated config) is_exec E \<and>
     (r = Exited 1 \<and> list_ex refused E \<or>
      r = Replaced \<and> (\<exists>pre x. E = pre @ [(Sys_execvp (arg0 (cc_argv config)) (cc_argv config), x)]
        \<and> container_isolated config pre \<and> succeeds x)))"
  unfolding container_child_def wait_for_parent_def require_def
  apply (rule addsI)
  apply (simp add: wlp_simps is_exec_def)
  apply (auto simp: container_isolated_def container_isolation_def not_less)
  done

subsection \<open>The parent\<close>

text \<open>A write of a file that opens it first, whether or not it works.\<close>

fun write_attempt :: "string \<Rightarrow> string \<Rightarrow> event list \<Rightarrow> bool" where
  "write_attempt path content [(c, r)] \<longleftrightarrow> c = Sys_open path [''O_WRONLY'', ''O_CLOEXEC''] \<and> rp_value r < 0"
| "write_attempt path content [(c, r), (c', r'), (c'', r'')] \<longleftrightarrow>
     c = Sys_open path [''O_WRONLY'', ''O_CLOEXEC''] \<and> succeeds r
     \<and> c' = Sys_write (rp_value r) content \<and> c'' = Sys_close (rp_value r)"
| "write_attempt path content _ \<longleftrightarrow> False"

lemma write_file_adds:
  "adds (write_file path content) (\<lambda>r E.
     write_attempt path content E \<and>
     r = Value (if length E = 3 \<and> rp_value (snd (E ! 1)) = int (length content) then 0 else - 1))"
  unfolding write_file_def by (rule addsI) (auto simp: wlp_simps not_less)

definition is_warning :: "event \<Rightarrow> bool" where
  "is_warning e = (case fst e of Stderr _ \<Rightarrow> True | _ \<Rightarrow> False)"

lemma warn_errno_adds: "adds (warn_errno msg) (\<lambda>r E. r = Value () \<and> (\<exists>e. E = [e] \<and> is_warning e))"
  unfolding warn_errno_def by (rule addsI) (auto simp: wlp_simps is_warning_def)

lemma write_or_warn_adds:
  "adds (write_or_warn path content msg) (\<lambda>r E.
     r = Value () \<and> (\<exists>W R. E = W @ R \<and> write_attempt path content W \<and> list_all is_warning R))"
  unfolding write_or_warn_def
  apply (rule adds_seq [OF write_file_adds, where F = "\<lambda>_ r E. r = Value () \<and> list_all is_warning E"])
  subgoal by (rule addsI) (auto simp: wlp_simps intro!: adds_wlp [OF warn_errno_adds])
  by auto

definition limit_files :: "int \<Rightarrow> (string \<times> string) list" where
  "limit_files pid =
     (let dir = container_cgroup pid in
      [(snprintf 512 (dir @ ''/pids.max''), ln ''64''),
       (snprintf 512 (dir @ ''/memory.max''), ln ''134217728''),
       (snprintf 512 (dir @ ''/cgroup.procs''), snprintf 64 (ln (dec pid)))])"

text \<open>The cgroup was asked for, and unless that failed every limit file was written or tried.\<close>

definition limits_tried :: "int \<Rightarrow> event list \<Rightarrow> bool" where
  "limits_tried pid l \<longleftrightarrow>
     (\<exists>r. (Sys_mkdir (container_cgroup pid) 493, r) \<in> set l \<and>
        ((succeeds r \<or> rp_errno r = EEXIST) \<longrightarrow>
         (\<forall>(path, content) \<in> set (limit_files pid). \<exists>W. write_attempt path content W \<and> sublist W l)))"

lemma limits_triedI:
  assumes "(Sys_mkdir (container_cgroup pid) 493, r) \<in> set l"
    "\<And>path content. (path, content) \<in> set (limit_files pid) \<Longrightarrow> \<exists>W. write_attempt path content W \<and> sublist W l"
  shows "limits_tried pid l"
  using assms by (auto simp: limits_tried_def)

text \<open>The byte that lets the child go.\<close>

definition container_release :: "event \<Rightarrow> bool" where
  "container_release e =
     (case fst e of Sys_write _ content \<Rightarrow> content = ''1'' \<and> rp_value (snd e) = 1 | _ \<Rightarrow> False)"

lemma container_release_simps [simp]:
  "container_release (c, r) = (case c of Sys_write _ content \<Rightarrow> content = ''1'' \<and> rp_value r = 1 | _ \<Rightarrow> False)"
  by (cases c) (simp_all add: container_release_def)

lemma write_attempt_no_release:
  "write_attempt path content W \<Longrightarrow> content \<noteq> ''1'' \<Longrightarrow> e \<in> set W \<Longrightarrow> \<not> container_release e"
  by (induction path content W rule: write_attempt.induct) (auto simp: container_release_def)

lemma is_warning_no_release: "is_warning e \<Longrightarrow> \<not> container_release e"
  by (auto simp: is_warning_def container_release_def split: linux_call.splits)

lemma pid_line_not_release: "snprintf 64 (ln (dec pid)) \<noteq> ''1''"
proof
  assume "snprintf 64 (ln (dec pid)) = ''1''"
  then have "length (snprintf 64 (ln (dec pid))) = 1" by simp
  moreover have "0 < length (dec pid)" by simp
  ultimately show False by (simp add: snprintf_def min_def del: length_greater_0_conv split: if_splits)
qed

lemma attempt_quiet:
  "content \<noteq> ''1'' \<Longrightarrow> write_attempt path content W \<Longrightarrow> list_all is_warning R
    \<Longrightarrow> \<forall>e \<in> set (W @ R). \<not> container_release e"
  by (auto simp: list_all_iff dest: is_warning_no_release write_attempt_no_release)

definition limits_done :: "int \<Rightarrow> event list \<Rightarrow> bool" where
  "limits_done pid E \<longleftrightarrow> limits_tried pid E \<and> (\<forall>e \<in> set E. \<not> container_release e)"

lemma limits_done_tried:
  assumes "\<forall>e \<in> set E. \<not> container_release e"
    and "\<forall>(path, content) \<in> set (limit_files pid). \<exists>W. write_attempt path content W \<and> sublist W E"
  shows "limits_done pid ((Sys_mkdir (container_cgroup pid) 493, r) # E)"
  unfolding limits_done_def limits_tried_def
  using assms by (fastforce simp: container_release_def sublist_Cons_right)

lemma limits_done_refused:
  "rp_value r < 0 \<Longrightarrow> rp_errno r \<noteq> EEXIST \<Longrightarrow> is_warning e
    \<Longrightarrow> limits_done pid [(Sys_mkdir (container_cgroup pid) 493, r), e]"
  by (auto simp: limits_done_def limits_tried_def container_release_def dest: is_warning_no_release)

lemma write_or_warn_then:
  assumes "content \<noteq> ''1''" "adds m (\<lambda>r E. r = Value () \<and> P E)"
    and "\<And>W R E. write_attempt path content W \<Longrightarrow> (\<forall>e \<in> set (W @ R). \<not> container_release e) \<Longrightarrow> P E \<Longrightarrow> Q (W @ R @ E)"
  shows "adds (seq (write_or_warn path content msg) (\<lambda>_. m)) (\<lambda>r E. r = Value () \<and> Q E)"
proof (rule adds_seq [OF write_or_warn_adds assms(2)])
  fix x r E E'
  assume "Value x = Value () \<and> (\<exists>W R. E = W @ R \<and> write_attempt path content W \<and> list_all is_warning R)"
    and "r = Value () \<and> P E'"
  then obtain W R where "E = W @ R" "write_attempt path content W" "list_all is_warning R" "P E'" "r = Value ()"
    by blast
  with attempt_quiet [OF assms(1)] show "r = Value () \<and> Q (E @ E')" by (simp add: assms(3))
qed simp_all

lemma try_apply_cgroup_limits_adds:
  "adds (try_apply_cgroup_limits pid) (\<lambda>r E. r = Value () \<and> limits_done pid E)"
proof -
  let ?dir = "container_cgroup pid"
  let ?pids = "snprintf 512 (?dir @ ''/pids.max'')" and ?mem = "snprintf 512 (?dir @ ''/memory.max'')"
    and ?procs = "snprintf 512 (?dir @ ''/cgroup.procs'')"
  let ?tried = "\<lambda>path content l. \<exists>W. write_attempt path content W \<and> sublist W l"
  let ?quiet = "\<lambda>E. \<forall>e \<in> set E. \<not> container_release e"
  have grow: "?tried path content E \<Longrightarrow> ?tried path content (W @ R @ E)" for path content W R E
    by (metis append_assoc sublist_append_leftI sublist_order.order_trans)
  have here: "write_attempt path content W \<Longrightarrow> ?tried path content (W @ R @ E)" for path content W R E
    by blast
  have procs: "adds (write_or_warn ?procs (snprintf 64 (ln (dec pid))) msg)
      (\<lambda>r E. r = Value () \<and> ?quiet E \<and> ?tried ?procs (snprintf 64 (ln (dec pid))) E)" for msg
    by (rule adds_conseq [OF write_or_warn_adds])
       (use attempt_quiet [OF pid_line_not_release] here [where E = "[]"] in fastforce)
  have mem: "adds (seq (write_or_warn ?mem (ln ''134217728'') msg')
        (\<lambda>_. write_or_warn ?procs (snprintf 64 (ln (dec pid))) msg))
      (\<lambda>r E. r = Value () \<and> ?quiet E \<and> ?tried ?mem (ln ''134217728'') E
         \<and> ?tried ?procs (snprintf 64 (ln (dec pid))) E)" for msg msg'
    by (rule write_or_warn_then [OF _ procs]) (auto intro: grow here)
  have pids: "adds (seq (write_or_warn ?pids (ln ''64'') msg'') (\<lambda>_.
        seq (write_or_warn ?mem (ln ''134217728'') msg') (\<lambda>_.
        write_or_warn ?procs (snprintf 64 (ln (dec pid))) msg)))
      (\<lambda>r E. r = Value () \<and> ?quiet E \<and> (\<forall>(path, content) \<in> set (limit_files pid). ?tried path content E))"
    for msg msg' msg''
    by (rule write_or_warn_then [OF _ mem]) (auto simp: limit_files_def Let_def intro: grow here)
  show ?thesis
    unfolding try_apply_cgroup_limits_def Let_def
    by (rule addsI)
       (auto simp: wlp_step not_less intro!: adds_wlp [OF pids] adds_wlp [OF warn_errno_adds]
         intro: limits_done_refused limits_done_tried)
qed

lemma limits_tried_grows:
  "limits_tried pid E \<Longrightarrow> limits_tried pid (x # E)"
  "limits_tried pid E \<Longrightarrow> limits_tried pid (E @ ys)"
  unfolding limits_tried_def
  by (fastforce simp: sublist_Cons_right intro: sublist_order.order_trans [of _ E])+

lemma limits_done_quiet: "limits_done pid E \<Longrightarrow> preceded P container_release E"
  by (auto simp: limits_done_def intro: preceded_none)

lemma limits_doneD: "limits_done pid E \<Longrightarrow> limits_tried pid E"
  by (simp add: limits_done_def)

text \<open>The child was started with the arguments of \<open>main\<close>: root, command and the end of the pipe from
  which it reads.\<close>

definition container_started :: "string list \<Rightarrow> reply \<Rightarrow> event list \<Rightarrow> bool" where
  "container_started argv clone l \<longleftrightarrow>
     (\<exists>p stk. (Sys_pipe, p) \<in> set l
        \<and> (Sys_clone stk container_flags
              [Strs_field (drop 2 argv), Str_field (argv ! 1), Int_field (num p 0)], clone) \<in> set l)"

definition container_prepared :: "string list \<Rightarrow> event list \<Rightarrow> bool" where
  "container_prepared argv l \<longleftrightarrow> (\<exists>clone. container_started argv clone l \<and> limits_tried (rp_value clone) l)"

text \<open>A run that got as far as waiting: the child was started, limited, released and reaped, and its
  cgroup removed.\<close>

definition container_served :: "string list \<Rightarrow> int \<Rightarrow> event list \<Rightarrow> bool" where
  "container_served argv code l \<longleftrightarrow>
     (\<exists>clone w x. container_started argv clone l \<and> succeeds clone
        \<and> limits_tried (rp_value clone) l \<and> list_ex container_release l
        \<and> (Sys_waitpid (rp_value clone), w) \<in> set l \<and> succeeds w
        \<and> (Sys_rmdir (container_cgroup (rp_value clone)), x) \<in> set l
        \<and> code = exit_code (num w 0))"

lemma container_preparedI:
  "limits_done (rp_value clone) E
    \<Longrightarrow> container_prepared argv (a # (Sys_pipe, p)
      # (Sys_clone stk container_flags (config_fields (container_config argv p)), clone) # c # E)"
  unfolding container_prepared_def
  by (rule exI [of _ clone]) (auto simp: container_started_def config_fields_def container_config_def intro!: limits_tried_grows dest: limits_doneD)

lemma container_servedI:
  assumes "limits_done (rp_value clone) E" "succeeds clone" "rp_value x = 1" "succeeds w"
  shows "container_served argv (exit_code (num w 0))
    (a # (Sys_pipe, p) # (Sys_clone stk container_flags (config_fields (container_config argv p)), clone) # c # E @ (Sys_write fd ''1'', x) # d
       # (Sys_waitpid (rp_value clone), w) # (Sys_rmdir (container_cgroup (rp_value clone)), y) # rest)"
  unfolding container_served_def
  by (rule exI [of _ clone], rule exI [of _ w], rule exI [of _ y])
     (use assms in \<open>auto simp: container_started_def config_fields_def container_config_def intro!: limits_tried_grows dest: limits_doneD\<close>)

lemma container_main_adds:
  "adds (container_main argv) (\<lambda>r E.
     preceded (container_prepared argv) container_release E \<and>
     (r = Exited 1 \<and> (length argv < 3 \<or> list_ex refused E)
      \<or> (\<exists>code. r = Exited code \<and> container_served argv code E)))"
  unfolding container_main_def container_usage_def warn_errno_def Let_def
  by (rule addsI, simp add: wlp_step wlp_seq [where m = "try_apply_cgroup_limits pid" for pid])
     (auto intro!: adds_wlp [OF try_apply_cgroup_limits_adds]
        simp: wlp_step limits_done_quiet not_less container_preparedI container_servedI)

text \<open>The parent starts no other child than the one with its own arguments.\<close>

lemma limits_start_nothing:
  "adds (try_apply_cgroup_limits pid) (\<lambda>r E. r = Value () \<and> (\<forall>stk flags fields x. (Sys_clone stk flags fields, x) \<notin> set E))"
  unfolding try_apply_cgroup_limits_def write_or_warn_def write_file_def warn_errno_def Let_def
  by (rule addsI) (auto simp: wlp_simps)

lemma container_clones:
  "adds (container_main argv) (\<lambda>r E. \<forall>stk flags fields x. (Sys_clone stk flags fields, x) \<in> set E \<longrightarrow>
     3 \<le> length argv \<and> (\<exists>p. (Sys_pipe, p) \<in> set E \<and> fields = config_fields (container_config argv p)))"
  unfolding container_main_def container_usage_def warn_errno_def Let_def
  by (rule addsI, simp add: wlp_step wlp_seq [where m = "try_apply_cgroup_limits pid" for pid])
     (auto intro!: adds_wlp [OF limits_start_nothing] simp: wlp_step)

text \<open>A child that ends by itself has not executed the command.\<close>

definition executes :: "event \<Rightarrow> bool" where
  "executes e \<longleftrightarrow> is_exec e \<and> succeeds (snd e)"

lemma container_child_executes:
  "adds (container_child config) (\<lambda>r E.
     r = Exited 1 \<and> \<not> list_ex executes E
     \<or> r = Replaced \<and> (\<exists>pre x. E = pre @ [(Sys_execvp (arg0 (cc_argv config)) (cc_argv config), x)]
         \<and> container_isolated config pre \<and> succeeds x \<and> \<not> list_ex executes pre))"
  unfolding container_child_def wait_for_parent_def require_def
  apply (rule addsI)
  apply (simp add: wlp_simps executes_def is_exec_def)
  apply (auto simp: container_isolated_def container_isolation_def not_less)
  done

subsection \<open>The pair\<close>

definition container_received :: "child_config \<Rightarrow> event \<Rightarrow> bool" where
  "container_received config e \<longleftrightarrow> fst e = Sys_read (cc_sync_fd config) 1 \<and> 0 < rp_value (snd e)"

text \<open>Everything the child does but read the pipe and complain.\<close>

definition container_acts :: "event \<Rightarrow> bool" where
  "container_acts e = (case fst e of Sys_read _ _ \<Rightarrow> False | Stderr _ \<Rightarrow> False | _ \<Rightarrow> True)"

lemma container_child_waits:
  "adds (container_child config) (\<lambda>r E. preceded (\<lambda>l. list_ex (container_received config) l) container_acts E)"
  unfolding container_child_def wait_for_parent_def require_def
  by (rule addsI, simp add: wlp_simps container_acts_def container_received_def)

interpretation container_pipe:
  sync_pipe "logs_of (container_main argv)" "logs_of (container_child config)"
    "container_prepared argv" container_release "container_received config" container_acts
  by unfold_locales
     (use logs_of_adds [OF container_main_adds] logs_of_adds [OF container_child_waits] in blast)+

subsection \<open>Ends\<close>

lemma container_child_finishes [finishes_intros]: "finishes (container_child config) s"
  unfolding container_child_def wait_for_parent_def require_def
  by (intro finishes_intros)

lemma container_main_finishes [finishes_intros]: "finishes (container_main argv) s"
  unfolding container_main_def container_usage_def try_apply_cgroup_limits_def write_or_warn_def
    write_file_def warn_errno_def Let_def
  by (intro finishes_intros)

lemma exit_code_bounds: "0 \<le> exit_code status \<and> exit_code status < 256"
  by (auto simp: exit_code_def WEXITSTATUS_def WIFSIGNALED_def WTERMSIG_def)

lemma exit_code_0: "exit_code status = 0 \<longleftrightarrow> WIFEXITED status \<and> WEXITSTATUS status = 0"
  by (auto simp: exit_code_def WIFSIGNALED_def)

end
