(* ===== verification/DBasics.thy ===== *)
theory DBasics
  imports DContainer
begin

section \<open>The first lessons (src/part-01 to part-05)\<close>

text \<open>
  Five small programs: \<open>hello_main\<close>, \<open>memory_main\<close>, \<open>clone_main\<close> with \<open>clone_child\<close>, \<open>uts_main\<close> with
  \<open>uts_child\<close>, and \<open>chroot_main\<close>. A child is the function that \<open>clone\<close> starts; its value is the
  exit code. The arguments of a call to \<open>printf\<close> are evaluated from left to right.

  The theorems: a program that returns has given back all memory it got, on every path;
  and the command of the last one runs only behind a changed root.
\<close>

subsection \<open>System calls (part-01-syscalls/syscall_write.c)\<close>

definition hello_main :: "int prog" where
  "hello_main =
     seq (sys (Sys_write 1 (ln ''part 01: hello through the write syscall''))) (\<lambda>r.
     if r < 0 then seq (perror ''syscall write'') (\<lambda>_. ret 1) else ret 0)"

subsection \<open>Memory (part-02-memory/mmap_memory.c)\<close>

definition memory_main :: "int prog" where
  "memory_main =
     seq (sys (Lib_malloc 64)) (\<lambda>heap.
     if heap = 0 then seq (perror ''malloc'') (\<lambda>_. ret 1)
     else seq (ignore (Lib_memcpy heap (c_bytes ''malloc: memory managed by the C allocator''))) (\<lambda>_.
     seq (sys (Lib_sysconf ''_SC_PAGESIZE'')) (\<lambda>n.
     let page_size = n mod 2 ^ 64 in
     seq (sys (Sys_mmap page_size [''PROT_READ'', ''PROT_WRITE'', ''MAP_PRIVATE'', ''MAP_ANONYMOUS''] (- 1))) (\<lambda>mapped.
     if mapped = - 1
     then seq (perror ''mmap'') (\<lambda>_. seq (ignore (Lib_free heap)) (\<lambda>_. ret 1))
     else seq (ignore (Lib_memcpy mapped (c_bytes ''mmap: memory requested directly from the kernel''))) (\<lambda>_.
     seq (print [Str_at heap, NL]) (\<lambda>_.
     seq (print [Str_at mapped, NL]) (\<lambda>_.
     seq (print [Txt ''page size: '', Dec page_size, Txt '' bytes'', NL]) (\<lambda>_.
     seq (ignore (Sys_munmap mapped page_size)) (\<lambda>_.
     seq (ignore (Lib_free heap)) (\<lambda>_. ret 0))))))))))"

subsection \<open>Processes (part-03-processes/clone_process.c)\<close>

definition clone_child :: "int prog" where
  "clone_child =
     seq (sys Sys_getpid) (\<lambda>pid.
     seq (sys Sys_getppid) (\<lambda>ppid.
     seq (print [Txt ''child: pid='', Dec pid, Txt '' parent='', Dec ppid, NL]) (\<lambda>_. ret 0)))"

definition clone_main :: "int prog" where
  "clone_main =
     seq (sys (Lib_malloc (1024 * 1024))) (\<lambda>stack.
     if stack = 0 then seq (perror ''malloc'') (\<lambda>_. ret 1)
     else seq (sys (Sys_clone (stack + 1024 * 1024) [''SIGCHLD''] [])) (\<lambda>child.
     if child < 0
     then seq (perror ''clone'') (\<lambda>_. seq (ignore (Lib_free stack)) (\<lambda>_. ret 1))
     else seq (sys Sys_getpid) (\<lambda>pid.
     seq (print [Txt ''parent: pid='', Dec pid, Txt '' child='', Dec child, NL]) (\<lambda>_.
     seq (ignore (Sys_waitpid child)) (\<lambda>_.
     seq (ignore (Lib_free stack)) (\<lambda>_. ret 0))))))"

subsection \<open>Namespaces (part-04-namespaces/uts_namespace.c)\<close>

definition uts_child :: "int prog" where
  "uts_child =
     seq (sys (Sys_sethostname ''part-04-namespace'')) (\<lambda>r.
     if r < 0 then seq (perror ''sethostname'') (\<lambda>_. ret 1)
     else seq (call (Sys_gethostname 128)) (\<lambda>h.
     if rp_value h < 0 then seq (perror ''gethostname'') (\<lambda>_. ret 1)
     else seq (print [Txt ''child sees hostname: '', Txt (rp_text h), NL]) (\<lambda>_. ret 0)))"

definition uts_main :: "int prog" where
  "uts_main =
     seq (call (Sys_gethostname 128)) (\<lambda>before.
     if rp_value before < 0 then seq (perror ''gethostname'') (\<lambda>_. ret 1)
     else seq (print [Txt ''parent sees hostname before clone: '', Txt (rp_text before), NL]) (\<lambda>_.
     seq (sys (Lib_malloc (1024 * 1024))) (\<lambda>stack.
     if stack = 0 then seq (perror ''malloc'') (\<lambda>_. ret 1)
     else seq (sys (Sys_clone (stack + 1024 * 1024) [''CLONE_NEWUTS'', ''SIGCHLD''] [])) (\<lambda>child.
     if child < 0
     then seq (perror ''clone'') (\<lambda>_. seq (ignore (Lib_free stack)) (\<lambda>_. ret 1))
     else seq (ignore (Sys_waitpid child)) (\<lambda>_.
     seq (call (Sys_gethostname 128)) (\<lambda>still.
     if rp_value still < 0
     then seq (perror ''gethostname'') (\<lambda>_. seq (ignore (Lib_free stack)) (\<lambda>_. ret 1))
     else seq (print [Txt ''parent still sees hostname: '', Txt (rp_text still), NL]) (\<lambda>_.
     seq (ignore (Lib_free stack)) (\<lambda>_. ret 0))))))))"

subsection \<open>Root filesystems (part-05-rootfs/chroot_exec.c)\<close>

definition chroot_main :: "string list \<Rightarrow> int prog" where
  "chroot_main argv =
     (if length argv < 3
      then seq (eprint [Txt ''usage: sudo '', Txt (arg0 argv), Txt '' ROOTFS COMMAND [ARG...]'', NL]) (\<lambda>_.
           seq (eprint [Txt ''example: sudo '', Txt (arg0 argv), Txt '' ./rootfs /bin/sh'', NL]) (\<lambda>_. ret 1))
      else seq (sys (Sys_chroot (argv ! 1))) (\<lambda>r.
      if r < 0 then seq (perror ''chroot'') (\<lambda>_. ret 1)
      else seq (sys (Sys_chdir ''/'')) (\<lambda>r.
      if r < 0 then seq (perror ''chdir'') (\<lambda>_. ret 1)
      else seq (execvp (argv ! 2) (drop 2 argv)) (\<lambda>_.
      seq (perror ''execvp'') (\<lambda>_. ret 1)))))"

subsection \<open>Memory is given back\<close>

text \<open>Every block that was got is freed, and every mapping that was made is removed.\<close>

definition gets_memory :: "event \<Rightarrow> bool" where
  "gets_memory e = (case fst e of Lib_malloc _ \<Rightarrow> rp_value (snd e) \<noteq> 0 | Sys_mmap _ _ _ \<Rightarrow> rp_value (snd e) \<noteq> - 1
     | _ \<Rightarrow> False)"

fun gives_back :: "event \<Rightarrow> event \<Rightarrow> bool" where
  "gives_back (Lib_malloc n, r) (c, _) \<longleftrightarrow> c = Lib_free (rp_value r)"
| "gives_back (Sys_mmap n flags fd, r) (c, _) \<longleftrightarrow> c = Sys_munmap (rp_value r) n"
| "gives_back _ _ \<longleftrightarrow> False"

definition no_leak :: "event list \<Rightarrow> bool" where
  "no_leak l \<longleftrightarrow> list_all (\<lambda>e. gets_memory e \<longrightarrow> list_ex (gives_back e) l) l"

lemma memory_main_adds: "adds memory_main (\<lambda>r E. no_leak E \<and> (r = Value 0 \<or> r = Value 1))"
  unfolding memory_main_def Let_def
  by (rule adds_emits, intro emits_intros) (simp_all add: no_leak_def gets_memory_def)

lemma clone_main_adds: "adds clone_main (\<lambda>r E. no_leak E \<and> (r = Value 0 \<or> r = Value 1))"
  unfolding clone_main_def
  by (rule adds_emits, intro emits_intros) (simp_all add: no_leak_def gets_memory_def)

lemma uts_main_adds: "adds uts_main (\<lambda>r E. no_leak E \<and> (r = Value 0 \<or> r = Value 1))"
  unfolding uts_main_def
  by (rule adds_emits, intro emits_intros) (simp_all add: no_leak_def gets_memory_def)

subsection \<open>The command runs behind the new root\<close>

definition rooted :: "string list \<Rightarrow> event list \<Rightarrow> bool" where
  "rooted argv l \<longleftrightarrow> 3 \<le> length argv
     \<and> performs [(Sys_chroot (argv ! 1), succeeds), (Sys_chdir ''/'', succeeds)] l"

lemma chroot_main_adds:
  "adds (chroot_main argv) (\<lambda>r E. preceded (rooted argv) is_exec E \<and> (r = Value 1 \<or>
     r = Replaced \<and> (\<exists>pre x. E = pre @ [(Sys_execvp (argv ! 2) (drop 2 argv), x)] \<and> rooted argv pre \<and> succeeds x)))"
  unfolding chroot_main_def
  by (rule addsI) (auto simp: wlp_simps is_exec_def rooted_def not_less)

subsection \<open>Ends\<close>

lemma basics_finish [finishes_intros]:
  "finishes hello_main s" "finishes memory_main s" "finishes clone_main s" "finishes clone_child s"
  "finishes uts_main s" "finishes uts_child s" "finishes (chroot_main argv) s"
  unfolding hello_main_def memory_main_def clone_main_def clone_child_def uts_main_def uts_child_def
    chroot_main_def Let_def
  by (intro finishes_intros)+

end
