(* ===== verification/DUserns.thy ===== *)
theory DUserns
  imports SyncPipe
begin

section \<open>User namespaces (src/part-12-userns/userns_map.c)\<close>

text \<open>
  The parent, \<open>userns_main\<close>, maps the ids of the child that \<open>clone\<close> starts, \<open>userns_child\<close>, and
  passes it the end of the pipe in which they meet. The arguments of a call to \<open>printf\<close> are evaluated from left to right.

  The theorems: the parent writes the pipe only after the uid map, the denial of \<open>setgroups\<close> (or
  its absence from the kernel) and the gid map, in this order and all of them complete; it
  succeeds only if the child did; and no interleaving lets the child go on before that.
\<close>

definition explain_clone_userns_error :: "int \<Rightarrow> unit prog" where
  "explain_clone_userns_error err =
     seq (eprint [Txt ''clone(CLONE_NEWUSER): '', Strerror err, NL]) (\<lambda>_.
     if err = EPERM \<or> err = EACCES
     then eprint [Txt ''hint: this host may disable unprivileged user namespaces. Try a Linux host where user namespaces are enabled, or run the lesson with appropriate privileges.'', NL]
     else if err = EINVAL
     then eprint [Txt ''hint: this kernel may not support user namespaces or may have been built without CONFIG_USER_NS.'', NL]
     else ret ())"

text \<open>\<open>fprintf(stderr, "%s %s: %s\n", what, path, strerror(errno));\<close>\<close>

definition complain :: "string \<Rightarrow> string \<Rightarrow> unit prog" where
  "complain what path = seq get_errno (\<lambda>e. eprint [Txt what, Txt '' '', Txt path, Txt '': '', Strerror e, NL])"

text \<open>The part that \<open>write_text_file\<close> and \<open>deny_setgroups_if_available\<close> share: the write of an
  open file and the check of what was written.\<close>

definition write_all_or_exit :: "int \<Rightarrow> string \<Rightarrow> string \<Rightarrow> unit prog" where
  "write_all_or_exit fd path content =
     seq (sys (Sys_write fd content)) (\<lambda>written.
     if written < 0 \<or> written \<noteq> int (length content)
     then seq (if written < 0 then complain ''write'' path
               else eprint [Txt ''write '', Txt path, Txt '': short write'', NL]) (\<lambda>_.
          seq (ignore (Sys_close fd)) (\<lambda>_. exit_with 1))
     else seq (sys (Sys_close fd)) (\<lambda>r. if r < 0 then die path else ret ()))"

definition write_text_file :: "string \<Rightarrow> string \<Rightarrow> unit prog" where
  "write_text_file path content =
     seq (sys (Sys_open path [''O_WRONLY'', ''O_CLOEXEC''])) (\<lambda>fd.
     if fd < 0 then seq (complain ''open'' path) (\<lambda>_. exit_with 1)
     else write_all_or_exit fd path content)"

definition proc_path :: "int \<Rightarrow> string \<Rightarrow> string" where
  "proc_path child file = snprintf 128 (''/proc/'' @ dec child @ ''/'' @ file)"

definition deny_setgroups_if_available :: "int \<Rightarrow> unit prog" where
  "deny_setgroups_if_available child =
     (let path = proc_path child ''setgroups'' in
      seq (sys (Sys_open path [''O_WRONLY'', ''O_CLOEXEC''])) (\<lambda>fd.
      if fd < 0
      then seq get_errno (\<lambda>e.
           if e = ENOENT then print [Txt ''parent: '', Txt path, Txt '' is not available on this kernel'', NL]
           else seq (complain ''open'' path) (\<lambda>_. exit_with 1))
      else seq (write_all_or_exit fd path (ln ''deny'')) (\<lambda>_.
           print [Txt ''parent: wrote deny to '', Txt path, NL])))"

definition id_map :: "int \<Rightarrow> string" where
  "id_map host_id = snprintf 128 (''0 '' @ dec host_id @ ln '' 1'')"

definition write_id_maps :: "int \<Rightarrow> int \<Rightarrow> int \<Rightarrow> unit prog" where
  "write_id_maps child host_uid host_gid =
     seq (write_text_file (proc_path child ''uid_map'') (id_map host_uid)) (\<lambda>_.
     seq (print [Txt ''parent: mapped namespace uid 0 to host uid '', Dec host_uid, NL]) (\<lambda>_.
     seq (deny_setgroups_if_available child) (\<lambda>_.
     seq (write_text_file (proc_path child ''gid_map'') (id_map host_gid)) (\<lambda>_.
     print [Txt ''parent: mapped namespace gid 0 to host gid '', Dec host_gid, NL]))))"

definition print_map_file :: "string \<Rightarrow> string \<Rightarrow> unit prog" where
  "print_map_file label path =
     seq (sys (Lib_fopen path ''r'')) (\<lambda>file.
     if file = 0
     then seq get_errno (\<lambda>e.
          eprint [Txt label, Txt '': could not open '', Txt path, Txt '': '', Strerror e, NL])
     else seq (call (Lib_fgets file 128)) (\<lambda>line.
          seq (if rp_value line \<noteq> 0 then print [Txt label, Txt '': '', Txt (rp_text line)] else ret ()) (\<lambda>_.
          ignore (Lib_fclose file))))"

definition userns_child :: "int \<Rightarrow> int prog" where
  "userns_child ready_fd =
     seq (sys (Sys_read ready_fd 1)) (\<lambda>n.
     if n < 0 then seq (perror ''child read sync pipe'') (\<lambda>_. exit_with 1)
     else if n = 0
     then seq (eprint [Txt ''child: parent closed sync pipe before mapping ids'', NL]) (\<lambda>_. exit_with 1)
     else seq (ignore (Sys_close ready_fd)) (\<lambda>_.
          seq (print [Txt ''child: running in new user namespace'', NL]) (\<lambda>_.
          seq (sys Sys_getuid) (\<lambda>uid.
          seq (sys Sys_getgid) (\<lambda>gid.
          seq (print [Txt ''child: namespace uid='', Dec uid, Txt '' gid='', Dec gid, NL]) (\<lambda>_.
          seq (print_map_file ''child: /proc/self/uid_map'' ''/proc/self/uid_map'') (\<lambda>_.
          seq (print_map_file ''child: /proc/self/gid_map'' ''/proc/self/gid_map'') (\<lambda>_.
          ret 0))))))))"

text \<open>What \<open>main\<close> does with the child's wait status.\<close>

definition userns_report :: "int \<Rightarrow> int prog" where
  "userns_report status =
     (if WIFEXITED status
      then let code = WEXITSTATUS status in
           seq (print [Txt ''parent: child exited with status '', Dec code, NL]) (\<lambda>_.
           ret (if code = 0 then 0 else 1))
      else seq (if WIFSIGNALED status
                then print [Txt ''parent: child was terminated by signal '', Dec (WTERMSIG status), NL]
                else eprint [Txt ''parent: child ended in an unexpected wait state'', NL]) (\<lambda>_.
           ret 1))"

text \<open>\<open>struct child_args args = {.ready_fd = sync_pipe[0]};\<close> as \<open>clone\<close> gets it.\<close>

definition userns_args :: "reply \<Rightarrow> c_field list" where
  "userns_args p = [Int_field (num p 0)]"

definition userns_main :: "int prog" where
  "userns_main =
     seq (sys Sys_getuid) (\<lambda>host_uid.
     seq (sys Sys_getgid) (\<lambda>host_gid.
     seq (print [Txt ''parent: host uid='', Dec host_uid, Txt '' gid='', Dec host_gid, NL]) (\<lambda>_.
     seq (ignore Lib_fflush) (\<lambda>_.
     seq (call Sys_pipe) (\<lambda>p.
     if rp_value p < 0 then die ''pipe''
     else seq (sys (Lib_malloc (1024 * 1024))) (\<lambda>stack.
     if stack = 0 then die ''malloc child stack''
     else seq (sys (Sys_clone (stack + 1024 * 1024) [''CLONE_NEWUSER'', ''SIGCHLD''] (userns_args p))) (\<lambda>child.
     if child < 0
     then seq get_errno (\<lambda>err.
          seq (ignore (Sys_close (num p 0))) (\<lambda>_.
          seq (ignore (Sys_close (num p 1))) (\<lambda>_.
          seq (ignore (Lib_free stack)) (\<lambda>_.
          seq (explain_clone_userns_error err) (\<lambda>_. ret 1)))))
     else seq (ignore (Sys_close (num p 0))) (\<lambda>_.
          seq (write_id_maps child host_uid host_gid) (\<lambda>_.
          seq (sys (Sys_write (num p 1) ''x'')) (\<lambda>n.
          if n \<noteq> 1 then die ''write sync pipe''
          else seq (ignore (Sys_close (num p 1))) (\<lambda>_.
          seq (call (Sys_waitpid child)) (\<lambda>w.
          if rp_value w < 0 then die ''waitpid''
          else seq (ignore (Lib_free stack)) (\<lambda>_.
          userns_report (num w 0))))))))))))))"

subsection \<open>The maps\<close>

text \<open>A file opened, written completely and closed.\<close>

fun file_written :: "string \<Rightarrow> string \<Rightarrow> event list \<Rightarrow> bool" where
  "file_written path content [(c, r), (c', r'), (c'', r'')] \<longleftrightarrow>
     c = Sys_open path [''O_WRONLY'', ''O_CLOEXEC''] \<and> succeeds r
     \<and> c' = Sys_write (rp_value r) content \<and> rp_value r' = int (length content)
     \<and> c'' = Sys_close (rp_value r) \<and> succeeds r''"
| "file_written path content _ \<longleftrightarrow> False"

definition setgroups_settled :: "int \<Rightarrow> event list \<Rightarrow> bool" where
  "setgroups_settled child E \<longleftrightarrow>
     file_written (proc_path child ''setgroups'') (ln ''deny'') E
     \<or> (\<exists>r. E = [(Sys_open (proc_path child ''setgroups'') [''O_WRONLY'', ''O_CLOEXEC''], r)]
          \<and> rp_value r < 0 \<and> rp_errno r = ENOENT)"

definition ids_mapped :: "int \<Rightarrow> int \<Rightarrow> int \<Rightarrow> event list \<Rightarrow> bool" where
  "ids_mapped child uid gid l \<longleftrightarrow>
     (\<exists>a U b S c G d. l = a @ U @ b @ S @ c @ G @ d
        \<and> file_written (proc_path child ''uid_map'') (id_map uid) U
        \<and> setgroups_settled child S
        \<and> file_written (proc_path child ''gid_map'') (id_map gid) G)"

definition userns_release :: "event \<Rightarrow> bool" where
  "userns_release e =
     (case fst e of Sys_write _ content \<Rightarrow> content = ''x'' \<and> rp_value (snd e) = 1 | _ \<Rightarrow> False)"

lemma userns_release_simps [simp]:
  "userns_release (c, r) = (case c of Sys_write _ content \<Rightarrow> content = ''x'' \<and> rp_value r = 1 | _ \<Rightarrow> False)"
  by (cases c) (simp_all add: userns_release_def)

definition no_release :: "event list \<Rightarrow> bool" where
  "no_release E \<longleftrightarrow> (\<forall>e \<in> set E. \<not> userns_release e)"

lemma no_release_simps [simp]:
  "no_release []" "no_release (e # E) \<longleftrightarrow> \<not> userns_release e \<and> no_release E"
  "no_release (E @ E') \<longleftrightarrow> no_release E \<and> no_release E'"
  by (auto simp: no_release_def)

lemma no_release_preceded: "no_release E \<Longrightarrow> preceded P userns_release E"
  by (auto simp: no_release_def intro: preceded_none)

lemma id_map_not_token [simp]: "id_map n \<noteq> ''x''"
  by (auto simp: id_map_def snprintf_def)

lemma write_text_file_adds:
  assumes "content \<noteq> ''x''"
  shows "adds (write_text_file path content) (\<lambda>r E. no_release E \<and>
    (r = Exited 1 \<and> list_ex refused E \<or> r = Value () \<and> file_written path content E))"
  unfolding write_text_file_def write_all_or_exit_def complain_def
  using assms by (intro addsI) (auto simp: wlp_simps not_less)

lemma deny_setgroups_adds:
  "adds (deny_setgroups_if_available child) (\<lambda>r E. no_release E \<and>
    (r = Exited 1 \<and> list_ex refused E \<or> r = Value () \<and> (\<exists>S e. E = S @ [e] \<and> setgroups_settled child S)))"
  unfolding deny_setgroups_if_available_def write_all_or_exit_def complain_def Let_def
  by (rule addsI) (auto simp: wlp_simps not_less setgroups_settled_def)

lemma write_id_maps_adds:
  "adds (write_id_maps child uid gid) (\<lambda>r E. no_release E \<and>
    (r = Exited 1 \<and> list_ex refused E \<or> r = Value () \<and> ids_mapped child uid gid E))"
proof -
  let ?G = "\<lambda>G. file_written (proc_path child ''gid_map'') (id_map gid) G"
  have gid: "adds (seq (write_text_file (proc_path child ''gid_map'') (id_map gid)) (\<lambda>_. print ps))
      (\<lambda>r E. no_release E \<and> (r = Exited 1 \<and> list_ex refused E \<or> r = Value () \<and> (\<exists>G d. E = G @ d \<and> ?G G)))" for ps
    by (rule adds_seq [OF write_text_file_adds, where F = "\<lambda>_ r E. no_release E \<and> r = Value ()"])
       (auto intro!: addsI simp: wlp_simps)
  have deny: "adds (seq (deny_setgroups_if_available child) (\<lambda>_.
        seq (write_text_file (proc_path child ''gid_map'') (id_map gid)) (\<lambda>_. print ps)))
      (\<lambda>r E. no_release E \<and> (r = Exited 1 \<and> list_ex refused E \<or> r = Value () \<and>
         (\<exists>S c G d. E = S @ c @ G @ d \<and> setgroups_settled child S \<and> ?G G)))" for ps
    by (rule adds_seq [OF deny_setgroups_adds gid]) (auto, (metis append_Cons append_Nil append_assoc)+)
  have uid: "adds (seq (print ps') (\<lambda>_. seq (deny_setgroups_if_available child) (\<lambda>_.
        seq (write_text_file (proc_path child ''gid_map'') (id_map gid)) (\<lambda>_. print ps))))
      (\<lambda>r E. no_release E \<and> (r = Exited 1 \<and> list_ex refused E \<or> r = Value () \<and>
         (\<exists>b S c G d. E = b @ S @ c @ G @ d \<and> setgroups_settled child S \<and> ?G G)))" for ps ps'
    by (rule adds_seq [where P = "\<lambda>r E. r = Value () \<and> no_release E", OF _ deny])
       (auto intro!: addsI simp: wlp_simps, blast+)
  show ?thesis
    unfolding write_id_maps_def
    by (rule adds_seq [OF write_text_file_adds uid])
       (auto simp: ids_mapped_def, (metis append_Nil)+)
qed

lemma ids_mapped_grows:
  "ids_mapped child uid gid E \<Longrightarrow> ids_mapped child uid gid (e # E)"
  "ids_mapped child uid gid E \<Longrightarrow> ids_mapped child uid gid (E @ E')"
proof -
  assume "ids_mapped child uid gid E"
  then obtain a U b S c G d where E: "E = a @ U @ b @ S @ c @ G @ d"
    and parts: "file_written (proc_path child ''uid_map'') (id_map uid) U" "setgroups_settled child S"
      "file_written (proc_path child ''gid_map'') (id_map gid) G"
    unfolding ids_mapped_def by blast
  have "e # E = (e # a) @ U @ b @ S @ c @ G @ d" using E by simp
  with parts show "ids_mapped child uid gid (e # E)" unfolding ids_mapped_def by blast
  have "E @ E' = a @ U @ b @ S @ c @ G @ (d @ E')" using E by simp
  with parts show "ids_mapped child uid gid (E @ E')" unfolding ids_mapped_def by blast
qed

text \<open>The child was given the end of the pipe from which it reads.\<close>

definition userns_started :: "reply \<Rightarrow> event list \<Rightarrow> bool" where
  "userns_started clone l \<longleftrightarrow>
     (\<exists>p stk. (Sys_pipe, p) \<in> set l
        \<and> (Sys_clone stk [''CLONE_NEWUSER'', ''SIGCHLD''] [Int_field (num p 0)], clone) \<in> set l)"

text \<open>The ids of the process that asked, mapped for the process that was started.\<close>

definition userns_prepared :: "event list \<Rightarrow> bool" where
  "userns_prepared l \<longleftrightarrow>
     (\<exists>uid gid clone. (Sys_getuid, uid) \<in> set l \<and> (Sys_getgid, gid) \<in> set l
        \<and> userns_started clone l
        \<and> ids_mapped (rp_value clone) (rp_value uid) (rp_value gid) l)"

lemma userns_preparedI:
  assumes "ids_mapped (rp_value clone) (rp_value uid) (rp_value gid) E"
  shows "userns_prepared ((Sys_getuid, uid) # (Sys_getgid, gid) # a # b # (Sys_pipe, p) # d
    # (Sys_clone stk [''CLONE_NEWUSER'', ''SIGCHLD''] (userns_args p), clone) # e # E)"
  unfolding userns_prepared_def
  by (rule exI [of _ uid], rule exI [of _ gid], rule exI [of _ clone])
     (use assms in \<open>auto simp: userns_started_def userns_args_def intro!: ids_mapped_grows\<close>)

lemma userns_report_adds:
  "adds (userns_report status) (\<lambda>r E. no_release E \<and>
     r = Value (if WIFEXITED status \<and> WEXITSTATUS status = 0 then 0 else 1))"
  unfolding userns_report_def Let_def by (rule addsI) (auto simp: wlp_simps)

definition userns_served :: "bool \<Rightarrow> event list \<Rightarrow> bool" where
  "userns_served ok l \<longleftrightarrow> list_ex userns_release l
     \<and> (\<exists>clone w. userns_started clone l
          \<and> (Sys_waitpid (rp_value clone), w) \<in> set l \<and> succeeds w
          \<and> (ok \<longleftrightarrow> WIFEXITED (num w 0) \<and> WEXITSTATUS (num w 0) = 0))"

lemma userns_servedI:
  assumes "rp_value x = 1" "succeeds w" "ok \<longleftrightarrow> WIFEXITED (num w 0) \<and> WEXITSTATUS (num w 0) = 0"
  shows "userns_served ok (a # b # c # d # (Sys_pipe, p) # f # (Sys_clone stk [''CLONE_NEWUSER'', ''SIGCHLD''] (userns_args p), clone) # g
    # E @ (Sys_write fd ''x'', x) # h # (Sys_waitpid (rp_value clone), w) # rest)"
  unfolding userns_served_def
  by (intro conjI exI [of _ clone] exI [of _ w]) (use assms in \<open>auto simp: userns_started_def userns_args_def\<close>)

lemma userns_main_adds:
  "adds userns_main (\<lambda>r E. preceded userns_prepared userns_release E \<and>
     (r \<in> {Exited 1, Value 1} \<and> list_ex refused E
      \<or> r = Value 0 \<and> userns_served True E \<or> r = Value 1 \<and> userns_served False E))"
  unfolding userns_main_def explain_clone_userns_error_def
  by (rule addsI, simp add: wlp_step wlp_seq [where m = "write_id_maps child uid gid" for child uid gid])
     (auto intro!: adds_wlp [OF write_id_maps_adds] adds_wlp [OF userns_report_adds]
        simp: wlp_step no_release_preceded not_less userns_preparedI userns_servedI)

subsection \<open>The child\<close>

definition userns_received :: "int \<Rightarrow> event \<Rightarrow> bool" where
  "userns_received fd e \<longleftrightarrow> fst e = Sys_read fd 1 \<and> 0 < rp_value (snd e)"

definition userns_acts :: "event \<Rightarrow> bool" where
  "userns_acts e = (case fst e of Sys_read _ _ \<Rightarrow> False | Stderr _ \<Rightarrow> False | _ \<Rightarrow> True)"

lemma userns_child_waits:
  "adds (userns_child fd) (\<lambda>r E. preceded (\<lambda>l. list_ex (userns_received fd) l) userns_acts E)"
  unfolding userns_child_def print_map_file_def
  by (rule addsI, simp add: wlp_simps userns_acts_def userns_received_def)

interpretation userns_pipe:
  sync_pipe "logs_of userns_main" "logs_of (userns_child fd)"
    userns_prepared userns_release "userns_received fd" userns_acts
  by unfold_locales
     (use logs_of_adds [OF userns_main_adds] logs_of_adds [OF userns_child_waits] in blast)+

lemma userns_child_finishes [finishes_intros]: "finishes (userns_child fd) s"
  unfolding userns_child_def print_map_file_def by (intro finishes_intros)

lemma userns_main_finishes [finishes_intros]: "finishes userns_main s"
  unfolding userns_main_def explain_clone_userns_error_def write_id_maps_def write_text_file_def
    deny_setgroups_if_available_def write_all_or_exit_def complain_def userns_report_def Let_def
  by (intro finishes_intros)

end
