(* ===== verification/DHardening.thy ===== *)
theory DHardening
  imports SyncPipe
begin

section \<open>Process hardening (src/part-11-hardening/container_hardening.c)\<close>

text \<open>
  \<open>hardening_main\<close> is the whole program, on both sides of \<open>fork\<close>. \<open>getline\<close> keeps its buffer
  in \<open>line\<close>, whose new address is the first number of the reply; \<open>print_status_field\<close> is the
  function of part 14 as well.

  The theorems: the child makes the forbidden call only after both steps of the hardening have
  worked, and its exit codes tell how far it got; the parent succeeds only if the child was killed
  by \<open>SIGKILL\<close>; everything ends if the status file does.
\<close>

definition status_round :: "string \<Rightarrow> string \<Rightarrow> int \<Rightarrow> int \<Rightarrow> (int + int) prog" where
  "status_round label field file line =
     seq (call (Lib_getline file line)) (\<lambda>r.
     if 0 < rp_value r
     then if take (length field) (rp_text r) = field
          then seq (print [Txt label, Txt '': '', Txt (rp_text r)]) (\<lambda>_. ret (Inr (num r 0)))
          else ret (Inl (num r 0))
     else ret (Inr (num r 0)))"

definition print_status_field :: "string \<Rightarrow> string \<Rightarrow> unit prog" where
  "print_status_field label field =
     seq (sys (Lib_fopen ''/proc/self/status'' ''r'')) (\<lambda>file.
     if file = 0
     then seq get_errno (\<lambda>e.
          eprint [Txt label, Txt '': could not open /proc/self/status: '', Strerror e, NL])
     else seq (loop (status_round label field file) 0) (\<lambda>line.
          seq (ignore (Lib_free line)) (\<lambda>_. ignore (Lib_fclose file))))"

definition print_status_snapshot :: "string \<Rightarrow> unit prog" where
  "print_status_snapshot label =
     seq (print_status_field label ''NoNewPrivs:'') (\<lambda>_.
     seq (print_status_field label ''Seccomp:'') (\<lambda>_.
     print_status_field label ''CapEff:''))"

definition child_demo :: "unit prog" where
  "child_demo =
     seq (print_status_snapshot ''child before hardening'') (\<lambda>_.
     seq (sys (Sys_prctl ''PR_SET_NO_NEW_PRIVS'' [1, 0, 0, 0])) (\<lambda>r.
     if r < 0 then die ''prctl PR_SET_NO_NEW_PRIVS''
     else seq (print_status_snapshot ''child after no_new_privs'') (\<lambda>_.
     seq (print [Txt ''child: entering seccomp strict mode'', NL]) (\<lambda>_.
     seq (ignore Lib_fflush) (\<lambda>_.
     seq (sys (Sys_prctl ''PR_SET_SECCOMP'' [1])) (\<lambda>r.
     if r < 0
     then seq get_errno (\<lambda>e.
          seq (eprint [Txt ''prctl PR_SET_SECCOMP strict failed: '', Strerror e, NL,
            Txt ''hint: strict mode depends on kernel seccomp support. The no_new_privs status above still shows the first hardening step.'', NL]) (\<lambda>_.
          exit_with 2))
     else seq (sys (Sys_write 1 (ln ''child: write(2) still works after strict seccomp''))) (\<lambda>r.
          if r < 0 then exit_with 3
          else seq (ignore (Sys_syscall ''SYS_getpid'' [])) (\<lambda>_.
               seq (ignore (Sys_write 1 (ln ''child: unexpected, getpid survived strict seccomp''))) (\<lambda>_.
               exit_with 4)))))))))"

definition SIGKILL :: int where "SIGKILL = 9"

text \<open>What \<open>main\<close> does with the child's wait status.\<close>

definition hardening_report :: "int \<Rightarrow> int prog" where
  "hardening_report status =
     (if WIFSIGNALED status
      then let sig = WTERMSIG status in
           seq (print [Txt ''parent: child was terminated by signal '', Dec sig, Txt '' ('', Strsignal sig, Txt '')'', NL]) (\<lambda>_.
           if sig = SIGKILL
           then seq (print [Txt ''parent: strict seccomp blocked the forbidden syscall'', NL]) (\<lambda>_. ret 0)
           else ret 1)
      else if WIFEXITED status
      then let code = WEXITSTATUS status in
           seq (print [Txt ''parent: child exited with status '', Dec code, NL]) (\<lambda>_.
           seq (if code = 2
                then eprint [Txt ''parent: strict seccomp was not applied, so the demo did not prove syscall blocking'', NL]
                else ret ()) (\<lambda>_. ret 1))
      else seq (eprint [Txt ''parent: child ended in an unexpected wait state'', NL]) (\<lambda>_. ret 1))"

definition hardening_main :: "int prog" where
  "hardening_main =
     seq (print [Txt ''host: this demo applies hardening in a child process'', NL]) (\<lambda>_.
     seq (print_status_snapshot ''parent'') (\<lambda>_.
     seq (sys Sys_fork) (\<lambda>child.
     if child < 0 then die ''fork''
     else seq (if child = 0 then child_demo else ret ()) (\<lambda>_.
     seq (call (Sys_waitpid child)) (\<lambda>w.
     if rp_value w < 0 then die ''waitpid'' else hardening_report (num w 0))))))"

subsection \<open>Reading the status file\<close>

text \<open>Calls that only read and print.\<close>

definition reads :: "event \<Rightarrow> bool" where
  "reads e = (case fst e of Lib_fopen _ _ \<Rightarrow> True | Lib_getline _ _ \<Rightarrow> True | Lib_free _ \<Rightarrow> True
     | Lib_fclose _ \<Rightarrow> True | Lib_fflush \<Rightarrow> True | Stdout _ \<Rightarrow> True | Stderr _ \<Rightarrow> True | _ \<Rightarrow> False)"

lemma print_status_field_adds:
  "adds (print_status_field label field) (\<lambda>r E. r = Value () \<and> list_all reads E)"
proof -
  have lines: "adds (loop (status_round label field fp) line)
      (\<lambda>r E. (\<exists>line. r = Value line) \<and> list_all reads E)" for fp line
  proof (rule addsI)
    fix s :: proc
    show "wlp (loop (status_round label field fp) line)
        (\<lambda>r s'. \<exists>E. log s' = log s @ E \<and> (\<exists>line. r = Value line) \<and> list_all reads E) s"
      by (rule wlp_loop [where I = "\<lambda>_ s'. \<exists>E. log s' = log s @ E \<and> list_all reads E"])
         (auto simp: status_round_def wlp_simps reads_def)
  qed
  show ?thesis
    unfolding print_status_field_def
    by (rule addsI)
       (auto simp: wlp_step wlp_seq [where m = "loop b x" for b x] reads_def intro!: adds_wlp [OF lines])
qed

text \<open>The lines of an open file come to an end.\<close>

definition finite_files :: "nat \<Rightarrow> (event list \<Rightarrow> linux_call \<Rightarrow> reply) \<Rightarrow> bool" where
  "finite_files n answer \<longleftrightarrow>
     (\<forall>l fp line. n \<le> length (takeWhile (\<lambda>(c, r). case c of Lib_getline _ _ \<Rightarrow> 0 < rp_value r | _ \<Rightarrow> False) (rev l))
        \<longrightarrow> rp_value (answer l (Lib_getline fp line)) \<le> 0)"

lemma print_status_field_finishes:
  assumes "finite_files n (os s)"
  shows "finishes (print_status_field label field) s"
proof -
  let ?more = "\<lambda>(c, r). case c of Lib_getline _ _ \<Rightarrow> 0 < rp_value r | _ \<Rightarrow> False"
  have lines: "finishes (loop (status_round label field fp) line) s'" if "os s' = os s" for fp line s'
  proof (rule finishes_loop [where I = "\<lambda>_ s'. os s' = os s"
      and \<mu> = "\<lambda>_ s'. n - length (takeWhile ?more (rev (log s')))"])
    fix line and s' :: proc
    assume keep: "os s' = os s"
    let ?r = "os s (log s') (Lib_getline fp line)"
    have "0 < rp_value ?r \<Longrightarrow> length (takeWhile ?more (rev (log s'))) < n"
      using assms [unfolded finite_files_def, rule_format, of "log s'" fp line] by (meson not_less)
    with keep show "\<exists>r s''. status_round label field fp line s' = Some (r, s'') \<and>
        (\<forall>y. r = Value (Inl y) \<longrightarrow> os s'' = os s \<and>
          n - length (takeWhile ?more (rev (log s''))) < n - length (takeWhile ?more (rev (log s'))))"
      by (cases "0 < rp_value ?r"; cases "take (length field) (rp_text ?r) = field")
         (simp_all add: status_round_def seq_def call_def ret_def ignore_def Let_def)
  qed (rule that)
  show ?thesis
    unfolding print_status_field_def
    by (auto intro!: finishes_seq_os finishes_if finishes_basic lawful_intros lines simp: status_round_def)
qed

lemma print_status_field_keeps [lawful_intros]: "lawful (print_status_field label field)"
  unfolding print_status_field_def status_round_def by (intro lawful_intros)

lemma print_status_snapshot_finishes:
  "finite_files n (os s) \<Longrightarrow> finishes (print_status_snapshot label) s"
  unfolding print_status_snapshot_def
  by (auto intro!: finishes_seq_os print_status_field_finishes [of n] lawful_intros)

lemma print_status_snapshot_keeps [lawful_intros]: "lawful (print_status_snapshot label)"
  unfolding print_status_snapshot_def by (intro lawful_intros)

lemma print_status_snapshot_adds:
  "adds (print_status_snapshot label) (\<lambda>r E. r = Value () \<and> list_all reads E)"
  unfolding print_status_snapshot_def
  by (rule addsI)
     (auto simp: wlp_seq intro!: adds_wlp [OF print_status_field_adds] simp: wlp_simps)

subsection \<open>The child\<close>

text \<open>The hardening: no new privileges, then strict seccomp, both granted.\<close>

definition hardened :: "event list \<Rightarrow> bool" where
  "hardened l \<longleftrightarrow> (\<exists>p q. subseq [(Sys_prctl ''PR_SET_NO_NEW_PRIVS'' [1, 0, 0, 0], p),
     (Sys_prctl ''PR_SET_SECCOMP'' [1], q)] l \<and> succeeds p \<and> succeeds q)"

definition forbidden :: "event \<Rightarrow> bool" where
  "forbidden e \<longleftrightarrow> fst e = Sys_syscall ''SYS_getpid'' []"

definition no_forbidden :: "event list \<Rightarrow> bool" where
  "no_forbidden E \<longleftrightarrow> (\<forall>e \<in> set E. \<not> forbidden e)"

lemma no_forbidden_simps [simp]:
  "forbidden (c, r) \<longleftrightarrow> c = Sys_syscall ''SYS_getpid'' []"
  "no_forbidden []" "no_forbidden (e # E) \<longleftrightarrow> \<not> forbidden e \<and> no_forbidden E"
  "no_forbidden (E @ E') \<longleftrightarrow> no_forbidden E \<and> no_forbidden E'"
  by (auto simp: no_forbidden_def forbidden_def)

lemma reads_no_forbidden: "list_all reads E \<Longrightarrow> no_forbidden E"
  by (auto simp: no_forbidden_def forbidden_def list_all_iff reads_def)

lemma no_forbidden_preceded: "no_forbidden E \<Longrightarrow> preceded P forbidden E"
  by (auto simp: no_forbidden_def intro: preceded_none)

lemma hardenedI:
  assumes "succeeds p" "succeeds q"
  shows "hardened (a @ (Sys_prctl ''PR_SET_NO_NEW_PRIVS'' [1, 0, 0, 0], p) # b @ x # y
     # (Sys_prctl ''PR_SET_SECCOMP'' [1], q) # c)"
  unfolding hardened_def
  by (rule exI [of _ p], rule exI [of _ q])
     (intro conjI list_emb_append2 subseq_Cons2 list_emb_Cons list_emb_Nil assms)

lemma child_demo_adds:
  "adds child_demo (\<lambda>r E. preceded hardened forbidden E \<and>
     (r \<in> {Exited 1, Exited 2} \<and> list_ex refused E \<and> no_forbidden E
      \<or> r = Exited 3 \<and> list_ex refused E \<and> hardened E \<and> no_forbidden E
      \<or> r = Exited 4 \<and> hardened E \<and> \<not> no_forbidden E))"
  unfolding child_demo_def
  by (rule addsI, simp add: wlp_step wlp_seq [where m = "print_status_snapshot l" for l])
     (auto simp: wlp_step wlp_seq [where m = "print_status_snapshot l" for l] no_forbidden_preceded
       reads_no_forbidden not_less hardenedI intro!: adds_wlp [OF print_status_snapshot_adds])

subsection \<open>The program\<close>

lemma hardened_grows: "hardened E \<Longrightarrow> hardened (a # xs @ b # E)"
  unfolding hardened_def by (meson list_emb_append2 list_emb_Cons)

definition reaped_child :: "bool \<Rightarrow> event list \<Rightarrow> bool" where
  "reaped_child killed E \<longleftrightarrow>
     (\<exists>f w. (Sys_fork, f) \<in> set E \<and> 0 < rp_value f \<and> (Sys_waitpid (rp_value f), w) \<in> set E
        \<and> succeeds w \<and> (killed \<longleftrightarrow> WIFSIGNALED (num w 0) \<and> WTERMSIG (num w 0) = SIGKILL))"

definition hardening_in_child :: "event list \<Rightarrow> bool" where
  "hardening_in_child E \<longleftrightarrow> (\<exists>f. (Sys_fork, f) \<in> set E \<and> rp_value f = 0)"

lemma hardening_report_adds:
  "adds (hardening_report status) (\<lambda>r E. list_all reads E \<and>
     r = Value (if WIFSIGNALED status \<and> WTERMSIG status = SIGKILL then 0 else 1))"
  unfolding hardening_report_def Let_def by (rule addsI) (auto simp: wlp_simps reads_def)

definition hardening_outcome :: "int outcome \<Rightarrow> event list \<Rightarrow> bool" where
  "hardening_outcome r E \<longleftrightarrow>
     r = Exited 1 \<and> list_ex refused E
     \<or> (\<exists>killed. r = Value (if killed then 0 else 1) \<and> reaped_child killed E)
     \<or> hardening_in_child E \<and> (r = Exited 2 \<and> list_ex refused E \<and> no_forbidden E
         \<or> r = Exited 3 \<and> list_ex refused E \<and> hardened E \<and> no_forbidden E
         \<or> r = Exited 4 \<and> hardened E \<and> \<not> no_forbidden E)"

lemma hardening_outcome_parent:
  assumes "rp_value f \<noteq> 0" "succeeds f" "succeeds w"
  shows "hardening_outcome (Value (if WIFSIGNALED (num w 0) \<and> WTERMSIG (num w 0) = SIGKILL then 0 else 1)) (a # xs @ (Sys_fork, f) # (Sys_waitpid (rp_value f), w) # E)"
  unfolding hardening_outcome_def reaped_child_def using assms by fastforce

lemma hardening_outcome_child:
  assumes "rp_value f = 0" "list_all reads xs" "a = (Stdout ps, x)"
    and "r \<in> {Exited 1, Exited 2} \<and> list_ex refused E \<and> no_forbidden E
      \<or> r = Exited 3 \<and> list_ex refused E \<and> hardened E \<and> no_forbidden E
      \<or> r = Exited 4 \<and> hardened E \<and> \<not> no_forbidden E"
  shows "hardening_outcome r (a # xs @ (Sys_fork, f) # E)"
  unfolding hardening_outcome_def hardening_in_child_def
  using assms hardened_grows [of E a xs "(Sys_fork, f)"] by (auto simp: reads_no_forbidden)

lemma hardening_outcome_1 [simp]: "list_ex refused E \<Longrightarrow> hardening_outcome (Exited 1) E"
  by (simp_all add: hardening_outcome_def)

lemma hardening_main_adds:
  "adds hardening_main (\<lambda>r E. preceded hardened forbidden E \<and> hardening_outcome r E)"
  unfolding hardening_main_def
  by (rule addsI, simp add: wlp_step wlp_seq [where m = "print_status_snapshot l" for l] wlp_seq [where m = child_demo])
     (auto simp: wlp_step no_forbidden_preceded  reads_no_forbidden not_less hardening_outcome_parent hardening_outcome_child
       intro!: adds_wlp [OF print_status_snapshot_adds] adds_wlp [OF child_demo_adds] adds_wlp [OF hardening_report_adds] hardened_grows
         elim!: preceded_mono)

lemma hardening_main_finishes:
  assumes "finite_files n (os s)"
  shows "finishes hardening_main s"
  unfolding hardening_main_def child_demo_def hardening_report_def Let_def
  using assms
  by (auto intro!: finishes_seq_os finishes_if finishes_basic print_status_snapshot_finishes [of n] lawful_intros)

end
