(* ===== verification/DCapabilities.thy ===== *)
theory DCapabilities
  imports DHardening
begin

section \<open>Dropping capabilities (src/part-14-capabilities/drop_capabilities.c)\<close>

text \<open>
  \<open>capget\<close> stores two structures of three 32-bit words: six numbers of the reply, or zeros where
  it stores nothing, since the code clears them first. \<open>print_status_field\<close> is the one of
  part 11.

  The theorems: the two halves of the effective set make one 64-bit number without loss; and the
  program succeeds only if an all-zero \<open>capset\<close> was granted and the \<open>capget\<close> after it read an
  empty effective set.
\<close>

record cap_data =
  cap_effective :: u32
  cap_permitted :: u32
  cap_inheritable :: u32

definition cap_word :: "reply \<Rightarrow> nat \<Rightarrow> u32" where
  "cap_word r k = word_of_int (num r k)"

definition cap_sets :: "reply \<Rightarrow> cap_data \<times> cap_data" where
  "cap_sets r =
     (\<lparr>cap_effective = cap_word r 0, cap_permitted = cap_word r 1, cap_inheritable = cap_word r 2\<rparr>,
      \<lparr>cap_effective = cap_word r 3, cap_permitted = cap_word r 4, cap_inheritable = cap_word r 5\<rparr>)"

definition print_cap_snapshot :: "string \<Rightarrow> unit prog" where
  "print_cap_snapshot label =
     seq (print_status_field label ''Uid:'') (\<lambda>_.
     seq (print_status_field label ''CapInh:'') (\<lambda>_.
     seq (print_status_field label ''CapPrm:'') (\<lambda>_.
     seq (print_status_field label ''CapEff:'') (\<lambda>_.
     print_status_field label ''CapBnd:''))))"

definition get_caps :: "(cap_data \<times> cap_data) prog" where
  "get_caps = seq (call Sys_capget) (\<lambda>r. if rp_value r < 0 then die ''capget'' else ret (cap_sets r))"

definition no_caps :: "(u32 \<times> u32 \<times> u32) list" where
  "no_caps = [(0, 0, 0), (0, 0, 0)]"

definition drop_process_caps :: "unit prog" where
  "drop_process_caps = seq (sys (Sys_capset no_caps)) (\<lambda>r. if r < 0 then die ''capset'' else ret ())"

definition effective_caps_to_u64 :: "cap_data \<times> cap_data \<Rightarrow> u64" where
  "effective_caps_to_u64 = (\<lambda>(data0, data1).
     or (push_bit 32 (ucast (cap_effective data1))) (ucast (cap_effective data0)))"

definition try_raw_socket :: "string \<Rightarrow> unit prog" where
  "try_raw_socket label =
     seq (sys (Sys_socket [''AF_INET'', ''SOCK_RAW'', ''SOCK_CLOEXEC'', ''IPPROTO_ICMP''])) (\<lambda>fd.
     if 0 \<le> fd
     then seq (print [Txt label, Txt '': raw ICMP socket opened (CAP_NET_RAW was effective)'', NL]) (\<lambda>_.
          ignore (Sys_close fd))
     else seq get_errno (\<lambda>e.
          if e = EPERM \<or> e = EACCES
          then print [Txt label, Txt '': raw ICMP socket denied: '', Strerror e, NL]
          else print [Txt label, Txt '': raw ICMP socket failed for another reason: '', Strerror e, NL]))"

definition capabilities_main :: "int prog" where
  "capabilities_main =
     seq (print [Txt ''capability demo: drop effective/permitted/inheritable sets'', NL]) (\<lambda>_.
     seq (print_cap_snapshot ''before'') (\<lambda>_.
     seq get_caps (\<lambda>before.
     seq (try_raw_socket ''before drop'') (\<lambda>_.
     seq drop_process_caps (\<lambda>_.
     seq (print_cap_snapshot ''after'') (\<lambda>_.
     seq get_caps (\<lambda>after_drop.
     seq (try_raw_socket ''after drop'') (\<lambda>_.
     let effective_after = effective_caps_to_u64 after_drop in
     if effective_after \<noteq> 0
     then seq (eprint [Txt ''expected zero effective capabilities after capset, got 0x'', Hex (uint effective_after), NL]) (\<lambda>_.
          ret 1)
     else seq (if cap_effective (fst before) = 0 \<and> cap_effective (snd before) = 0
               then print [Txt ''note: this process already started without effective capabilities; the capset call still proves the drop path is available.'', NL]
               else print [Txt ''capability drop succeeded: effective capability set is now zero'', NL]) (\<lambda>_.
          ret 0)))))))))"

subsection \<open>The effective set\<close>

lemma effective_caps_halves:
  "take_bit 32 (effective_caps_to_u64 d) = ucast (cap_effective (fst d))"
  "drop_bit 32 (effective_caps_to_u64 d) = ucast (cap_effective (snd d))"
  by (cases d; rule bit_word_eqI;
      auto simp: effective_caps_to_u64_def bit_simps dest: bit_imp_le_length)+

lemma ucast_u64_0: "(ucast (w :: u32) :: u64) = 0 \<longleftrightarrow> w = 0"
  by transfer simp

lemma effective_caps_0:
  "effective_caps_to_u64 d = 0 \<longleftrightarrow> cap_effective (fst d) = 0 \<and> cap_effective (snd d) = 0"
proof
  assume "effective_caps_to_u64 d = 0"
  with effective_caps_halves [of d]
  have "(ucast (cap_effective (fst d)) :: u64) = 0" "(ucast (cap_effective (snd d)) :: u64) = 0" by simp_all
  then show "cap_effective (fst d) = 0 \<and> cap_effective (snd d) = 0" by (simp add: ucast_u64_0)
qed (auto simp: effective_caps_to_u64_def split: prod.splits)

subsection \<open>The program\<close>

text \<open>Calls that neither read nor set capabilities.\<close>

definition caps_apart :: "event \<Rightarrow> bool" where
  "caps_apart e \<longleftrightarrow> fst e \<noteq> Sys_capget \<and> (\<forall>d. fst e \<noteq> Sys_capset d)"

lemma caps_apart_simps [simp]: "caps_apart (c, r) \<longleftrightarrow> c \<noteq> Sys_capget \<and> (\<forall>d. c \<noteq> Sys_capset d)"
  by (simp add: caps_apart_def)

lemma reads_apart: "list_all reads E \<Longrightarrow> list_all caps_apart E"
  by (fastforce simp: list_all_iff reads_def)

lemma print_cap_snapshot_adds:
  "adds (print_cap_snapshot label) (\<lambda>r E. r = Value () \<and> list_all caps_apart E)"
  unfolding print_cap_snapshot_def
  by (rule addsI)
     (auto simp: wlp_seq wlp_simps reads_apart intro!: adds_wlp [OF print_status_field_adds])

lemma try_raw_socket_adds: "adds (try_raw_socket label) (\<lambda>r E. r = Value () \<and> list_all caps_apart E)"
  unfolding try_raw_socket_def by (rule addsI) (auto simp: wlp_simps)

text \<open>An empty set was installed, and what is in force after it was read and is empty.\<close>

definition caps_dropped :: "event list \<Rightarrow> bool" where
  "caps_dropped E \<longleftrightarrow>
     (\<exists>a installed b got c. E = a @ (Sys_capset no_caps, installed) # b @ (Sys_capget, got) # c
        \<and> succeeds installed \<and> succeeds got \<and> list_all caps_apart b \<and> list_all caps_apart c
        \<and> cap_word got 0 = 0 \<and> cap_word got 3 = 0)"

lemma caps_droppedI:
  assumes "succeeds installed" "succeeds got" "list_all caps_apart b" "list_all caps_apart c"
    "effective_caps_to_u64 (cap_sets got) = 0"
  shows "caps_dropped (x # a @ y # z @ (Sys_capset no_caps, installed) # b @ (Sys_capget, got) # c)"
proof -
  have "x # a @ y # z @ (Sys_capset no_caps, installed) # b @ (Sys_capget, got) # c
      = (x # a @ y # z) @ (Sys_capset no_caps, installed) # b @ (Sys_capget, got) # c" by simp
  moreover have "cap_word got 0 = 0 \<and> cap_word got 3 = 0"
    using assms(5) by (simp add: effective_caps_0 cap_sets_def)
  ultimately show ?thesis unfolding caps_dropped_def using assms by blast
qed

definition caps_kept :: "event list \<Rightarrow> bool" where
  "caps_kept E \<longleftrightarrow> (\<exists>got. (Sys_capget, got) \<in> set E \<and> (cap_word got 0 \<noteq> 0 \<or> cap_word got 3 \<noteq> 0))"

lemma caps_keptI:
  "effective_caps_to_u64 (cap_sets got) \<noteq> 0 \<Longrightarrow> caps_kept (x # a @ y # z @ w # b @ (Sys_capget, got) # c)"
  unfolding caps_kept_def by (rule exI [of _ got]) (simp add: effective_caps_0 cap_sets_def)

lemma capabilities_main_adds:
  "adds capabilities_main (\<lambda>r E.
     r = Exited 1 \<and> list_ex refused E \<or> r = Value 1 \<and> caps_kept E \<or> r = Value 0 \<and> caps_dropped E)"
  unfolding capabilities_main_def get_caps_def drop_process_caps_def Let_def
  by (rule addsI, simp add: wlp_step wlp_seq [where m = "print_cap_snapshot l" for l] wlp_seq [where m = "try_raw_socket l" for l])
     (auto simp: wlp_step wlp_seq [where m = "print_cap_snapshot l" for l] wlp_seq [where m = "try_raw_socket l" for l]
       not_less caps_droppedI caps_keptI
       intro!: adds_wlp [OF print_cap_snapshot_adds] adds_wlp [OF try_raw_socket_adds])

lemma capabilities_main_finishes:
  assumes "finite_files n (os s)"
  shows "finishes capabilities_main s"
  unfolding capabilities_main_def get_caps_def drop_process_caps_def try_raw_socket_def print_cap_snapshot_def
    Let_def
  using assms
  by (auto intro!: finishes_seq_os finishes_if finishes_basic print_status_field_finishes [of n] lawful_intros)

end
