(* ===== verification/DKvm.thy ===== *)
theory DKvm
  imports SyncPipe
begin

section \<open>The KVM demos (src/part-08-kvm, part-10-microvm-memory, part-13-kvm-capabilities)\<close>

text \<open>
  Three programs: \<open>api_version_main\<close>, \<open>memory_slots_main\<close> and \<open>capability_main\<close>. The helpers that
  the files repeat (\<open>explain_open_kvm_error\<close>, \<open>open_kvm_device\<close>, \<open>checked_ioctl\<close>) are defined once.
  The arguments of an \<open>ioctl\<close> are numbers; the fields of a memory region are slot, flags, guest
  address, size and host address. \<open>have\<close> says which names the system headers define.

  The theorems: in the memory-slot demo no two registered regions ever share a guest address, all
  of them are gone at a successful end and every descriptor is closed; the capability check is
  ready exactly when the version is the expected one and both required capabilities are there; and
  every program ends.
\<close>

definition KVM_API_VERSION :: int where "KVM_API_VERSION = 12"

definition explain_open_kvm_error :: "int \<Rightarrow> unit prog" where
  "explain_open_kvm_error err =
     seq (eprint [Txt ''open /dev/kvm: '', Strerror err, NL]) (\<lambda>_.
     if err = ENOENT \<or> err = ENODEV
     then eprint [Txt ''hint: /dev/kvm is missing. Enable KVM virtualization in the host kernel/firmware, load the kvm module, or run this on a Linux host with hardware virtualization.'', NL]
     else if err = EACCES \<or> err = EPERM
     then eprint [Txt ''hint: permission denied. Add your user to the kvm group, fix /dev/kvm permissions, or run with sudo for this demo.'', NL]
     else ret ())"

definition open_kvm_device :: "int prog" where
  "open_kvm_device =
     seq (sys (Sys_open ''/dev/kvm'' [''O_RDWR'', ''O_CLOEXEC''])) (\<lambda>kvm_fd.
     if kvm_fd < 0
     then seq get_errno (\<lambda>e. seq (explain_open_kvm_error e) (\<lambda>_. exit_with 1))
     else ret kvm_fd)"

definition checked_ioctl :: "int \<Rightarrow> string \<Rightarrow> int list \<Rightarrow> string \<Rightarrow> int prog" where
  "checked_ioctl fd request args name =
     seq (sys (Sys_ioctl fd request args)) (\<lambda>r.
     if r < 0
     then seq get_errno (\<lambda>e.
          seq (eprint [Txt name, Txt '': '', Strerror e, NL]) (\<lambda>_. exit_with 1))
     else ret r)"

definition version_mismatch :: "int \<Rightarrow> string \<Rightarrow> unit prog" where
  "version_mismatch version advice =
     eprint [Txt ''KVM API mismatch: kernel returned '', Dec version, Txt '' but these headers expect '',
       Dec KVM_API_VERSION, Txt advice, NL]"

subsection \<open>The version of the interface\<close>

definition api_version_main :: "int prog" where
  "api_version_main =
     seq (sys (Sys_open ''/dev/kvm'' [''O_RDWR'', ''O_CLOEXEC''])) (\<lambda>kvm_fd.
     if kvm_fd < 0
     then seq get_errno (\<lambda>e. seq (explain_open_kvm_error e) (\<lambda>_. ret 1))
     else seq (sys (Sys_ioctl kvm_fd ''KVM_GET_API_VERSION'' [0])) (\<lambda>version.
          if version < 0
          then seq get_errno (\<lambda>e.
               seq (eprint [Txt ''KVM_GET_API_VERSION: '', Strerror e, NL]) (\<lambda>_.
               seq (ignore (Sys_close kvm_fd)) (\<lambda>_. ret 1)))
          else seq (print [Txt ''KVM API version: '', Dec version, NL]) (\<lambda>_.
               seq (print [Txt ''expected by headers: '', Dec KVM_API_VERSION, NL]) (\<lambda>_.
               seq (ignore (Sys_close kvm_fd)) (\<lambda>_.
               if version \<noteq> KVM_API_VERSION
               then seq (version_mismatch version ''. Build against headers matching the running kernel or use a compatible host.'') (\<lambda>_. ret 1)
               else ret 0)))))"

subsection \<open>Memory slots\<close>

definition LOW_MEM_SIZE :: int where "LOW_MEM_SIZE = 1024 * 1024"
definition HIGH_MEM_SIZE :: int where "HIGH_MEM_SIZE = 1024 * 1024"
definition HIGH_GPA :: int where "HIGH_GPA = 0x100000000"
definition KVM_CAP_NR_MEMSLOTS :: int where "KVM_CAP_NR_MEMSLOTS = 10"

definition map_host_memory :: "int \<Rightarrow> string \<Rightarrow> int prog" where
  "map_host_memory len label =
     seq (sys (Sys_mmap len [''PROT_READ'', ''PROT_WRITE'', ''MAP_PRIVATE'', ''MAP_ANONYMOUS'', ''MAP_NORESERVE''] (- 1))) (\<lambda>addr.
     if addr = - 1
     then seq get_errno (\<lambda>e.
          seq (eprint [Txt ''mmap '', Txt label, Txt '': '', Strerror e, NL]) (\<lambda>_. exit_with 1))
     else ret addr)"

definition set_memory_slot :: "int \<Rightarrow> int \<Rightarrow> int \<Rightarrow> int \<Rightarrow> int \<Rightarrow> string \<Rightarrow> unit prog" where
  "set_memory_slot vm_fd slot gpa host len label =
     seq (checked_ioctl vm_fd ''KVM_SET_USER_MEMORY_REGION'' [slot, 0, gpa, len, host]
            ''KVM_SET_USER_MEMORY_REGION'') (\<lambda>_.
     print [Txt ''registered slot '', Dec slot, Txt '': guest 0x'', Hex gpa, Txt ''..0x'',
       Hex ((gpa + len - 1) mod 2 ^ 64), Txt '' -> host '', Ptr host, Txt '' ('', Txt label, Txt '')'', NL])"

definition remove_memory_slot :: "int \<Rightarrow> int \<Rightarrow> int \<Rightarrow> unit prog" where
  "remove_memory_slot vm_fd slot gpa =
     seq (checked_ioctl vm_fd ''KVM_SET_USER_MEMORY_REGION'' [slot, 0, gpa, 0, 0]
            ''KVM_SET_USER_MEMORY_REGION remove'') (\<lambda>_.
     print [Txt ''removed slot '', Dec slot, NL])"

text \<open>From the creation of the machine on.\<close>

definition shape_memory :: "int \<Rightarrow> int prog" where
  "shape_memory kvm_fd =
     seq (checked_ioctl kvm_fd ''KVM_CREATE_VM'' [0] ''KVM_CREATE_VM'') (\<lambda>vm_fd.
     seq (map_host_memory LOW_MEM_SIZE ''low guest RAM'') (\<lambda>low_mem.
     seq (map_host_memory HIGH_MEM_SIZE ''high guest RAM'') (\<lambda>high_mem.
     seq (ignore (Lib_memcpy low_mem (c_bytes ''slot 0: low guest RAM''))) (\<lambda>_.
     seq (ignore (Lib_memcpy high_mem (c_bytes ''slot 1: high guest RAM''))) (\<lambda>_.
     seq (set_memory_slot vm_fd 0 0 low_mem LOW_MEM_SIZE ''boot/low memory'') (\<lambda>_.
     seq (set_memory_slot vm_fd 1 HIGH_GPA high_mem HIGH_MEM_SIZE ''device or high memory window'') (\<lambda>_.
     seq (print [Txt ''host check: slot 0 says \"'', Str_at low_mem, Txt ''\"'', NL]) (\<lambda>_.
     seq (print [Txt ''host check: slot 1 says \"'', Str_at high_mem, Txt ''\"'', NL]) (\<lambda>_.
     seq (print [Txt ''no vCPU was created; this lesson only shapes the guest physical map'', NL]) (\<lambda>_.
     seq (remove_memory_slot vm_fd 1 HIGH_GPA) (\<lambda>_.
     seq (remove_memory_slot vm_fd 0 0) (\<lambda>_.
     seq (ignore (Sys_munmap high_mem HIGH_MEM_SIZE)) (\<lambda>_.
     seq (ignore (Sys_munmap low_mem LOW_MEM_SIZE)) (\<lambda>_.
     seq (ignore (Sys_close vm_fd)) (\<lambda>_.
     seq (ignore (Sys_close kvm_fd)) (\<lambda>_. ret 0))))))))))))))))"

definition memory_slots_main :: "(string \<Rightarrow> bool) \<Rightarrow> int prog" where
  "memory_slots_main have =
     seq open_kvm_device (\<lambda>kvm_fd.
     seq (checked_ioctl kvm_fd ''KVM_GET_API_VERSION'' [0] ''KVM_GET_API_VERSION'') (\<lambda>version.
     seq (print [Txt ''KVM API version: '', Dec version, NL]) (\<lambda>_.
     if version \<noteq> KVM_API_VERSION
     then seq (version_mismatch version ''.'') (\<lambda>_. seq (ignore (Sys_close kvm_fd)) (\<lambda>_. ret 1))
     else if have ''KVM_CAP_NR_MEMSLOTS''
     then seq (checked_ioctl kvm_fd ''KVM_CHECK_EXTENSION'' [KVM_CAP_NR_MEMSLOTS]
                 ''KVM_CHECK_EXTENSION(KVM_CAP_NR_MEMSLOTS)'') (\<lambda>max_slots.
          seq (print [Txt ''KVM reports '', Dec max_slots, Txt '' memory slots available'', NL]) (\<lambda>_.
          if max_slots < 2
          then seq (eprint [Txt ''need at least two memory slots for this lesson'', NL]) (\<lambda>_.
               seq (ignore (Sys_close kvm_fd)) (\<lambda>_. ret 1))
          else shape_memory kvm_fd))
     else seq (eprint [Txt ''these Linux headers do not define KVM_CAP_NR_MEMSLOTS; install newer kernel headers for this lesson'', NL]) (\<lambda>_.
          seq (ignore (Sys_close kvm_fd)) (\<lambda>_. ret 1)))))"

subsection \<open>The capability checklist\<close>

datatype cap_kind = CAP_BOOLEAN | CAP_COUNT

text \<open>\<open>%-24s\<close>.\<close>

definition padded :: "string \<Rightarrow> string" where
  "padded s = s @ replicate (24 - length s) CHR '' ''"

definition check_capability :: "int \<Rightarrow> int \<Rightarrow> string \<Rightarrow> cap_kind \<Rightarrow> bool \<Rightarrow> string \<Rightarrow> int prog" where
  "check_capability kvm_fd capability name kind required why =
     seq (checked_ioctl kvm_fd ''KVM_CHECK_EXTENSION'' [capability] ''KVM_CHECK_EXTENSION'') (\<lambda>v.
     seq (if kind = CAP_COUNT then print [Txt (padded name), Txt '' value='', Dec v]
          else seq (print [Txt (padded name), Txt '' '', Txt (if 0 < v then ''yes'' else ''no'')]) (\<lambda>_.
               if 1 < v then print [Txt '' (value='', Dec v, Txt '')''] else ret ())) (\<lambda>_.
     seq (print [Txt '' - '', Txt why]) (\<lambda>_.
     seq (if required \<and> v \<le> 0 then print [Txt '' [required for this path]''] else ret ()) (\<lambda>_.
     seq (print [NL]) (\<lambda>_. ret v)))))"

definition print_missing_header_cap :: "string \<Rightarrow> string \<Rightarrow> unit prog" where
  "print_missing_header_cap name why =
     print [Txt (padded name), Txt '' header-missing - '', Txt why, NL]"

text \<open>A required capability: whether \<open>ready\<close> stays true.\<close>

definition check_required :: "(string \<Rightarrow> bool) \<Rightarrow> int \<Rightarrow> int \<Rightarrow> string \<Rightarrow> cap_kind \<Rightarrow> string \<Rightarrow> string \<Rightarrow> bool prog" where
  "check_required have kvm_fd capability name kind why missing =
     (if have name
      then seq (check_capability kvm_fd capability name kind True why) (\<lambda>v. ret (0 < v))
      else seq (print_missing_header_cap name missing) (\<lambda>_. ret False))"

definition check_optional :: "(string \<Rightarrow> bool) \<Rightarrow> int \<Rightarrow> int \<Rightarrow> string \<Rightarrow> string \<Rightarrow> string \<Rightarrow> unit prog" where
  "check_optional have kvm_fd capability name why missing =
     (if have name
      then seq (check_capability kvm_fd capability name CAP_BOOLEAN False why) (\<lambda>_. ret ())
      else print_missing_header_cap name missing)"

definition capability_main :: "(string \<Rightarrow> bool) \<Rightarrow> int prog" where
  "capability_main have =
     seq open_kvm_device (\<lambda>kvm_fd.
     seq (checked_ioctl kvm_fd ''KVM_GET_API_VERSION'' [0] ''KVM_GET_API_VERSION'') (\<lambda>api_version.
     seq (print [Txt ''KVM API version: '', Dec api_version, NL]) (\<lambda>_.
     seq (print [Txt ''expected by headers: '', Dec KVM_API_VERSION, NL, NL]) (\<lambda>_.
     if api_version \<noteq> KVM_API_VERSION
     then seq (version_mismatch api_version ''.'') (\<lambda>_. seq (ignore (Sys_close kvm_fd)) (\<lambda>_. ret 1))
     else seq (print [Txt ''microVM/VMM capability checklist:'', NL]) (\<lambda>_.
     seq (check_required have kvm_fd 3 ''KVM_CAP_USER_MEMORY'' CAP_BOOLEAN
            ''userspace-backed guest RAM via KVM_SET_USER_MEMORY_REGION''
            ''old headers cannot name userspace memory support'') (\<lambda>user_memory.
     seq (check_required have kvm_fd KVM_CAP_NR_MEMSLOTS ''KVM_CAP_NR_MEMSLOTS'' CAP_COUNT
            ''maximum memory regions the VMM can register''
            ''old headers cannot ask for the memory-slot count'') (\<lambda>memslots.
     seq (check_optional have kvm_fd 0 ''KVM_CAP_IRQCHIP''
            ''in-kernel interrupt controller support''
            ''headers do not expose the irqchip capability'') (\<lambda>_.
     seq (check_optional have kvm_fd 36 ''KVM_CAP_IOEVENTFD''
            ''eventfd notification path used by virtio-style devices''
            ''headers do not expose ioeventfd capability'') (\<lambda>_.
     seq (check_optional have kvm_fd 32 ''KVM_CAP_IRQFD''
            ''eventfd-based interrupt injection used by VMM devices''
            ''headers do not expose irqfd capability'') (\<lambda>_.
     seq (check_optional have kvm_fd 14 ''KVM_CAP_MP_STATE''
            ''read/write vCPU multiprocessing state when supported''
            ''headers do not expose vCPU MP state capability'') (\<lambda>_.
     seq (print [NL]) (\<lambda>_.
     let ready = user_memory \<and> memslots in
     seq (if ready
          then print [Txt ''baseline result: this host exposes the core KVM pieces needed to map guest RAM for a tiny VMM.'', NL]
          else print [Txt ''baseline result: missing a core capability for the tiny VMM memory path checked by this lesson.'', NL]) (\<lambda>_.
     seq (ignore (Sys_close kvm_fd)) (\<lambda>_.
     ret (if ready then 0 else 1)))))))))))))))"

subsection \<open>The memory map\<close>

text \<open>
  The slots of the machine as the interface documents them: a granted request for a slot with a
  size sets it, and one with size 0 deletes it. Regions are a guest address and a size.
\<close>

fun slot_step :: "event \<Rightarrow> (int \<rightharpoonup> int \<times> int) \<Rightarrow> (int \<rightharpoonup> int \<times> int)" where
  "slot_step (Sys_ioctl fd request [slot, flags, gpa, len, host], r) m =
     (if request = ''KVM_SET_USER_MEMORY_REGION'' \<and> succeeds r
      then (if len = 0 then m(slot := None) else m(slot \<mapsto> (gpa, len)))
      else m)"
| "slot_step _ m = m"

definition slots :: "event list \<Rightarrow> (int \<rightharpoonup> int \<times> int)" where
  "slots l = fold slot_step l Map.empty"

definition disjoint_slots :: "(int \<rightharpoonup> int \<times> int) \<Rightarrow> bool" where
  "disjoint_slots m \<longleftrightarrow>
     (\<forall>i j gpa len gpa' len'. m i = Some (gpa, len) \<longrightarrow> m j = Some (gpa', len') \<longrightarrow> i \<noteq> j
        \<longrightarrow> gpa + len \<le> gpa' \<or> gpa' + len' \<le> gpa)"

text \<open>Every state of the map on the way.\<close>

definition always_disjoint :: "event list \<Rightarrow> bool" where
  "always_disjoint l \<longleftrightarrow> (\<forall>k \<le> length l. disjoint_slots (slots (take k l)))"

fun disjoint_from :: "(int \<rightharpoonup> int \<times> int) \<Rightarrow> event list \<Rightarrow> bool" where
  "disjoint_from m [] \<longleftrightarrow> disjoint_slots m"
| "disjoint_from m (e # l) \<longleftrightarrow> disjoint_slots m \<and> disjoint_from (slot_step e m) l"

lemma disjoint_from_iff: "disjoint_from m l \<longleftrightarrow> (\<forall>k \<le> length l. disjoint_slots (fold slot_step (take k l) m))"
proof (induction l arbitrary: m)
  case (Cons e l)
  have shift: "(\<forall>k \<le> Suc n. P k) \<longleftrightarrow> P 0 \<and> (\<forall>k \<le> n. P (Suc k))" for P and n :: nat
    using All_less_Suc2 [of "Suc n" P] by (simp only: less_Suc_eq_le)
  show ?case by (simp add: shift Cons)
qed simp

lemma always_disjoint_iff: "always_disjoint l \<longleftrightarrow> disjoint_from Map.empty l"
  by (simp add: always_disjoint_def disjoint_from_iff slots_def)

lemma disjoint_small [simp]:
  "disjoint_slots Map.empty"
  "disjoint_slots [i \<mapsto> (gpa, len)]"
  "i \<noteq> j \<Longrightarrow> gpa + len \<le> gpa' \<Longrightarrow> disjoint_slots [i \<mapsto> (gpa, len), j \<mapsto> (gpa', len')]"
  by (auto simp: disjoint_slots_def split: if_splits)

subsection \<open>Descriptors\<close>

text \<open>What was opened has been closed.\<close>

definition opens :: "event \<Rightarrow> bool" where
  "opens e = (case fst e of Sys_open _ _ \<Rightarrow> succeeds (snd e)
     | Sys_ioctl _ request _ \<Rightarrow> request \<in> {''KVM_CREATE_VM'', ''KVM_CREATE_VCPU''} \<and> succeeds (snd e)
     | _ \<Rightarrow> False)"

lemma opens_pair [simp]:
  "opens (c, x) \<longleftrightarrow> (case c of Sys_open _ _ \<Rightarrow> succeeds x
     | Sys_ioctl _ request _ \<Rightarrow> request \<in> {''KVM_CREATE_VM'', ''KVM_CREATE_VCPU''} \<and> succeeds x | _ \<Rightarrow> False)"
  by (cases c) (simp_all add: opens_def)

definition closes :: "int \<Rightarrow> event \<Rightarrow> bool" where
  "closes fd e \<longleftrightarrow> fst e = Sys_close fd"

definition all_closed :: "event list \<Rightarrow> bool" where
  "all_closed l \<longleftrightarrow> list_all (\<lambda>e. opens e \<longrightarrow> list_ex (closes (rp_value (snd e))) l) l"

lemma api_version_adds:
  "adds api_version_main (\<lambda>r E. all_closed E \<and>
     (r = Value 1 \<or> r = Value 0 \<and> list_ex (\<lambda>e. \<exists>fd. fst e = Sys_ioctl fd ''KVM_GET_API_VERSION'' [0]
        \<and> rp_value (snd e) = KVM_API_VERSION) E))"
  unfolding api_version_main_def explain_open_kvm_error_def version_mismatch_def
  by (rule adds_emits, intro emits_intros) (simp_all add: all_closed_def closes_def not_less)

text \<open>The version is the expected one, and the machine has two slots.\<close>

definition slots_ready :: "(string \<Rightarrow> bool) \<Rightarrow> event list \<Rightarrow> bool" where
  "slots_ready have l \<longleftrightarrow> have ''KVM_CAP_NR_MEMSLOTS'' \<and>
     (case l of
        _ # (_, version) # _ # (_, max_slots) # _ \<Rightarrow> rp_value version = KVM_API_VERSION \<and> 2 \<le> rp_value max_slots
      | _ \<Rightarrow> False)"

lemma memory_slots_adds:
  "adds (memory_slots_main have) (\<lambda>r E. always_disjoint E \<and>
     (r = Exited 1 \<and> list_ex refused E
      \<or> all_closed E \<and> slots E = Map.empty \<and> r = Value (if slots_ready have E then 0 else 1)))"
  unfolding memory_slots_main_def shape_memory_def open_kvm_device_def explain_open_kvm_error_def
    checked_ioctl_def version_mismatch_def map_host_memory_def set_memory_slot_def remove_memory_slot_def
  by (rule adds_emits, intro emits_intros)
     (simp_all add: all_closed_def closes_def not_less
        always_disjoint_iff slots_def slots_ready_def LOW_MEM_SIZE_def HIGH_MEM_SIZE_def HIGH_GPA_def)

subsection \<open>The checklist\<close>

text \<open>A capability the machine was asked for, and has.\<close>

definition capable :: "int \<Rightarrow> int \<Rightarrow> event list \<Rightarrow> bool" where
  "capable fd capability l \<longleftrightarrow>
     list_ex (\<lambda>e. fst e = Sys_ioctl fd ''KVM_CHECK_EXTENSION'' [capability] \<and> 0 < rp_value (snd e)) l"

lemma capable_simps [simp]:
  "\<not> capable fd cap []"
  "capable fd cap (e # E) \<longleftrightarrow> fst e = Sys_ioctl fd ''KVM_CHECK_EXTENSION'' [cap] \<and> 0 < rp_value (snd e)
     \<or> capable fd cap E"
  "capable fd cap (E @ E') \<longleftrightarrow> capable fd cap E \<or> capable fd cap E'"
  by (simp_all add: capable_def)

text \<open>Calls that a check may make.\<close>

definition asks_or_prints :: "int \<Rightarrow> event \<Rightarrow> bool" where
  "asks_or_prints cap e = (case fst e of Sys_ioctl _ request args \<Rightarrow> request = ''KVM_CHECK_EXTENSION'' \<and> args = [cap]
     | Stdout _ \<Rightarrow> True | Stderr _ \<Rightarrow> True | _ \<Rightarrow> False)"

lemma check_capability_adds:
  "adds (check_capability fd cap name kind required why) (\<lambda>r E. list_all (asks_or_prints cap) E \<and>
     (r = Exited 1 \<and> list_ex refused E \<or> (\<exists>v. r = Value v \<and> (0 < v \<longleftrightarrow> capable fd cap E))))"
  unfolding check_capability_def checked_ioctl_def
  by (rule adds_emits, intro emits_intros) (auto simp: asks_or_prints_def not_less)

lemma check_required_adds:
  "adds (check_required have fd cap name kind why missing) (\<lambda>r E. list_all (asks_or_prints cap) E \<and>
     (r = Exited 1 \<and> list_ex refused E \<or> r = Value (have name \<and> capable fd cap E)))"
  unfolding check_required_def print_missing_header_cap_def
  by (rule adds_emits, intro emits_intros emits_adds [OF check_capability_adds])
     (auto simp: asks_or_prints_def emits_basic)

lemma check_optional_adds:
  "adds (check_optional have fd cap name why missing) (\<lambda>r E. list_all (asks_or_prints cap) E \<and>
     (r = Exited 1 \<and> list_ex refused E \<or> r = Value ()))"
  unfolding check_optional_def print_missing_header_cap_def
  by (rule adds_emits, intro emits_intros emits_adds [OF check_capability_adds])
     (auto simp: asks_or_prints_def emits_basic)

lemma asks_not_capable: "list_all (asks_or_prints cap) E \<Longrightarrow> cap \<noteq> cap' \<Longrightarrow> \<not> capable fd cap' E"
  by (fastforce simp: list_all_iff capable_def list_ex_iff asks_or_prints_def)

lemma asks_open_nothing: "list_all (asks_or_prints cap) E \<Longrightarrow> list_all (\<lambda>e. opens e \<longrightarrow> P e) E"
  by (fastforce simp: list_all_iff opens_def asks_or_prints_def split: linux_call.splits)

text \<open>What the machine has to answer for the program to be content.\<close>

definition kvm_ready :: "(string \<Rightarrow> bool) \<Rightarrow> event list \<Rightarrow> bool" where
  "kvm_ready have l \<longleftrightarrow> (case l of
     (c, opened) # (c', version) # _ \<Rightarrow>
        rp_value version = KVM_API_VERSION
        \<and> have ''KVM_CAP_USER_MEMORY'' \<and> capable (rp_value opened) 3 l
        \<and> have ''KVM_CAP_NR_MEMSLOTS'' \<and> capable (rp_value opened) KVM_CAP_NR_MEMSLOTS l
   | _ \<Rightarrow> False)"

lemma emits_checks:
  assumes "\<And>e E'. list_all (asks_or_prints cap) E' \<Longrightarrow> list_ex refused E' \<Longrightarrow> Q (Exited 1) e (E @ E')"
    and "\<And>e E'. list_all (asks_or_prints cap) E' \<Longrightarrow> Q (Value (have name \<and> capable fd cap E')) e (E @ E')"
  shows "emits (check_required have fd cap name kind why missing) Q e E"
  by (rule emits_adds [OF check_required_adds]) (use assms in auto)

lemma emits_optional:
  assumes "\<And>e E'. list_all (asks_or_prints cap) E' \<Longrightarrow> list_ex refused E' \<Longrightarrow> Q (Exited 1) e (E @ E')"
    and "\<And>e E'. list_all (asks_or_prints cap) E' \<Longrightarrow> Q (Value ()) e (E @ E')"
  shows "emits (check_optional have fd cap name why missing) Q e E"
  by (rule emits_adds [OF check_optional_adds]) (use assms in auto)

lemma capability_main_adds:
  "adds (capability_main have) (\<lambda>r E.
     r = Exited 1 \<and> list_ex refused E \<or> all_closed E \<and> r = Value (if kvm_ready have E then 0 else 1))"
  unfolding capability_main_def open_kvm_device_def explain_open_kvm_error_def checked_ioctl_def
    version_mismatch_def Let_def
  by (rule adds_emits, intro emits_intros emits_checks emits_optional)
     (simp_all add: all_closed_def asks_open_nothing closes_def kvm_ready_def asks_not_capable
       KVM_CAP_NR_MEMSLOTS_def not_less)

subsection \<open>Ends\<close>

lemma kvm_demos_finish [finishes_intros]:
  "finishes api_version_main s" "finishes (memory_slots_main have) s" "finishes (capability_main have) s"
  unfolding api_version_main_def explain_open_kvm_error_def version_mismatch_def
    memory_slots_main_def shape_memory_def open_kvm_device_def checked_ioctl_def map_host_memory_def
    set_memory_slot_def remove_memory_slot_def capability_main_def check_required_def check_optional_def
    check_capability_def print_missing_header_cap_def Let_def
  by (intro finishes_intros)+

end
