(* ===== verification/DMicrovm.thy ===== *)
theory DMicrovm
  imports DKvm
begin

section \<open>The tiny virtual machine monitor (src/part-09-microvm/mini_firecracker.c)\<close>

text \<open>
  \<open>microvm_main\<close> is the program; the size of \<open>struct kvm_run\<close> in the system headers is its
  argument. A successful \<open>KVM_RUN\<close> leaves the exit in the shared run area: the numbers of the reply
  are the exit reason and the fields of that exit (for an I/O exit its direction, size, port and
  count), and its text is the bytes from \<open>data_offset\<close> on. The special registers are the numbers
  of \<open>KVM_GET_SREGS\<close>: base and selector of \<open>cs\<close>, \<open>ds\<close>, \<open>es\<close> and \<open>ss\<close>, then all other fields.

  The guest program is the array of bytes of the source, and \<open>guest_step\<close> is the processor on the
  seven instructions that it uses.

  The theorems: the run loop prints exactly the bytes of the I/O exits, all of which are one-byte
  writes to the debug port, and succeeds exactly if the guest halts; the guest program writes the
  greeting and halts; at the first run the machine has just that program in its memory and starts at
  its entry (\<open>guest_loaded\<close>); and the two together print the greeting, if the system runs the guest.
\<close>

definition GUEST_MEM_SIZE :: int where "GUEST_MEM_SIZE = 2 * 1024 * 1024"
definition GUEST_ENTRY :: int where "GUEST_ENTRY = 0x1000"
definition DEBUG_PORT :: int where "DEBUG_PORT = 0xE9"
definition KVM_EXIT_IO :: int where "KVM_EXIT_IO = 2"
definition KVM_EXIT_HLT :: int where "KVM_EXIT_HLT = 5"
definition KVM_EXIT_FAIL_ENTRY :: int where "KVM_EXIT_FAIL_ENTRY = 9"
definition KVM_EXIT_INTERNAL_ERROR :: int where "KVM_EXIT_INTERNAL_ERROR = 17"
definition KVM_EXIT_IO_OUT :: int where "KVM_EXIT_IO_OUT = 1"

lemmas exit_defs = KVM_EXIT_IO_def KVM_EXIT_HLT_def KVM_EXIT_FAIL_ENTRY_def KVM_EXIT_INTERNAL_ERROR_def
  KVM_EXIT_IO_OUT_def DEBUG_PORT_def

definition kvm_ioctl :: "int \<Rightarrow> string \<Rightarrow> int list \<Rightarrow> reply prog" where
  "kvm_ioctl fd request args =
     seq (call (Sys_ioctl fd request args)) (\<lambda>r. if rp_value r < 0 then die ''ioctl'' else ret r)"

definition guest_code :: "u8 list" where
  "guest_code =
     [0xbe, 0x0e, 0x10,
      0xac,
      0x84, 0xc0,
      0x74, 0x04,
      0xe6, 0xe9,
      0xeb, 0xf7,
      0xf4,
      0x00] @
     map of_char ''hello '' @ map of_char ''from '' @ map of_char ''a tiny '' @
     map of_char (ln ''microVM'') @ [0x00]"

text \<open>\<open>rax\<close> to \<open>rdi\<close>, \<open>rsp\<close>, \<open>rbp\<close>, \<open>r8\<close> to \<open>r15\<close>, \<open>rip\<close>, \<open>rflags\<close>.\<close>

definition real_mode_regs :: "int list" where
  "real_mode_regs = replicate 6 0 @ [0x200000, 0] @ replicate 8 0 @ [GUEST_ENTRY, 2]"

definition setup_real_mode :: "int \<Rightarrow> unit prog" where
  "setup_real_mode vcpu_fd =
     seq (kvm_ioctl vcpu_fd ''KVM_GET_SREGS'' []) (\<lambda>sregs.
     seq (kvm_ioctl vcpu_fd ''KVM_SET_SREGS'' (replicate 8 0 @ drop 8 (rp_nums sregs))) (\<lambda>_.
     seq (kvm_ioctl vcpu_fd ''KVM_SET_REGS'' real_mode_regs) (\<lambda>_. ret ())))"

text \<open>The loop around \<open>putchar\<close>.\<close>

fun put_bytes :: "string \<Rightarrow> unit prog" where
  "put_bytes [] = ret ()"
| "put_bytes (c # cs) = seq (print [Txt [c]]) (\<lambda>_. put_bytes cs)"

definition handle_io_exit :: "reply \<Rightarrow> unit prog" where
  "handle_io_exit run =
     (if num run 1 \<noteq> KVM_EXIT_IO_OUT \<or> num run 2 \<noteq> 1 \<or> num run 3 \<noteq> DEBUG_PORT
      then seq (eprint [NL, Txt ''unhandled I/O exit: direction='', Dec (num run 1), Txt '' size='', Dec (num run 2),
             Txt '' port=0x'', Hex (num run 3), NL]) (\<lambda>_. exit_with 1)
      else seq (put_bytes (take (nat (num run 4)) (rp_text run))) (\<lambda>_. ignore Lib_fflush))"

text \<open>One round of the run loop; the loop is left at \<open>done\<close> (\<^const>\<open>True\<close>) or \<open>fail\<close>.\<close>

definition vm_round :: "int \<Rightarrow> unit \<Rightarrow> (unit + bool) prog" where
  "vm_round vcpu_fd _ =
     seq (call (Sys_ioctl vcpu_fd ''KVM_RUN'' [0])) (\<lambda>run.
     if rp_value run < 0
     then seq get_errno (\<lambda>e. if e = EINTR then ret (Inl ()) else die ''KVM_RUN'')
     else if num run 0 = KVM_EXIT_IO then seq (handle_io_exit run) (\<lambda>_. ret (Inl ()))
     else if num run 0 = KVM_EXIT_HLT
     then seq (print [Txt (ln ''host VMM: guest halted'')]) (\<lambda>_. ret (Inr True))
     else if num run 0 = KVM_EXIT_FAIL_ENTRY
     then seq (eprint [Txt ''KVM_EXIT_FAIL_ENTRY hardware_entry_failure_reason=0x'', Hex (num run 1), NL]) (\<lambda>_.
          ret (Inr False))
     else if num run 0 = KVM_EXIT_INTERNAL_ERROR
     then seq (eprint [Txt ''KVM_EXIT_INTERNAL_ERROR suberror='', Dec (num run 1), NL]) (\<lambda>_. ret (Inr False))
     else seq (eprint [Txt ''unhandled KVM exit reason: '', Dec (num run 0), NL]) (\<lambda>_. ret (Inr False)))"

definition run_vcpu :: "int \<Rightarrow> bool prog" where
  "run_vcpu vcpu_fd = loop (vm_round vcpu_fd) ()"

definition microvm_main :: "int \<Rightarrow> int prog" where
  "microvm_main kvm_run_size =
     seq open_kvm_device (\<lambda>kvm_fd.
     seq (sys (Sys_ioctl kvm_fd ''KVM_GET_API_VERSION'' [0])) (\<lambda>api_version.
     if api_version < 0
     then seq get_errno (\<lambda>e.
          seq (eprint [Txt ''KVM_GET_API_VERSION: '', Strerror e, NL]) (\<lambda>_.
          seq (ignore (Sys_close kvm_fd)) (\<lambda>_. ret 1)))
     else if api_version \<noteq> KVM_API_VERSION
     then seq (version_mismatch api_version ''. Build against headers matching the running kernel or use a compatible host.'') (\<lambda>_.
          seq (ignore (Sys_close kvm_fd)) (\<lambda>_. ret 1))
     else seq (kvm_ioctl kvm_fd ''KVM_CREATE_VM'' [0]) (\<lambda>vm.
     let vm_fd = rp_value vm in
     seq (sys (Sys_mmap GUEST_MEM_SIZE [''PROT_READ'', ''PROT_WRITE'', ''MAP_PRIVATE'', ''MAP_ANONYMOUS'', ''MAP_NORESERVE''] (- 1))) (\<lambda>guest_mem.
     if guest_mem = - 1 then die ''mmap guest memory''
     else seq (ignore (Lib_memcpy (guest_mem + GUEST_ENTRY) guest_code)) (\<lambda>_.
     seq (kvm_ioctl vm_fd ''KVM_SET_USER_MEMORY_REGION'' [0, 0, 0, GUEST_MEM_SIZE, guest_mem]) (\<lambda>_.
     seq (kvm_ioctl vm_fd ''KVM_CREATE_VCPU'' [0]) (\<lambda>vcpu.
     let vcpu_fd = rp_value vcpu in
     seq (sys (Sys_ioctl kvm_fd ''KVM_GET_VCPU_MMAP_SIZE'' [0])) (\<lambda>run_mmap_size.
     if run_mmap_size < kvm_run_size
     then seq (eprint [Txt ''KVM_GET_VCPU_MMAP_SIZE returned too small a size'', NL]) (\<lambda>_. ret 1)
     else seq (sys (Sys_mmap run_mmap_size [''PROT_READ'', ''PROT_WRITE'', ''MAP_SHARED''] vcpu_fd)) (\<lambda>run.
     if run = - 1 then die ''mmap kvm_run''
     else seq (setup_real_mode vcpu_fd) (\<lambda>_.
     seq (print [Txt (ln ''host VMM: starting vCPU'')]) (\<lambda>_.
     seq (run_vcpu vcpu_fd) (\<lambda>ok.
     seq (ignore (Sys_munmap run run_mmap_size)) (\<lambda>_.
     seq (ignore (Sys_munmap guest_mem GUEST_MEM_SIZE)) (\<lambda>_.
     seq (ignore (Sys_close vcpu_fd)) (\<lambda>_.
     seq (ignore (Sys_close vm_fd)) (\<lambda>_.
     seq (ignore (Sys_close kvm_fd)) (\<lambda>_.
     ret (if ok then 0 else 1))))))))))))))))))"

subsection \<open>The run loop\<close>

text \<open>The exits of the machine, in order, and the text put on the console.\<close>

definition vm_exits :: "int \<Rightarrow> event list \<Rightarrow> reply list" where
  "vm_exits vcpu_fd l = map snd (filter (\<lambda>(c, r). c = Sys_ioctl vcpu_fd ''KVM_RUN'' [0] \<and> succeeds r) l)"

lemma vm_exits_simps [simp]:
  "vm_exits fd [] = []"
  "vm_exits fd ((c, r) # l) =
     (if c = Sys_ioctl fd ''KVM_RUN'' [0] \<and> succeeds r then r # vm_exits fd l else vm_exits fd l)"
  "vm_exits fd (l @ l') = vm_exits fd l @ vm_exits fd l'"
  by (simp_all add: vm_exits_def)

definition printed :: "event list \<Rightarrow> string" where
  "printed l = concat (map (\<lambda>e. case fst e of Stdout [Txt t] \<Rightarrow> t | _ \<Rightarrow> []) l)"

lemma printed_simps [simp]:
  "printed [] = []"
  "printed ((c, r) # l) = (case c of Stdout [Txt t] \<Rightarrow> t | _ \<Rightarrow> []) @ printed l"
  "printed (l @ l') = printed l @ printed l'"
  by (simp_all add: printed_def)

definition debug_write :: "reply \<Rightarrow> bool" where
  "debug_write r \<longleftrightarrow> num r 0 = KVM_EXIT_IO \<and> num r 1 = KVM_EXIT_IO_OUT \<and> num r 2 = 1 \<and> num r 3 = DEBUG_PORT"

definition debug_bytes :: "reply \<Rightarrow> string" where
  "debug_bytes r = take (nat (num r 4)) (rp_text r)"

lemma put_bytes_adds:
  "adds (put_bytes cs) (\<lambda>r E. r = Value () \<and> printed E = cs \<and> (\<forall>fd. vm_exits fd E = []))"
proof (induction cs)
  case Nil
  show ?case by (auto intro!: adds_emits emits_intros)
next
  case (Cons c cs)
  show ?case
    by (simp, rule adds_emits, intro emits_intros emits_adds [OF Cons.IH]) auto
qed

text \<open>An exit that the program does not serve, after some that it does.\<close>

definition bad_exit :: "int \<Rightarrow> event list \<Rightarrow> bool" where
  "bad_exit fd E \<longleftrightarrow>
     (\<exists>outs bad. vm_exits fd E = outs @ [bad] \<and> list_all debug_write outs
        \<and> num bad 0 = KVM_EXIT_IO \<and> \<not> debug_write bad)"

text \<open>One round: nothing, a write to the debug port, the end of the machine, or a failure.\<close>

definition vm_round_outcome :: "int \<Rightarrow> (unit + bool) outcome \<Rightarrow> event list \<Rightarrow> bool" where
  "vm_round_outcome fd r E \<longleftrightarrow>
     r = Value (Inl ()) \<and> vm_exits fd E = [] \<and> printed E = []
     \<or> r = Value (Inl ()) \<and> (\<exists>x. vm_exits fd E = [x] \<and> debug_write x \<and> printed E = debug_bytes x)
     \<or> (\<exists>ok x. r = Value (Inr ok) \<and> vm_exits fd E = [x] \<and> num x 0 \<noteq> KVM_EXIT_IO \<and> (ok \<longleftrightarrow> num x 0 = KVM_EXIT_HLT)
          \<and> printed E = (if ok then ln ''host VMM: guest halted'' else []))
     \<or> r = Exited 1 \<and> (list_ex refused E \<or> bad_exit fd E)"

lemma emits_put_bytes:
  "(\<And>e E'. printed E' = cs \<Longrightarrow> (\<And>fd. vm_exits fd E' = []) \<Longrightarrow> Q (Value ()) e (E @ E')) \<Longrightarrow> emits (put_bytes cs) Q e E"
  by (rule emits_adds [OF put_bytes_adds]) auto

lemma vm_round_adds: "adds (vm_round fd x) (vm_round_outcome fd)"
  unfolding vm_round_def handle_io_exit_def
  by (rule adds_emits, intro emits_intros emits_put_bytes)
     (auto simp: vm_round_outcome_def debug_write_def debug_bytes_def bad_exit_def not_less exit_defs)

definition vm_outcome :: "int \<Rightarrow> bool outcome \<Rightarrow> event list \<Rightarrow> bool" where
  "vm_outcome fd r E \<longleftrightarrow>
     r = Exited 1 \<and> (list_ex refused E \<or> bad_exit fd E) \<or>
     (\<exists>outs final ok. r = Value ok \<and> vm_exits fd E = outs @ [final] \<and> list_all debug_write outs
        \<and> num final 0 \<noteq> KVM_EXIT_IO \<and> (ok \<longleftrightarrow> num final 0 = KVM_EXIT_HLT)
        \<and> printed E = concat (map debug_bytes outs) @ (if ok then ln ''host VMM: guest halted'' else []))"

lemma bad_exit_grows:
  "list_all debug_write (vm_exits fd E) \<Longrightarrow> bad_exit fd E' \<Longrightarrow> bad_exit fd (E @ E')"
  unfolding bad_exit_def by (metis append_assoc list_all_append vm_exits_simps(3))

lemma run_vcpu_adds: "adds (run_vcpu fd) (vm_outcome fd)"
proof (rule addsI)
  fix s :: proc
  let ?I = "\<lambda>_ s'. \<exists>E. log s' = log s @ E \<and> list_all debug_write (vm_exits fd E)
      \<and> printed E = concat (map debug_bytes (vm_exits fd E))"
  show "wlp (run_vcpu fd) (\<lambda>r s'. \<exists>E. log s' = log s @ E \<and> vm_outcome fd r E) s"
    unfolding run_vcpu_def
    by (rule wlp_loop [where I = ?I])
       (auto simp: vm_round_outcome_def vm_outcome_def bad_exit_grows intro!: adds_wlp [OF vm_round_adds])
qed

subsection \<open>The guest\<close>

record guest =
  g_ip :: u16
  g_si :: u16
  g_al :: u8
  g_zf :: bool

datatype guest_effect = Continue | Out u8 u8 | Halt | Fault

text \<open>One instruction in real mode, with all segments at 0 and the direction flag clear.\<close>

definition guest_step :: "(u16 \<Rightarrow> u8) \<Rightarrow> guest \<Rightarrow> guest_effect \<times> guest" where
  "guest_step mem g =
     (let ip = g_ip g; b = mem ip; d = mem (ip + 1) in
      if b = 0xbe
      then (Continue, g\<lparr>g_ip := ip + 3, g_si := push_bit 8 (ucast (mem (ip + 2))) + ucast d\<rparr>)
      else if b = 0xac then (Continue, g\<lparr>g_ip := ip + 1, g_al := mem (g_si g), g_si := g_si g + 1\<rparr>)
      else if b = 0x84 \<and> d = 0xc0 then (Continue, g\<lparr>g_ip := ip + 2, g_zf := (g_al g = 0)\<rparr>)
      else if b = 0x74 then (Continue, g\<lparr>g_ip := (if g_zf g then ip + 2 + scast d else ip + 2)\<rparr>)
      else if b = 0xe6 then (Out d (g_al g), g\<lparr>g_ip := ip + 2\<rparr>)
      else if b = 0xeb then (Continue, g\<lparr>g_ip := ip + 2 + scast d\<rparr>)
      else if b = 0xf4 then (Halt, g\<lparr>g_ip := ip + 1\<rparr>)
      else (Fault, g))"

text \<open>What the processor leaves the guest for.\<close>

datatype guest_exit = Port_out u8 u8 | Halted

fun guest_run :: "nat \<Rightarrow> (u16 \<Rightarrow> u8) \<Rightarrow> guest \<Rightarrow> guest_exit list option" where
  "guest_run 0 mem g = None"
| "guest_run (Suc n) mem g =
     (case guest_step mem g of
        (Continue, g') \<Rightarrow> guest_run n mem g'
      | (Out p v, g') \<Rightarrow> map_option ((#) (Port_out p v)) (guest_run n mem g')
      | (Halt, g') \<Rightarrow> Some [Halted]
      | (Fault, g') \<Rightarrow> None)"

text \<open>The bytes of the host after \<open>memcpy\<close>, and the registers of a guest as \<open>KVM_SET_REGS\<close> gives
  them: \<open>rax\<close> is the first, \<open>rsi\<close> the fifth, \<open>rip\<close> and \<open>rflags\<close> the last two; the zero flag is bit 6.\<close>

definition copy_in :: "int \<Rightarrow> u8 list \<Rightarrow> (int \<Rightarrow> u8) \<Rightarrow> int \<Rightarrow> u8" where
  "copy_in dst bytes mem a =
     (let k = nat (a - dst) in if dst \<le> a \<and> k < length bytes then bytes ! k else mem a)"

definition guest_of_regs :: "int list \<Rightarrow> guest" where
  "guest_of_regs rs =
     \<lparr>g_ip = word_of_int (rs ! 16), g_si = word_of_int (rs ! 4), g_al = word_of_int (rs ! 0), g_zf = bit (rs ! 17) 6\<rparr>"

text \<open>The memory that \<open>main\<close> prepares, a new mapping and so zero but for the guest program, and the
  registers that \<open>setup_real_mode\<close> loads. That a run of \<open>main\<close> gives the machine just these is
  \<open>setup_loads\<close> below.\<close>

definition guest_memory :: "u16 \<Rightarrow> u8" where
  "guest_memory a = copy_in GUEST_ENTRY guest_code (\<lambda>_. 0) (uint a)"

definition guest_start :: guest where
  "guest_start = guest_of_regs real_mode_regs"

lemma guest_start_at_entry: "guest_start = \<lparr>g_ip = 0x1000, g_si = 0, g_al = 0, g_zf = False\<rparr>"
proof -
  have regs: "real_mode_regs = [0, 0, 0, 0, 0, 0, 0x200000, 0, 0, 0, 0, 0, 0, 0, 0, 0, 0x1000, 2]"
    by (simp add: real_mode_regs_def GUEST_ENTRY_def numeral_eq_Suc)
  show ?thesis unfolding guest_start_def guest_of_regs_def regs by (simp add: bit_numeral_rec)
qed

definition greeting :: string where
  "greeting = ln ''hello from a tiny microVM''"

text \<open>The code and the text, as the guest reads them.\<close>

lemma length_greeting [simp]: "length greeting = 26"
  by (simp add: greeting_def)

lemma guest_code_split: "guest_code =
    [0xbe, 0x0e, 0x10, 0xac, 0x84, 0xc0, 0x74, 0x04, 0xe6, 0xe9, 0xeb, 0xf7, 0xf4, 0x00] @ map of_char greeting @ [0]"
  by (simp add: guest_code_def greeting_def ln_def)

lemma guest_memory_code [simp]:
  "guest_memory 0x1000 = 0xbe" "guest_memory 0x1001 = 0x0e" "guest_memory 0x1002 = 0x10"
  "guest_memory 0x1003 = 0xac" "guest_memory 0x1004 = 0x84" "guest_memory 0x1005 = 0xc0"
  "guest_memory 0x1006 = 0x74" "guest_memory 0x1007 = 0x04" "guest_memory 0x1008 = 0xe6"
  "guest_memory 0x1009 = 0xe9" "guest_memory 0x100A = 0xeb" "guest_memory 0x100B = 0xf7"
  "guest_memory 0x100C = 0xf4"
  by (simp_all add: guest_memory_def copy_in_def guest_code_split GUEST_ENTRY_def)

lemma guest_memory_text:
  assumes "k \<le> 26"
  shows "guest_memory (0x100E + of_nat k) = (map of_char greeting @ [0]) ! k"
proof -
  have u: "uint (0x100E + of_nat k :: u16) = 0x100E + int k"
    using assms by (simp add: uint_word_ariths unsigned_of_nat take_bit_eq_mod)
  have "nat (uint (0x100E + of_nat k :: u16) - GUEST_ENTRY) = 14 + k"
    unfolding u by (simp add: GUEST_ENTRY_def)
  with u assms show ?thesis
    by (simp add: guest_memory_def copy_in_def Let_def guest_code_split GUEST_ENTRY_def nth_append)
qed

lemma greeting_not_0: "k < 26 \<Longrightarrow> (of_char (greeting ! k) :: u8) \<noteq> 0"
proof -
  have "list_all (\<lambda>c. (of_char c :: u8) \<noteq> 0) greeting" by (simp add: greeting_def ln_def)
  then show "k < 26 \<Longrightarrow> (of_char (greeting ! k) :: u8) \<noteq> 0" by (simp add: list_all_length)
qed

lemma jump_back: "scast (0xf7 :: u8) = (0xfff7 :: u16)"
  by code_simp

lemma jump_done: "scast (0x04 :: u8) = (0x0004 :: u16)"
  by code_simp

lemma guest_steps:
  "guest_step guest_memory \<lparr>g_ip = 0x1003, g_si = si, g_al = al, g_zf = zf\<rparr>
    = (Continue, \<lparr>g_ip = 0x1004, g_si = si + 1, g_al = guest_memory si, g_zf = zf\<rparr>)"
  "guest_step guest_memory \<lparr>g_ip = 0x1004, g_si = si, g_al = al, g_zf = zf\<rparr>
    = (Continue, \<lparr>g_ip = 0x1006, g_si = si, g_al = al, g_zf = (al = 0)\<rparr>)"
  "guest_step guest_memory \<lparr>g_ip = 0x1006, g_si = si, g_al = al, g_zf = zf\<rparr>
    = (Continue, \<lparr>g_ip = (if zf then 0x100C else 0x1008), g_si = si, g_al = al, g_zf = zf\<rparr>)"
  "guest_step guest_memory \<lparr>g_ip = 0x1008, g_si = si, g_al = al, g_zf = zf\<rparr>
    = (Out 0xe9 al, \<lparr>g_ip = 0x100A, g_si = si, g_al = al, g_zf = zf\<rparr>)"
  "guest_step guest_memory \<lparr>g_ip = 0x100A, g_si = si, g_al = al, g_zf = zf\<rparr>
    = (Continue, \<lparr>g_ip = 0x1003, g_si = si, g_al = al, g_zf = zf\<rparr>)"
  "guest_step guest_memory \<lparr>g_ip = 0x100C, g_si = si, g_al = al, g_zf = zf\<rparr>
    = (Halt, \<lparr>g_ip = 0x100D, g_si = si, g_al = al, g_zf = zf\<rparr>)"
  by (simp_all add: guest_step_def Let_def jump_back jump_done)

text \<open>One turn of the guest's loop, from its \<open>lodsb\<close>.\<close>

definition at_loop :: "nat \<Rightarrow> u8 \<Rightarrow> bool \<Rightarrow> guest" where
  "at_loop k al zf = \<lparr>g_ip = 0x1003, g_si = 0x100E + of_nat k, g_al = al, g_zf = zf\<rparr>"

lemma guest_turn:
  assumes "k < 26"
  shows "guest_run (Suc (Suc (Suc (Suc (Suc n))))) guest_memory (at_loop k al zf) =
    map_option ((#) (Port_out 0xe9 (of_char (greeting ! k))))
      (guest_run n guest_memory (at_loop (Suc k) (of_char (greeting ! k)) False))"
proof -
  have "guest_memory (0x100E + of_nat k) = of_char (greeting ! k)"
    using assms guest_memory_text [of k] by (simp add: nth_append)
  with greeting_not_0 [OF assms] show ?thesis
    by (simp add: guest_steps at_loop_def add.assoc add.commute [of 1])
qed

lemma guest_last_turn: "guest_run (Suc (Suc (Suc (Suc 0)))) guest_memory (at_loop 26 al zf) = Some [Halted]"
proof -
  have "guest_memory (0x100E + of_nat 26) = 0"
    using guest_memory_text [of 26] by (simp add: nth_append)
  then show ?thesis by (simp add: guest_steps at_loop_def)
qed

lemma guest_from_loop:
  "k + m = 26 \<Longrightarrow> guest_run (5 * m + 4) guest_memory (at_loop k al zf)
    = Some (map (\<lambda>c. Port_out 0xe9 (of_char c)) (drop k greeting) @ [Halted])"
proof (induction m arbitrary: k al zf)
  case 0
  then have k: "k = 26" "5 * 0 + 4 = Suc (Suc (Suc (Suc 0)))" by simp_all
  show ?case unfolding k guest_last_turn by simp
next
  case (Suc m)
  then have k: "k < 26" "Suc k + m = 26" by simp_all
  have fuel: "5 * Suc m + 4 = Suc (Suc (Suc (Suc (Suc (5 * m + 4)))))" by simp
  have "drop k greeting = greeting ! k # drop (Suc k) greeting" using k(1) by (simp add: Cons_nth_drop_Suc)
  then show ?case unfolding fuel guest_turn [OF k(1)] Suc.IH [OF k(2)] by simp
qed

lemma guest_greets: "guest_run 135 guest_memory guest_start
    = Some (map (\<lambda>c. Port_out 0xe9 (of_char c)) greeting @ [Halted])"
proof -
  have "guest_step guest_memory guest_start = (Continue, at_loop 0 0 False)"
    by (simp add: guest_step_def guest_start_at_entry at_loop_def Let_def)
  then have "guest_run (Suc (5 * 26 + 4)) guest_memory guest_start
      = guest_run (5 * 26 + 4) guest_memory (at_loop 0 0 False)"
    by (simp only: guest_run.simps prod.case guest_effect.case)
  with guest_from_loop [of 0 26 0 False] show ?thesis by simp
qed

subsection \<open>The monitor and the guest\<close>

text \<open>The reply that reports an exit of the guest.\<close>

fun reports :: "guest_exit \<Rightarrow> reply \<Rightarrow> bool" where
  "reports (Port_out p v) r \<longleftrightarrow> num r 0 = KVM_EXIT_IO \<and> num r 1 = KVM_EXIT_IO_OUT \<and> num r 2 = 1
     \<and> num r 3 = uint p \<and> num r 4 = 1 \<and> (\<exists>rest. rp_text r = char_of (unat v) # rest)"
| "reports Halted r \<longleftrightarrow> num r 0 = KVM_EXIT_HLT"

text \<open>The system runs the guest: \<open>KVM_RUN\<close> is interrupted, or reports the next exit; and it is
  interrupted at most \<open>n\<close> times.\<close>

definition runs_guest :: "int \<Rightarrow> guest_exit list \<Rightarrow> (event list \<Rightarrow> linux_call \<Rightarrow> reply) \<Rightarrow> bool" where
  "runs_guest fd exits answer \<longleftrightarrow>
     (\<forall>l. length (vm_exits fd l) < length exits \<longrightarrow>
        (let r = answer l (Sys_ioctl fd ''KVM_RUN'' [0]) in
         if succeeds r then reports (exits ! length (vm_exits fd l)) r else rp_errno r = EINTR))"

definition interrupted :: "int \<Rightarrow> event \<Rightarrow> bool" where
  "interrupted fd = (\<lambda>(c, r). c = Sys_ioctl fd ''KVM_RUN'' [0] \<and> rp_value r < 0)"

lemma interrupted_pair [simp]:
  "interrupted fd (c, r) \<longleftrightarrow> c = Sys_ioctl fd ''KVM_RUN'' [0] \<and> rp_value r < 0"
  by (simp add: interrupted_def)

definition kvm_patient :: "nat \<Rightarrow> int \<Rightarrow> (event list \<Rightarrow> linux_call \<Rightarrow> reply) \<Rightarrow> bool" where
  "kvm_patient n fd answer \<longleftrightarrow>
     (\<forall>l. n \<le> length (filter (interrupted fd) l) \<longrightarrow> succeeds (answer l (Sys_ioctl fd ''KVM_RUN'' [0])))"

lemma seq_step: "m s = Some (Value x, s') \<Longrightarrow> seq m f s = f x s'"
  by (simp add: seq_def)

lemma call_step:
  "call c s = Some (Value (os s (log s) c), after s c (os s (log s) c))"
  "ignore c s = Some (Value (), after s c (os s (log s) c))"
  by (simp_all add: ignore_def seq_def call_def ret_def after_def Let_def)

text \<open>A round, on each of the three replies.\<close>

lemma vm_round_interrupted:
  assumes "os s (log s) (Sys_ioctl fd ''KVM_RUN'' [0]) = r" "rp_value r < 0" "rp_errno r = EINTR"
  shows "vm_round fd x s = Some (Value (Inl ()), after s (Sys_ioctl fd ''KVM_RUN'' [0]) r)"
  using assms unfolding vm_round_def
  by (simp add: seq_step [OF call_step(1)] seq_step [of get_errno] get_errno_def ret_def)

lemma vm_round_out:
  assumes "os s (log s) (Sys_ioctl fd ''KVM_RUN'' [0]) = r" "succeeds r" "reports (Port_out 0xe9 v) r"
  shows "\<exists>s' E. vm_round fd x s = Some (Value (Inl ()), s') \<and> os s' = os s
    \<and> log s' = log s @ (Sys_ioctl fd ''KVM_RUN'' [0], r) # E
    \<and> printed E = [char_of (unat v)] \<and> vm_exits fd E = [] \<and> filter (interrupted fd) E = []"
proof -
  from assms(3) obtain rest where r: "num r 0 = KVM_EXIT_IO" "num r 1 = KVM_EXIT_IO_OUT" "num r 2 = 1"
    "num r 3 = DEBUG_PORT" "num r 4 = 1" "rp_text r = char_of (unat v) # rest"
    by (auto simp: DEBUG_PORT_def)
  let ?s1 = "after s (Sys_ioctl fd ''KVM_RUN'' [0]) r"
  let ?s2 = "after ?s1 (Stdout [Txt [char_of (unat v)]]) (os s (log ?s1) (Stdout [Txt [char_of (unat v)]]))"
  let ?s3 = "after ?s2 Lib_fflush (os s (log ?s2) Lib_fflush)"
  have "put_bytes (take (nat (num r 4)) (rp_text r)) ?s1 = Some (Value (), ?s2)"
    by (simp add: r seq_step [OF call_step(2)] ret_def)
  then have "handle_io_exit r ?s1 = Some (Value (), ?s3)"
    by (simp add: handle_io_exit_def r(1-4) seq_step call_step del: One_nat_def)
  with assms(1, 2) r(1) have "vm_round fd x s = Some (Value (Inl ()), ?s3)"
    unfolding vm_round_def by (simp add: seq_step [OF call_step(1)] seq_step ret_def)
  then show ?thesis by (intro exI [of _ ?s3] exI) auto
qed

lemma vm_round_halt:
  assumes "os s (log s) (Sys_ioctl fd ''KVM_RUN'' [0]) = r" "succeeds r" "reports Halted r"
  shows "\<exists>s' E. vm_round fd x s = Some (Value (Inr True), s')
    \<and> log s' = log s @ E \<and> printed E = ln ''host VMM: guest halted''"
proof -
  let ?s1 = "after s (Sys_ioctl fd ''KVM_RUN'' [0]) r"
  let ?c = "Stdout [Txt (ln ''host VMM: guest halted'')]"
  have "vm_round fd x s = Some (Value (Inr True), after ?s1 ?c (os s (log ?s1) ?c))"
    using assms unfolding vm_round_def
    by (simp add: seq_step [OF call_step(1)] seq_step [OF call_step(2)] ret_def exit_defs)
  then show ?thesis by (intro exI) auto
qed

text \<open>The whole run, by induction on the exits and interruptions that are left.\<close>

lemma run_vcpu_guest:
  assumes serves: "runs_guest fd exits answer" and patient: "kvm_patient n fd answer"
    and exits: "exits = map (Port_out 0xe9) bs @ [Halted]"
  shows "os s = answer \<Longrightarrow> length (vm_exits fd (log s)) \<le> length bs
    \<Longrightarrow> \<exists>s' E. run_vcpu fd s = Some (Value True, s') \<and> log s' = log s @ E
      \<and> printed E = map (\<lambda>v. char_of (unat v)) (drop (length (vm_exits fd (log s))) bs)
          @ ln ''host VMM: guest halted''"
proof (induction "(length bs - length (vm_exits fd (log s))) + (n - length (filter (interrupted fd) (log s)))"
    arbitrary: s rule: less_induct)
  case less
  let ?run = "Sys_ioctl fd ''KVM_RUN'' [0]" and ?k = "length (vm_exits fd (log s))"
  let ?r = "answer (log s) ?run"
  have r: "os s (log s) ?run = ?r" using less.prems(1) by simp
  have k: "?k < length exits" using less.prems(2) exits by simp
  have served: "if succeeds ?r then reports (exits ! ?k) ?r else rp_errno ?r = EINTR"
    using serves k by (auto simp: runs_guest_def Let_def)
  consider (intr) "rp_value ?r < 0" | (out) "succeeds ?r" "?k < length bs" | (halt) "succeeds ?r" "?k = length bs"
    using less.prems(2) by linarith
  then show ?case
  proof cases
    case intr
    let ?s' = "after s ?run ?r"
    have "length (filter (interrupted fd) (log s)) < n"
      using patient [unfolded kvm_patient_def, rule_format, of "log s"] intr by (meson not_less)
    moreover have "vm_round fd () s = Some (Value (Inl ()), ?s')"
      using vm_round_interrupted [OF r intr] served intr by simp
    moreover have "\<exists>s'' E. run_vcpu fd ?s' = Some (Value True, s'') \<and> log s'' = log ?s' @ E
        \<and> printed E = map (\<lambda>v. char_of (unat v)) (drop (length (vm_exits fd (log ?s'))) bs)
          @ ln ''host VMM: guest halted''"
      using less.prems intr calculation(1) by (intro less.hyps) simp_all
    then obtain s'' E where "run_vcpu fd ?s' = Some (Value True, s'')" "log s'' = log ?s' @ E"
      "printed E = map (\<lambda>v. char_of (unat v)) (drop (length (vm_exits fd (log ?s'))) bs)
          @ ln ''host VMM: guest halted''" by blast
    ultimately show ?thesis
      using intr by (intro exI [of _ s''] exI [of _ "(?run, ?r) # E"]) (simp add: run_vcpu_def loop.simps [of _ _ s])
  next
    case out
    then have "reports (Port_out 0xe9 (bs ! ?k)) ?r" using served exits by (simp add: nth_append)
    from vm_round_out [OF r out(1) this] obtain s' E
      where run: "vm_round fd () s = Some (Value (Inl ()), s')" and s': "os s' = os s"
        "log s' = log s @ (?run, ?r) # E" "printed E = [char_of (unat (bs ! ?k))]" "vm_exits fd E = []"
        "filter (interrupted fd) E = []" by blast
    have k': "length (vm_exits fd (log s')) = Suc ?k" using s' out by simp
    have "\<exists>s'' E. run_vcpu fd s' = Some (Value True, s'') \<and> log s'' = log s' @ E
        \<and> printed E = map (\<lambda>v. char_of (unat v)) (drop (length (vm_exits fd (log s'))) bs)
          @ ln ''host VMM: guest halted''"
      using less.prems out s' k' by (intro less.hyps) simp_all
    then obtain s'' E' where rest:
      "run_vcpu fd s' = Some (Value True, s'')" "log s'' = log s' @ E'"
      "printed E' = map (\<lambda>v. char_of (unat v)) (drop (Suc ?k) bs) @ ln ''host VMM: guest halted''"
      unfolding k' by blast
    have "run_vcpu fd s = Some (Value True, s'')"
      using run rest(1) by (simp add: run_vcpu_def loop.simps [of _ _ s])
    moreover have "drop ?k bs = bs ! ?k # drop (Suc ?k) bs" using out by (simp add: Cons_nth_drop_Suc)
    ultimately show ?thesis using s'(2, 3) rest(2, 3) by auto
  next
    case halt
    then have "reports Halted ?r" using served exits by (simp add: nth_append)
    from vm_round_halt [OF r halt(1) this] obtain s' E where
      "vm_round fd () s = Some (Value (Inr True), s')" "log s' = log s @ E"
      "printed E = ln ''host VMM: guest halted''" by blast
    with halt show ?thesis by (auto simp: run_vcpu_def loop.simps [of _ _ s])
  qed
qed

subsection \<open>The program\<close>

text \<open>What happens around the run of the machine, call by call.\<close>

definition microvm_setup :: "int \<Rightarrow> int \<Rightarrow> int \<Rightarrow> int \<Rightarrow> int \<Rightarrow> int \<Rightarrow> int \<Rightarrow> int list \<Rightarrow> (linux_call \<times> (reply \<Rightarrow> bool)) list" where
  "microvm_setup kvm_run_size kvm vm mem vcpu len area sregs =
     [(Sys_open ''/dev/kvm'' [''O_RDWR'', ''O_CLOEXEC''], \<lambda>r. rp_value r = kvm \<and> 0 \<le> kvm),
      (Sys_ioctl kvm ''KVM_GET_API_VERSION'' [0], \<lambda>r. rp_value r = KVM_API_VERSION),
      (Sys_ioctl kvm ''KVM_CREATE_VM'' [0], \<lambda>r. rp_value r = vm \<and> 0 \<le> vm),
      (Sys_mmap GUEST_MEM_SIZE [''PROT_READ'', ''PROT_WRITE'', ''MAP_PRIVATE'', ''MAP_ANONYMOUS'', ''MAP_NORESERVE''] (- 1),
         \<lambda>r. rp_value r = mem \<and> mem \<noteq> - 1),
      (Lib_memcpy (mem + GUEST_ENTRY) guest_code, anything),
      (Sys_ioctl vm ''KVM_SET_USER_MEMORY_REGION'' [0, 0, 0, GUEST_MEM_SIZE, mem], succeeds),
      (Sys_ioctl vm ''KVM_CREATE_VCPU'' [0], \<lambda>r. rp_value r = vcpu \<and> 0 \<le> vcpu),
      (Sys_ioctl kvm ''KVM_GET_VCPU_MMAP_SIZE'' [0], \<lambda>r. rp_value r = len \<and> kvm_run_size \<le> len),
      (Sys_mmap len [''PROT_READ'', ''PROT_WRITE'', ''MAP_SHARED''] vcpu, \<lambda>r. rp_value r = area \<and> area \<noteq> - 1),
      (Sys_ioctl vcpu ''KVM_GET_SREGS'' [], \<lambda>r. succeeds r \<and> drop 8 (rp_nums r) = sregs),
      (Sys_ioctl vcpu ''KVM_SET_SREGS'' (replicate 8 0 @ sregs), succeeds),
      (Sys_ioctl vcpu ''KVM_SET_REGS'' real_mode_regs, succeeds),
      (Stdout [Txt (ln ''host VMM: starting vCPU'')], anything)]"

definition microvm_teardown :: "int \<Rightarrow> int \<Rightarrow> int \<Rightarrow> int \<Rightarrow> int \<Rightarrow> int \<Rightarrow> (linux_call \<times> (reply \<Rightarrow> bool)) list" where
  "microvm_teardown kvm vm mem vcpu len area =
     [(Sys_munmap area len, anything), (Sys_munmap mem GUEST_MEM_SIZE, anything),
      (Sys_close vcpu, anything), (Sys_close vm, anything), (Sys_close kvm, anything)]"

definition microvm_ran :: "int \<Rightarrow> bool \<Rightarrow> event list \<Rightarrow> bool" where
  "microvm_ran kvm_run_size ok l \<longleftrightarrow>
     (\<exists>kvm vm mem vcpu len area sregs P R D. l = P @ R @ D
        \<and> performs (microvm_setup kvm_run_size kvm vm mem vcpu len area sregs) P
        \<and> vm_outcome vcpu (Value ok) R
        \<and> performs (microvm_teardown kvm vm mem vcpu len area) D)"

text \<open>What a log says of the machine: the bytes of the host that copies have left over new mappings, and
  the registers last set.\<close>

fun host_memory :: "event list \<Rightarrow> (int \<Rightarrow> u8) \<Rightarrow> int \<Rightarrow> u8" where
  "host_memory [] mem = mem"
| "host_memory ((Lib_memcpy dst bytes, r) # l) mem = host_memory l (copy_in dst bytes mem)"
| "host_memory (e # l) mem = host_memory l mem"

fun vcpu_regs :: "int \<Rightarrow> event list \<Rightarrow> int list \<Rightarrow> int list" where
  "vcpu_regs fd [] regs = regs"
| "vcpu_regs fd ((Sys_ioctl fd' request args, r) # l) regs =
     vcpu_regs fd l (if fd' = fd \<and> request = ''KVM_SET_REGS'' \<and> succeeds r then args else regs)"
| "vcpu_regs fd (e # l) regs = vcpu_regs fd l regs"

text \<open>At its first run the machine has, from guest address 0 on, the mapping that \<open>main\<close> made, and in
  it the guest program at its entry, where the registers start it.\<close>

definition guest_loaded :: "int \<Rightarrow> event list \<Rightarrow> bool" where
  "guest_loaded vcpu l \<longleftrightarrow>
     (\<exists>vm mem pre post r. l = pre @ post \<and> vm_exits vcpu pre = []
        \<and> (Sys_ioctl vm ''KVM_SET_USER_MEMORY_REGION'' [0, 0, 0, GUEST_MEM_SIZE, mem], r) \<in> set pre \<and> succeeds r
        \<and> (\<lambda>a. host_memory pre (\<lambda>_. 0) (mem + uint a)) = guest_memory
        \<and> guest_of_regs (vcpu_regs vcpu pre []) = guest_start)"

lemma setup_loads:
  assumes P: "performs (microvm_setup kvm_run_size kvm vm mem vcpu len area sregs) P"
  shows "guest_loaded vcpu (P @ R)"
proof -
  have "vm_exits vcpu P = []"
    "\<exists>r. (Sys_ioctl vm ''KVM_SET_USER_MEMORY_REGION'' [0, 0, 0, GUEST_MEM_SIZE, mem], r) \<in> set P \<and> succeeds r"
    "vcpu_regs vcpu P [] = real_mode_regs"
    using P by (auto simp: microvm_setup_def)
  moreover have "host_memory P (\<lambda>_. 0) = copy_in (mem + GUEST_ENTRY) guest_code (\<lambda>_. 0)"
    using P by (auto simp: microvm_setup_def)
  moreover have "(\<lambda>a. copy_in (mem + GUEST_ENTRY) guest_code (\<lambda>_. 0) (mem + uint a)) = guest_memory"
    by (auto simp: fun_eq_iff guest_memory_def copy_in_def Let_def algebra_simps)
  ultimately show ?thesis
    unfolding guest_loaded_def guest_start_def by metis
qed

text \<open>The machine was never started, since the version or the size of the run area is wrong or a call
  was refused.\<close>

definition never_ran :: "int \<Rightarrow> event list \<Rightarrow> bool" where
  "never_ran kvm_run_size l \<longleftrightarrow> (\<forall>fd. vm_exits fd l = []) \<and>
     list_ex (\<lambda>(c, r). refused (c, r)
       \<or> (\<exists>fd. c = Sys_ioctl fd ''KVM_GET_API_VERSION'' [0] \<and> rp_value r \<noteq> KVM_API_VERSION)
       \<or> (\<exists>fd. c = Sys_ioctl fd ''KVM_GET_VCPU_MMAP_SIZE'' [0] \<and> rp_value r < kvm_run_size)) l"

text \<open>The program gave up with a message.\<close>

definition gave_up :: "event list \<Rightarrow> bool" where
  "gave_up l \<longleftrightarrow> list_ex refused l \<or> (\<exists>fd. bad_exit fd l)"

lemma emits_run_vcpu:
  assumes "\<And>e E'. list_ex refused E' \<or> bad_exit fd E' \<Longrightarrow> Q (Exited 1) e (E @ E')"
    and "\<And>e E'. vm_outcome fd (Value True) E' \<Longrightarrow> Q (Value True) e (E @ E')"
    and "\<And>e E'. vm_outcome fd (Value False) E' \<Longrightarrow> Q (Value False) e (E @ E')"
  shows "emits (run_vcpu fd) Q e E"
proof (rule emits_adds [OF run_vcpu_adds])
  fix r e E'
  assume r: "vm_outcome fd r E'"
  then have "r = Exited 1 \<and> (list_ex refused E' \<or> bad_exit fd E') \<or> r = Value True \<or> r = Value False"
    by (cases r) (auto simp: vm_outcome_def)
  with r assms show "Q r e (E @ E')" by auto
qed

lemma microvm_ran_list:
  assumes "vm_outcome (rp_value g) (Value ok) R"
    and "succeeds a" "rp_value b = KVM_API_VERSION" "succeeds c" "rp_value d \<noteq> - 1" "succeeds f" "succeeds g"
      "kvm_run_size \<le> rp_value h" "rp_value i \<noteq> - 1" "succeeds j" "succeeds k" "succeeds l"
  shows "microvm_ran kvm_run_size ok
     ((Sys_open ''/dev/kvm'' [''O_RDWR'', ''O_CLOEXEC''], a)
      # (Sys_ioctl (rp_value a) ''KVM_GET_API_VERSION'' [0], b)
      # (Sys_ioctl (rp_value a) ''KVM_CREATE_VM'' [0], c)
      # (Sys_mmap GUEST_MEM_SIZE [''PROT_READ'', ''PROT_WRITE'', ''MAP_PRIVATE'', ''MAP_ANONYMOUS'', ''MAP_NORESERVE''] (- 1), d)
      # (Lib_memcpy (rp_value d + GUEST_ENTRY) guest_code, e)
      # (Sys_ioctl (rp_value c) ''KVM_SET_USER_MEMORY_REGION'' [0, 0, 0, GUEST_MEM_SIZE, rp_value d], f)
      # (Sys_ioctl (rp_value c) ''KVM_CREATE_VCPU'' [0], g)
      # (Sys_ioctl (rp_value a) ''KVM_GET_VCPU_MMAP_SIZE'' [0], h)
      # (Sys_mmap (rp_value h) [''PROT_READ'', ''PROT_WRITE'', ''MAP_SHARED''] (rp_value g), i)
      # (Sys_ioctl (rp_value g) ''KVM_GET_SREGS'' [], j)
      # (Sys_ioctl (rp_value g) ''KVM_SET_SREGS'' (replicate 8 0 @ drop 8 (rp_nums j)), k)
      # (Sys_ioctl (rp_value g) ''KVM_SET_REGS'' real_mode_regs, l)
      # (Stdout [Txt (ln ''host VMM: starting vCPU'')], m)
      # R @ [(Sys_munmap (rp_value i) (rp_value h), n), (Sys_munmap (rp_value d) GUEST_MEM_SIZE, p),
             (Sys_close (rp_value g), q), (Sys_close (rp_value c), u), (Sys_close (rp_value a), v)])"
    (is "microvm_ran _ _ (?e1 # ?e2 # ?e3 # ?e4 # ?e5 # ?e6 # ?e7 # ?e8 # ?e9 # ?e10 # ?e11 # ?e12 # ?e13 # R @ ?D)")
proof -
  let ?P = "[?e1, ?e2, ?e3, ?e4, ?e5, ?e6, ?e7, ?e8, ?e9, ?e10, ?e11, ?e12, ?e13]"
  have "performs (microvm_setup kvm_run_size (rp_value a) (rp_value c) (rp_value d) (rp_value g) (rp_value h)
      (rp_value i) (drop 8 (rp_nums j))) ?P"
    unfolding microvm_setup_def using assms(2-) by simp
  moreover have "performs (microvm_teardown (rp_value a) (rp_value c) (rp_value d) (rp_value g) (rp_value h)
      (rp_value i)) ?D"
    unfolding microvm_teardown_def by simp
  ultimately have "microvm_ran kvm_run_size ok (?P @ R @ ?D)"
    unfolding microvm_ran_def using assms(1) by blast
  then show ?thesis by simp
qed

lemma microvm_main_adds:
  "adds (microvm_main kvm_run_size) (\<lambda>r E. r = Exited 1 \<and> gave_up E \<or> r = Value 1 \<and> never_ran kvm_run_size E
     \<or> (\<exists>ok. r = Value (if ok then 0 else 1) \<and> microvm_ran kvm_run_size ok E))"
  unfolding microvm_main_def setup_real_mode_def kvm_ioctl_def open_kvm_device_def explain_open_kvm_error_def
    version_mismatch_def Let_def
  by (rule adds_emits, intro emits_intros emits_run_vcpu)
     (auto simp: never_ran_def gave_up_def bad_exit_def ex_bool_eq microvm_ran_list not_less)

subsection \<open>The program and its guest\<close>

text \<open>While no exit has been taken, the system has the whole guest before it.\<close>

definition fresh :: "(event list \<Rightarrow> linux_call \<Rightarrow> reply) \<Rightarrow> proc \<Rightarrow> bool" where
  "fresh answer s \<longleftrightarrow> os s = answer \<and> (\<forall>fd. vm_exits fd (log s) = [])"

definition ends_fresh :: "(event list \<Rightarrow> linux_call \<Rightarrow> reply) \<Rightarrow> 'a prog \<Rightarrow> bool" where
  "ends_fresh answer m \<longleftrightarrow> (\<forall>s. fresh answer s \<longrightarrow> finishes m s)"

definition stays_fresh :: "(event list \<Rightarrow> linux_call \<Rightarrow> reply) \<Rightarrow> 'a prog \<Rightarrow> bool" where
  "stays_fresh answer m \<longleftrightarrow> (\<forall>s r s'. fresh answer s \<longrightarrow> m s = Some (r, s') \<longrightarrow> fresh answer s')"

lemma ends_fresh_seq:
  assumes "\<And>s. finishes m s" "stays_fresh answer m" "\<And>x. ends_fresh answer (f x)"
  shows "ends_fresh answer (seq m f)"
  unfolding ends_fresh_def
proof (intro allI impI)
  fix s
  assume s: "fresh answer s"
  obtain r s1 where m: "m s = Some (r, s1)" using assms(1) [of s] by (auto simp: finishes_def)
  with s assms(2) have "fresh answer s1" by (auto simp: stays_fresh_def)
  with assms(3) have "finishes (f x) s1" for x by (simp add: ends_fresh_def)
  with m show "finishes (seq m f) s" by (cases r) (simp_all add: seq_def finishes_def)
qed

lemma ends_fresh_last:
  assumes "ends_fresh answer m" "\<And>x s. finishes (f x) s"
  shows "ends_fresh answer (seq m f)"
  unfolding ends_fresh_def
proof (intro allI impI)
  fix s
  assume "fresh answer s"
  with assms(1) obtain r s1 where m: "m s = Some (r, s1)" by (auto simp: ends_fresh_def finishes_def)
  with assms(2) [of _ s1] show "finishes (seq m f) s" by (cases r) (simp_all add: seq_def finishes_def)
qed

lemma ends_fresh_finishes: "(\<And>s. finishes m s) \<Longrightarrow> ends_fresh answer m"
  by (simp add: ends_fresh_def)

lemma ends_fresh_if: "ends_fresh answer m \<Longrightarrow> ends_fresh answer m' \<Longrightarrow> ends_fresh answer (if b then m else m')"
  by simp

lemma stays_fresh_seq:
  assumes "stays_fresh answer m" "\<And>x. stays_fresh answer (f x)"
  shows "stays_fresh answer (seq m f)"
  unfolding stays_fresh_def
proof (intro allI impI)
  fix s r s'
  assume s: "fresh answer s" and run: "seq m f s = Some (r, s')"
  then obtain r1 s1 where m: "m s = Some (r1, s1)" by (auto simp: seq_def split: option.splits)
  with s assms(1) have s1: "fresh answer s1" by (auto simp: stays_fresh_def)
  show "fresh answer s'"
  proof (cases r1)
    case (Value x)
    with run m have "f x s1 = Some (r, s')" by (simp add: seq_def)
    with s1 assms(2) [of x] show ?thesis by (auto simp: stays_fresh_def)
  qed (use run m s1 in \<open>auto simp: seq_def\<close>)
qed

lemma stays_fresh_if: "stays_fresh answer m \<Longrightarrow> stays_fresh answer m' \<Longrightarrow> stays_fresh answer (if b then m else m')"
  by simp

lemma stays_fresh_call:
  "(\<And>fd. c \<noteq> Sys_ioctl fd ''KVM_RUN'' [0]) \<Longrightarrow> stays_fresh answer (call c)"
  "(\<And>fd. c \<noteq> Sys_ioctl fd ''KVM_RUN'' [0]) \<Longrightarrow> stays_fresh answer (sys c)"
  "(\<And>fd. c \<noteq> Sys_ioctl fd ''KVM_RUN'' [0]) \<Longrightarrow> stays_fresh answer (ignore c)"
  by (auto simp: stays_fresh_def fresh_def call_def sys_def ignore_def seq_def ret_def Let_def)

lemma stays_fresh_basic:
  "stays_fresh answer (ret x)" "stays_fresh answer (exit_with c)" "stays_fresh answer get_errno"
  by (auto simp: stays_fresh_def fresh_def ret_def exit_with_def get_errno_def)

lemma stays_fresh_die: "stays_fresh answer (die msg)"
  unfolding die_def perror_def by (intro stays_fresh_seq stays_fresh_call stays_fresh_basic) simp

definition guest_exits :: "guest_exit list" where
  "guest_exits = map (\<lambda>c. Port_out 0xe9 (of_char c)) greeting @ [Halted]"

lemma run_vcpu_ends:
  assumes "runs_guest fd guest_exits answer" "kvm_patient n fd answer"
  shows "ends_fresh answer (run_vcpu fd)"
  unfolding ends_fresh_def finishes_def
proof (intro allI impI)
  fix s
  assume "fresh answer s"
  then have "os s = answer" "length (vm_exits fd (log s)) \<le> length (map of_char greeting :: u8 list)"
    by (simp_all add: fresh_def)
  from run_vcpu_guest [OF assms _ this]
  show "\<exists>r s'. run_vcpu fd s = Some (r, s')" by (auto simp: guest_exits_def)
qed

lemma microvm_main_ends:
  assumes "\<And>fd. runs_guest fd guest_exits answer" "\<And>fd. kvm_patient n fd answer"
  shows "ends_fresh answer (microvm_main kvm_run_size)"
  unfolding microvm_main_def setup_real_mode_def kvm_ioctl_def open_kvm_device_def explain_open_kvm_error_def
    version_mismatch_def Let_def
  by (intro ends_fresh_if ends_fresh_last [OF run_vcpu_ends [OF assms]] ends_fresh_seq stays_fresh_seq stays_fresh_if stays_fresh_call
      stays_fresh_basic stays_fresh_die; (intro ends_fresh_finishes)?; (intro finishes_intros)?; simp?)

text \<open>The reports that a genuine log contains are the guest's, in order.\<close>

lemma genuine_exits:
  assumes "genuine s'" "os s' = answer" "runs_guest fd exits answer" "i < length exits"
    "i < length (vm_exits fd (log s'))"
  shows "reports (exits ! i) (vm_exits fd (log s') ! i)"
proof -
  have "\<exists>k. k < length l \<and> i = length (vm_exits fd (take k l)) \<and> l ! k = (Sys_ioctl fd ''KVM_RUN'' [0], vm_exits fd l ! i)
      \<and> succeeds (vm_exits fd l ! i)" if "i < length (vm_exits fd l)" for l
    using that
  proof (induction l rule: rev_induct)
    case (snoc e l)
    show ?case
    proof (cases "i < length (vm_exits fd l)")
      case True
      with snoc.IH show ?thesis by (fastforce simp: nth_append)
    next
      case False
      with snoc.prems have "i = length (vm_exits fd l)" "\<exists>r. e = (Sys_ioctl fd ''KVM_RUN'' [0], r) \<and> succeeds r"
        by (cases e; auto split: if_splits)+
      then show ?thesis by (intro exI [of _ "length l"]) (auto simp: nth_append)
    qed
  qed simp
  from this [OF assms(5)] obtain k where k: "k < length (log s')" "i = length (vm_exits fd (take k (log s')))"
    "log s' ! k = (Sys_ioctl fd ''KVM_RUN'' [0], vm_exits fd (log s') ! i)" "succeeds (vm_exits fd (log s') ! i)"
    by blast
  with assms(1, 2) have "vm_exits fd (log s') ! i = answer (take k (log s')) (Sys_ioctl fd ''KVM_RUN'' [0])"
    by (auto simp: genuine_def)
  with assms(3, 4) k show ?thesis by (auto simp: runs_guest_def Let_def)
qed

lemma performs_no_exits:
  "performs (microvm_setup n kvm vm mem vcpu len area sregs) P \<Longrightarrow> vm_exits fd P = []"
  "performs (microvm_teardown kvm vm mem vcpu len area) D \<Longrightarrow> vm_exits fd D = []"
  by (auto simp: microvm_setup_def microvm_teardown_def)

lemma char_of_byte: "char_of (unat (of_char c :: u8)) = c"
proof -
  have "unat (of_nat (of_char c) :: u8) = of_char c"
    using nat_of_char_less_256 [of c] by (simp add: unat_of_nat)
  then show ?thesis by (simp add: of_nat_of_char)
qed

lemma guest_outs_bounded:
  assumes "vm_exits fd R = outs @ [x]" "list_all debug_write outs"
    and "\<And>i. i < length guest_exits \<Longrightarrow> i < length (vm_exits fd R) \<Longrightarrow> reports (guest_exits ! i) (vm_exits fd R ! i)"
  shows "\<not> 26 < length outs"
proof
  assume "26 < length outs"
  with assms(1) assms(3) [of 26] have "reports Halted (outs ! 26)" by (simp add: nth_append guest_exits_def)
  with assms(2) \<open>26 < length outs\<close> show False by (auto simp: list_all_length debug_write_def exit_defs)
qed

text \<open>A run of the guest prints the greeting, and the guest halts.\<close>

lemma guest_outcome:
  assumes out: "vm_outcome fd (Value ok) R"
    and reported: "\<And>i. i < length guest_exits \<Longrightarrow> i < length (vm_exits fd R) \<Longrightarrow> reports (guest_exits ! i) (vm_exits fd R ! i)"
  shows "ok \<and> printed R = greeting @ ln ''host VMM: guest halted''"
proof -
  from out obtain outs final where xs: "vm_exits fd R = outs @ [final]" "list_all debug_write outs"
    "num final 0 \<noteq> KVM_EXIT_IO" "ok \<longleftrightarrow> num final 0 = KVM_EXIT_HLT"
    "printed R = concat (map debug_bytes outs) @ (if ok then ln ''host VMM: guest halted'' else [])"
    by (auto simp: vm_outcome_def)
  have out_i: "guest_exits ! i = Port_out 0xe9 (of_char (greeting ! i))" if "i < 26" for i
    using that by (simp add: guest_exits_def nth_append)
  have halt_i: "guest_exits ! 26 = Halted" "length guest_exits = 27"
    by (simp_all add: guest_exits_def nth_append)
  have "\<not> 26 < length outs" by (rule guest_outs_bounded [OF xs(1, 2) reported])
  moreover have "\<not> length outs < 26"
  proof
    assume "length outs < 26"
    with reported [of "length outs"] xs(1) halt_i out_i
    have "reports (Port_out 0xe9 (of_char (greeting ! length outs))) final" by (simp add: nth_append)
    with xs(3) show False by simp
  qed
  ultimately have len: "length outs = 26" by simp
  with reported [of 26] xs(1) halt_i have ok: "ok" by (simp add: nth_append xs(4))
  have "map debug_bytes outs = map (\<lambda>c. [c]) greeting"
  proof (rule nth_equalityI)
    fix i
    assume "i < length (map debug_bytes outs)"
    with len reported [of i] xs(1) halt_i(2) out_i [of i]
    show "map debug_bytes outs ! i = map (\<lambda>c. [c]) greeting ! i"
      by (auto simp: nth_append debug_bytes_def char_of_byte)
  qed (simp add: len)
  then have "concat (map debug_bytes outs) = greeting" by simp
  with ok xs(5) show ?thesis by simp
qed

lemma guest_exits_served:
  assumes "bad_exit fd R"
    and reported: "\<And>i. i < length guest_exits \<Longrightarrow> i < length (vm_exits fd R) \<Longrightarrow> reports (guest_exits ! i) (vm_exits fd R ! i)"
  shows False
proof -
  from assms(1) obtain outs bad where xs: "vm_exits fd R = outs @ [bad]" "list_all debug_write outs"
    "num bad 0 = KVM_EXIT_IO" "\<not> debug_write bad"
    unfolding bad_exit_def by blast
  have "\<not> 26 < length outs" by (rule guest_outs_bounded [OF xs(1, 2) reported])
  then have "length outs < length guest_exits" by (simp add: guest_exits_def)
  with reported [of "length outs"] xs(1) have "reports (guest_exits ! length outs) bad" by simp
  moreover have "guest_exits ! length outs = Port_out 0xe9 (of_char (greeting ! length outs)) \<or> guest_exits ! length outs = Halted"
    using \<open>\<not> 26 < length outs\<close> by (auto simp: guest_exits_def nth_append)
  ultimately show False using xs(3, 4) by (auto simp: debug_write_def exit_defs DEBUG_PORT_def)
qed

lemma put_bytes_lawful: "lawful (put_bytes cs)"
  by (induction cs) (auto intro: lawful_intros)

lemma microvm_main_lawful: "lawful (microvm_main kvm_run_size)"
  unfolding microvm_main_def setup_real_mode_def kvm_ioctl_def open_kvm_device_def explain_open_kvm_error_def
    version_mismatch_def run_vcpu_def vm_round_def handle_io_exit_def Let_def
  by (intro lawful_intros put_bytes_lawful)

lemma printed_setup:
  "performs (microvm_setup n kvm vm mem vcpu len area sregs) P \<Longrightarrow> printed P = ln ''host VMM: starting vCPU''"
  "performs (microvm_teardown kvm vm mem vcpu len area) D \<Longrightarrow> printed D = []"
  by (auto simp: microvm_setup_def microvm_teardown_def)

lemma microvm_main_guest:
  assumes "log s = []" "\<And>fd. runs_guest fd guest_exits (os s)" "\<And>fd. kvm_patient n fd (os s)"
  shows "\<exists>r s'. microvm_main kvm_run_size s = Some (r, s') \<and>
    (r = Exited 1 \<and> list_ex refused (log s') \<or> r = Value 1 \<and> never_ran kvm_run_size (log s')
     \<or> r = Value 0 \<and> microvm_ran kvm_run_size True (log s')
       \<and> (\<exists>vcpu. guest_loaded vcpu (log s') \<and> vm_exits vcpu (log s') \<noteq> [])
       \<and> printed (log s') = ln ''host VMM: starting vCPU'' @ greeting @ ln ''host VMM: guest halted'')"
proof -
  have "fresh (os s) s" using assms(1) by (simp add: fresh_def)
  then obtain r s' where run: "microvm_main kvm_run_size s = Some (r, s')"
    using microvm_main_ends [OF assms(2, 3), of kvm_run_size] by (auto simp: ends_fresh_def finishes_def)
  have g: "genuine s'" "os s' = os s"
    using genuine_run [OF microvm_main_lawful assms(1) run] by simp_all
  from addsD [OF microvm_main_adds run] assms(1)
  have "r = Exited 1 \<and> gave_up (log s') \<or> r = Value 1 \<and> never_ran kvm_run_size (log s')
      \<or> (\<exists>ok. r = Value (if ok then 0 else 1) \<and> microvm_ran kvm_run_size ok (log s'))" by auto
  moreover have "list_ex refused (log s')" if "gave_up (log s')"
    using that guest_exits_served genuine_exits [OF g assms(2)] by (auto simp: gave_up_def)
  moreover have "ok \<and> (\<exists>vcpu. guest_loaded vcpu (log s') \<and> vm_exits vcpu (log s') \<noteq> [])
      \<and> printed (log s') = ln ''host VMM: starting vCPU'' @ greeting @ ln ''host VMM: guest halted''"
    if "microvm_ran kvm_run_size ok (log s')" for ok
  proof -
    from that obtain kvm vm mem vcpu len area sregs P R D where l: "log s' = P @ R @ D"
      and P: "performs (microvm_setup kvm_run_size kvm vm mem vcpu len area sregs) P"
      and R: "vm_outcome vcpu (Value ok) R" and D: "performs (microvm_teardown kvm vm mem vcpu len area) D"
      unfolding microvm_ran_def by blast
    have exits: "vm_exits vcpu (log s') = vm_exits vcpu R"
      by (simp add: l performs_no_exits(1) [OF P] performs_no_exits(2) [OF D])
    have "reports (guest_exits ! i) (vm_exits vcpu R ! i)"
      if "i < length guest_exits" "i < length (vm_exits vcpu R)" for i
      using genuine_exits [OF g assms(2) that(1), of vcpu] that(2) by (simp add: exits)
    from guest_outcome [OF R this] show ?thesis
      using setup_loads [OF P, of "R @ D"] exits R
      by (auto simp: l printed_setup(1) [OF P] printed_setup(2) [OF D] vm_outcome_def)
  qed
  ultimately show ?thesis using run by fastforce
qed

end
