(* ===== verification/DCgroup.thy ===== *)
theory DCgroup
  imports SyncPipe
begin

section \<open>Control groups (src/part-06-cgroups/cgroup_limit.c)\<close>

text \<open>
  One program, \<open>cgroup_main\<close>: the process that \<open>fork\<close> starts runs it from the same point, with
  the reply 0. \<open>write_file\<close>, \<open>set_limit\<close> and \<open>cleanup_cgroup\<close> are the functions of the same
  names, with the prefix \<open>cgroup_\<close>. The loop around \<open>waitpid\<close> ends only when the system stops
  interrupting it.

  The theorems: the child is started only in a group whose two limits were written; the parent
  removes the group on every path on which it made it; it succeeds only if the child did and the
  removal worked; and it ends if the waits are interrupted only finitely often.
\<close>

definition cgroup_write_file :: "string \<Rightarrow> string \<Rightarrow> int prog" where
  "cgroup_write_file path content =
     seq (sys (Sys_open path [''O_WRONLY'', ''O_CLOEXEC''])) (\<lambda>fd.
     if fd < 0 then ret (- 1)
     else seq (sys (Sys_write fd content)) (\<lambda>written.
          if written \<noteq> int (length content)
          then seq get_errno (\<lambda>e.
               let saved = (if written < 0 then e else EIO) in
               seq (ignore (Sys_close fd)) (\<lambda>_.
               seq (set_errno saved) (\<lambda>_. ret (- 1))))
          else seq (ignore (Sys_close fd)) (\<lambda>_. ret 0)))"

definition write_filef :: "string \<Rightarrow> int \<Rightarrow> int prog" where
  "write_filef path v =
     (if 64 \<le> length (ln (dec v)) then seq (set_errno EINVAL) (\<lambda>_. ret (- 1))
      else cgroup_write_file path (ln (dec v)))"

text \<open>The path, or nothing and \<open>errno\<close> if it does not fit.\<close>

definition path_join :: "nat \<Rightarrow> string \<Rightarrow> string \<Rightarrow> string option prog" where
  "path_join cap dir name =
     (let path = dir @ ''/'' @ name in
      if cap \<le> length path then seq (set_errno ENAMETOOLONG) (\<lambda>_. ret None) else ret (Some path))"

definition explain_cgroup_error :: "string \<Rightarrow> string \<Rightarrow> unit prog" where
  "explain_cgroup_error action path =
     seq get_errno (\<lambda>e.
     seq (eprint [Txt action, Txt '' '', Txt path, Txt '': '', Strerror e, NL]) (\<lambda>_.
     seq get_errno (\<lambda>e.
     if e = EACCES \<or> e = EPERM \<or> e = EROFS
     then eprint [Txt ''hint: run as root on a writable cgroup v2 mount (for example: sudo ./part-06-cgroups).'', NL]
     else if e = ENOENT
     then eprint [Txt ''hint: this demo expects cgroup v2 at /sys/fs/cgroup.'', NL]
     else if e = EBUSY
     then eprint [Txt ''hint: the demo cgroup still has member processes; wait for them to exit or remove them before retrying.'', NL]
     else ret ())))"

definition set_limit :: "string \<Rightarrow> string \<Rightarrow> string \<Rightarrow> int prog" where
  "set_limit dir name content =
     seq (path_join 256 dir name) (\<lambda>p.
     case p of
       None \<Rightarrow> seq (perror ''build cgroup path'') (\<lambda>_. ret (- 1))
     | Some path \<Rightarrow>
         seq (cgroup_write_file path content) (\<lambda>r.
         if r < 0 then seq (explain_cgroup_error ''write'' path) (\<lambda>_. ret (- 1)) else ret 0))"

definition cleanup_cgroup :: "string \<Rightarrow> int prog" where
  "cleanup_cgroup dir =
     seq (sys (Sys_rmdir dir)) (\<lambda>r.
     seq get_errno (\<lambda>e.
     if r = 0 \<or> e = ENOENT then ret 0
     else seq (explain_cgroup_error ''remove'' dir) (\<lambda>_.
          seq (eprint [Txt ''cleanup: remove the stale demo cgroup manually when it is empty: rmdir '', Txt dir, NL]) (\<lambda>_.
          ret (- 1)))))"

definition demo_dir :: string where
  "demo_dir = ''/sys/fs/cgroup/part-06-cgroup-demo''"

definition cgroup_child :: "int prog" where
  "cgroup_child =
     seq (path_join 256 demo_dir ''cgroup.procs'') (\<lambda>p.
     case p of
       None \<Rightarrow> seq (perror ''build cgroup path'') (\<lambda>_. exit_with 1)
     | Some path \<Rightarrow>
         seq (sys Sys_getpid) (\<lambda>pid.
         seq (write_filef path pid) (\<lambda>r.
         if r < 0 then seq (explain_cgroup_error ''write'' path) (\<lambda>_. exit_with 1)
         else seq (sys Sys_getpid) (\<lambda>pid.
              seq (print [Txt ''child process '', Dec pid, Txt '' is limited by '', Txt demo_dir, NL]) (\<lambda>_.
              seq (print [Txt ''pids.max=8 memory.max=64MiB'', NL]) (\<lambda>_.
              seq (ignore Lib_fflush) (\<lambda>_. exit_with 0)))))))"

text \<open>The loop gives the status of the reaped child, or nothing if \<open>waitpid\<close> failed
  (\<open>child_reaped\<close> and \<open>status\<close> of the code).\<close>

definition wait_round :: "int \<Rightarrow> unit \<Rightarrow> (unit + int option) prog" where
  "wait_round child _ =
     seq (call (Sys_waitpid child)) (\<lambda>w.
     if rp_value w = child then ret (Inr (Some (num w 0)))
     else seq get_errno (\<lambda>e.
          if e \<noteq> EINTR then seq (perror ''waitpid'') (\<lambda>_. ret (Inr None)) else ret (Inl ())))"

definition wait_for_child :: "int \<Rightarrow> int option prog" where
  "wait_for_child child = loop (wait_round child) ()"

definition cgroup_report :: "int option \<Rightarrow> int prog" where
  "cgroup_report reaped =
     (case reaped of
        None \<Rightarrow> ret 1
      | Some status \<Rightarrow>
          if WIFEXITED status then ret (WEXITSTATUS status)
          else seq (if WIFSIGNALED status
                    then eprint [Txt ''child terminated by signal '', Dec (WTERMSIG status), NL]
                    else ret ()) (\<lambda>_. ret 1))"

definition cgroup_main :: "int prog" where
  "cgroup_main =
     seq (sys (Sys_mkdir demo_dir 493)) (\<lambda>made.
     seq get_errno (\<lambda>e.
     if made < 0 \<and> e \<noteq> EEXIST then seq (explain_cgroup_error ''mkdir'' demo_dir) (\<lambda>_. ret 1)
     else seq (set_limit demo_dir ''pids.max'' (ln ''8'')) (\<lambda>r.
     if r < 0 then seq (cleanup_cgroup demo_dir) (\<lambda>_. ret 1)
     else seq (set_limit demo_dir ''memory.max'' (ln ''67108864'')) (\<lambda>r.
     if r < 0 then seq (cleanup_cgroup demo_dir) (\<lambda>_. ret 1)
     else seq (sys Sys_fork) (\<lambda>child.
     if child < 0
     then seq (perror ''fork'') (\<lambda>_. seq (cleanup_cgroup demo_dir) (\<lambda>_. ret 1))
     else if child = 0 then cgroup_child
     else seq (wait_for_child child) (\<lambda>reaped.
          seq (cleanup_cgroup demo_dir) (\<lambda>r.
          if r < 0 then ret 1
          else seq (print [Txt ''cleaned up '', Txt demo_dir, NL]) (\<lambda>_.
               cgroup_report reaped))))))))"

subsection \<open>The limits\<close>

fun limit_written :: "string \<Rightarrow> string \<Rightarrow> event list \<Rightarrow> bool" where
  "limit_written path content [(c, r), (c', r'), (c'', r'')] \<longleftrightarrow>
     c = Sys_open path [''O_WRONLY'', ''O_CLOEXEC''] \<and> succeeds r
     \<and> c' = Sys_write (rp_value r) content \<and> rp_value r' = int (length content)
     \<and> c'' = Sys_close (rp_value r)"
| "limit_written path content _ \<longleftrightarrow> False"

definition is_fork :: "event \<Rightarrow> bool" where
  "is_fork e \<longleftrightarrow> fst e = Sys_fork"

definition no_fork :: "event list \<Rightarrow> bool" where
  "no_fork E \<longleftrightarrow> (\<forall>e \<in> set E. \<not> is_fork e)"

lemma no_fork_simps [simp]:
  "is_fork (c, r) \<longleftrightarrow> c = Sys_fork"
  "no_fork []" "no_fork (e # E) \<longleftrightarrow> \<not> is_fork e \<and> no_fork E"
  "no_fork (E @ E') \<longleftrightarrow> no_fork E \<and> no_fork E'"
  by (auto simp: no_fork_def is_fork_def)

lemma no_fork_preceded: "no_fork E \<Longrightarrow> preceded P is_fork E"
  by (auto simp: no_fork_def intro: preceded_none)

lemma cgroup_write_file_adds:
  "adds (cgroup_write_file path content) (\<lambda>r E. no_fork E \<and>
     (r = Value (- 1) \<and> list_ex refused E \<or> r = Value 0 \<and> limit_written path content E))"
  unfolding cgroup_write_file_def Let_def by (rule addsI) (auto simp: wlp_simps not_less)

lemma write_filef_adds:
  "adds (write_filef path v) (\<lambda>r E. no_fork E \<and>
     (r = Value (- 1) \<and> (63 \<le> length (dec v) \<or> list_ex refused E) \<or> r = Value 0 \<and> limit_written path (ln (dec v)) E))"
  unfolding write_filef_def
  by (auto intro: cgroup_write_file_adds) (auto intro!: addsI simp: wlp_simps)

lemma explain_cgroup_error_adds: "adds (explain_cgroup_error action path) (\<lambda>r E. no_fork E \<and> r = Value ())"
  unfolding explain_cgroup_error_def by (rule addsI) (auto simp: wlp_simps)

lemma set_limit_adds:
  assumes "length (dir @ ''/'' @ name) < 256"
  shows "adds (set_limit dir name content) (\<lambda>r E. no_fork E \<and>
     (r = Value (- 1) \<and> list_ex refused E \<or> r = Value 0 \<and> limit_written (dir @ ''/'' @ name) content E))"
  unfolding set_limit_def path_join_def
  using assms
  by (intro addsI)
     (auto simp: wlp_step wlp_seq [where m = "cgroup_write_file p c" for p c]
       wlp_seq [where m = "explain_cgroup_error a p" for a p] Let_def
       intro!: adds_wlp [OF cgroup_write_file_adds] adds_wlp [OF explain_cgroup_error_adds])

lemma cleanup_cgroup_adds:
  "adds (cleanup_cgroup dir) (\<lambda>r E. no_fork E \<and>
     (\<exists>x E'. E = (Sys_rmdir dir, x) # E' \<and>
       r = Value (if rp_value x = 0 \<or> rp_errno x = ENOENT then 0 else - 1)))"
  unfolding cleanup_cgroup_def
  by (rule addsI)
     (auto simp: wlp_step wlp_seq [where m = "explain_cgroup_error a p" for a p]
       intro!: adds_wlp [OF explain_cgroup_error_adds])

text \<open>The child has written its own process id to the group.\<close>

definition joined :: "event list \<Rightarrow> bool" where
  "joined l \<longleftrightarrow> (\<exists>pid W. sublist ((Sys_getpid, pid) # W) l
     \<and> limit_written (demo_dir @ ''/cgroup.procs'') (ln (dec (rp_value pid))) W)"

lemma joinedI:
  "limit_written (demo_dir @ ''/cgroup.procs'') (ln (dec (rp_value pid))) W
    \<Longrightarrow> joined ((Sys_getpid, pid) # W @ rest)"
  unfolding joined_def by (metis append_Cons sublist_append_rightI)

lemma joined_grows: "joined E \<Longrightarrow> joined (xs @ E)"
  unfolding joined_def by (meson sublist_append_leftI sublist_order.order_trans)

text \<open>A call was refused, or the process number does not fit the buffer of 64 bytes.\<close>

definition not_joined :: "event list \<Rightarrow> bool" where
  "not_joined E \<longleftrightarrow> list_ex refused E \<or> list_ex (\<lambda>(c, r). c = Sys_getpid \<and> 63 \<le> length (dec (rp_value r))) E"

lemma not_joined_simps [simp]:
  "\<not> not_joined []"
  "not_joined ((c, r) # E) \<longleftrightarrow> refused (c, r) \<or> c = Sys_getpid \<and> 63 \<le> length (dec (rp_value r)) \<or> not_joined E"
  "not_joined (E @ E') \<longleftrightarrow> not_joined E \<or> not_joined E'"
  by (auto simp: not_joined_def)

lemma not_joinedI: "list_ex refused E \<Longrightarrow> not_joined E" "not_joined E \<Longrightarrow> not_joined (e # E)"
  by (auto simp: not_joined_def)

lemma cgroup_child_adds:
  "adds cgroup_child (\<lambda>r E. no_fork E \<and> (r = Exited 1 \<and> not_joined E \<or> r = Exited 0 \<and> joined E))"
proof -
  have path: "path_join 256 demo_dir ''cgroup.procs'' = ret (Some (demo_dir @ ''/cgroup.procs''))"
    by (simp add: path_join_def demo_dir_def)
  show ?thesis
    unfolding cgroup_child_def path
    by (rule addsI, simp add: wlp_step wlp_seq [where m = "write_filef p v" for p v]
           wlp_seq [where m = "explain_cgroup_error a p" for a p])
       (auto simp: wlp_step wlp_seq [where m = "explain_cgroup_error a p" for a p] joinedI not_joinedI intro!: adds_wlp [OF write_filef_adds]
         adds_wlp [OF explain_cgroup_error_adds])
qed

definition reaped_as :: "int \<Rightarrow> int \<Rightarrow> event list \<Rightarrow> bool" where
  "reaped_as child status E \<longleftrightarrow>
     list_ex (\<lambda>(c, w). c = Sys_waitpid child \<and> rp_value w = child \<and> num w 0 = status) E"

text \<open>A wait that did not give the child's end, or gave one that is not an exit.\<close>

definition bad_wait :: "event list \<Rightarrow> bool" where
  "bad_wait E \<longleftrightarrow>
     list_ex (\<lambda>(c, w). \<exists>child. c = Sys_waitpid child \<and> (rp_value w \<noteq> child \<or> \<not> WIFEXITED (num w 0))) E"

lemma bad_wait_simps [simp]:
  "\<not> bad_wait []"
  "bad_wait ((c, w) # E) \<longleftrightarrow>
     (\<exists>child. c = Sys_waitpid child \<and> (rp_value w \<noteq> child \<or> \<not> WIFEXITED (num w 0))) \<or> bad_wait E"
  "bad_wait (E @ E') \<longleftrightarrow> bad_wait E \<or> bad_wait E'"
  "\<not> reaped_as child status []"
  "reaped_as child status ((c, w) # E) \<longleftrightarrow>
     c = Sys_waitpid child \<and> rp_value w = child \<and> num w 0 = status \<or> reaped_as child status E"
  "reaped_as child status (E @ E') \<longleftrightarrow> reaped_as child status E \<or> reaped_as child status E'"
  by (auto simp: bad_wait_def reaped_as_def)

lemma reaped_badly: "reaped_as child status E \<Longrightarrow> \<not> WIFEXITED status \<Longrightarrow> bad_wait E"
  by (auto simp: bad_wait_def reaped_as_def list_ex_iff)

text \<open>The wait for the child: if it gives a status, the system reported it for this child.\<close>

lemma wait_for_child_adds:
  "adds (wait_for_child child) (\<lambda>r E. no_fork E \<and>
     (\<exists>reaped. r = Value reaped \<and>
        (case reaped of None \<Rightarrow> bad_wait E | Some status \<Rightarrow> reaped_as child status E)))"
proof (rule addsI)
  fix s :: proc
  show "wlp (wait_for_child child) (\<lambda>r s'. \<exists>E. log s' = log s @ E \<and> no_fork E \<and>
     (\<exists>reaped. r = Value reaped \<and>
        (case reaped of None \<Rightarrow> bad_wait E | Some status \<Rightarrow> reaped_as child status E))) s"
    unfolding wait_for_child_def
    by (rule wlp_loop [where I = "\<lambda>_ s'. \<exists>E. log s' = log s @ E \<and> no_fork E"])
       (auto simp: wait_round_def wlp_simps reaped_as_def bad_wait_def)
qed

subsection \<open>The program\<close>

definition limits_written :: "event list \<Rightarrow> bool" where
  "limits_written l \<longleftrightarrow>
     (\<exists>m W W'. l = m # W @ W' \<and> limit_written (demo_dir @ ''/pids.max'') (ln ''8'') W
        \<and> limit_written (demo_dir @ ''/memory.max'') (ln ''67108864'') W')"

text \<open>Something that makes the parent fail.\<close>

definition mishap :: "event list \<Rightarrow> bool" where
  "mishap E \<longleftrightarrow> list_ex refused E \<or> bad_wait E \<or> list_ex (\<lambda>(c, x). c = Sys_rmdir demo_dir \<and> rp_value x \<noteq> 0) E"

text \<open>The four ways a run goes: the group could not be made; the process is the child; the parent
  gave up, and removed the group; the parent reaped the child and removed the group.\<close>

definition cgroup_refused :: "event list \<Rightarrow> bool" where
  "cgroup_refused E \<longleftrightarrow> no_fork E \<and> (\<exists>m E'. E = (Sys_mkdir demo_dir 493, m) # E'
     \<and> rp_value m < 0 \<and> rp_errno m \<noteq> EEXIST)"

definition cgroup_in_child :: "event list \<Rightarrow> bool" where
  "cgroup_in_child E \<longleftrightarrow> (\<exists>f. (Sys_fork, f) \<in> set E \<and> rp_value f = 0)"

definition cgroup_removal :: "(reply \<Rightarrow> bool) \<Rightarrow> event list \<Rightarrow> bool" where
  "cgroup_removal ok E \<longleftrightarrow> list_ex (\<lambda>(c, x). c = Sys_rmdir demo_dir \<and> ok x) E"

definition cgroup_reaped :: "int \<Rightarrow> event list \<Rightarrow> bool" where
  "cgroup_reaped status E \<longleftrightarrow> (\<exists>f. (Sys_fork, f) \<in> set E \<and> 0 < rp_value f \<and> reaped_as (rp_value f) status E)"

abbreviation removed :: "reply \<Rightarrow> bool" where
  "removed x \<equiv> rp_value x = 0 \<or> rp_errno x = ENOENT"

definition cgroup_outcome :: "int outcome \<Rightarrow> event list \<Rightarrow> bool" where
  "cgroup_outcome r E \<longleftrightarrow>
     r = Value 1 \<and> cgroup_refused E
     \<or> cgroup_in_child E \<and> (r = Exited 1 \<and> not_joined E \<or> r = Exited 0 \<and> joined E)
     \<or> r = Value 1 \<and> cgroup_removal anything E \<and> mishap E
     \<or> (\<exists>status. r = Value (WEXITSTATUS status) \<and> WIFEXITED status
          \<and> cgroup_reaped status E \<and> cgroup_removal removed E)"

lemma cgroup_report_adds:
  "adds (cgroup_report reaped) (\<lambda>r E. no_fork E \<and>
     (r = Value 1 \<and> (\<forall>status. reaped = Some status \<longrightarrow> \<not> WIFEXITED status)
      \<or> (\<exists>status. reaped = Some status \<and> WIFEXITED status \<and> r = Value (WEXITSTATUS status))))"
  unfolding cgroup_report_def by (rule addsI) (auto simp: wlp_simps split: option.splits)

lemma cleanup_then_1:
  "adds (seq (cleanup_cgroup demo_dir) (\<lambda>_. ret 1)) (\<lambda>r E. no_fork E \<and> r = Value 1 \<and> cgroup_removal anything E)"
  by (rule adds_seq [OF cleanup_cgroup_adds, where F = "\<lambda>_ r E. r = Value 1 \<and> E = []"])
     (auto intro!: addsI simp: wlp_simps cgroup_removal_def)

text \<open>The parent after \<open>fork\<close>.\<close>

lemma cgroup_parent_adds:
  "adds (seq (wait_for_child child) (\<lambda>reaped.
          seq (cleanup_cgroup demo_dir) (\<lambda>r.
          if r < 0 then ret 1
          else seq (print [Txt ''cleaned up '', Txt demo_dir, NL]) (\<lambda>_. cgroup_report reaped))))
     (\<lambda>r E. no_fork E \<and>
        (r = Value 1 \<and> cgroup_removal anything E \<and> mishap E
         \<or> (\<exists>status. r = Value (WEXITSTATUS status) \<and> WIFEXITED status \<and> cgroup_removal removed E
             \<and> reaped_as child status E)))"
  by (rule addsI)
     (auto simp: wlp_step wlp_seq [where m = "wait_for_child c" for c]
       wlp_seq [where m = "cleanup_cgroup d" for d] cgroup_removal_def mishap_def reaped_badly split: option.splits
       intro!: adds_wlp [OF wait_for_child_adds] adds_wlp [OF cleanup_cgroup_adds]
         adds_wlp [OF cgroup_report_adds])

lemma cgroup_removal_simps [simp]:
  "\<not> cgroup_removal ok []"
  "cgroup_removal ok (e # E) \<longleftrightarrow> fst e = Sys_rmdir demo_dir \<and> ok (snd e) \<or> cgroup_removal ok E"
  "cgroup_removal ok (E @ E') \<longleftrightarrow> cgroup_removal ok E \<or> cgroup_removal ok E'"
  by (simp_all add: cgroup_removal_def case_prod_beta)

lemma mishap_simps [simp]:
  "mishap ((c, x) # E) \<longleftrightarrow> refused (c, x)
     \<or> (\<exists>child. c = Sys_waitpid child \<and> (rp_value x \<noteq> child \<or> \<not> WIFEXITED (num x 0)))
     \<or> c = Sys_rmdir demo_dir \<and> rp_value x \<noteq> 0 \<or> mishap E" "mishap (E @ E') \<longleftrightarrow> mishap E \<or> mishap E'"
  by (auto simp: mishap_def bad_wait_def)

lemma mishap_refused: "list_ex refused E \<Longrightarrow> mishap E"
  by (simp add: mishap_def)

lemma cgroup_outcome_intros:
  "cgroup_removal anything E \<Longrightarrow> mishap E \<Longrightarrow> cgroup_outcome (Value 1) E"
  "rp_value m < 0 \<Longrightarrow> rp_errno m \<noteq> EEXIST \<Longrightarrow> no_fork E'
    \<Longrightarrow> cgroup_outcome (Value 1) ((Sys_mkdir demo_dir 493, m) # E')"
  by (auto simp: cgroup_outcome_def cgroup_refused_def)

lemma cgroup_outcome_child:
  assumes "rp_value f = 0"
  shows "not_joined E \<Longrightarrow> cgroup_outcome (Exited 1) (a # xs @ ys @ (Sys_fork, f) # E)"
    and "joined E \<Longrightarrow> cgroup_outcome (Exited 0) (a # xs @ ys @ (Sys_fork, f) # E)"
  using assms joined_grows [of E "a # xs @ ys @ [(Sys_fork, f)]"]
  by (auto simp: cgroup_outcome_def cgroup_in_child_def not_joinedI)

lemma cgroup_outcome_reaped:
  assumes "rp_value f \<noteq> 0" "succeeds f" "WIFEXITED status" "reaped_as (rp_value f) status E"
    "cgroup_removal removed E"
  shows "cgroup_outcome (Value (WEXITSTATUS status)) (a # xs @ ys @ (Sys_fork, f) # E)"
proof -
  have "cgroup_reaped status (a # xs @ ys @ (Sys_fork, f) # E)"
    unfolding cgroup_reaped_def
    by (rule exI [of _ f]) (use assms in \<open>auto simp: reaped_as_def\<close>)
  with assms show ?thesis unfolding cgroup_outcome_def by auto
qed

lemma cgroup_main_adds: "adds cgroup_main (\<lambda>r E. preceded limits_written is_fork E \<and> cgroup_outcome r E)"
proof -
  have paths: "length (demo_dir @ ''/'' @ ''pids.max'') < 256" "length (demo_dir @ ''/'' @ ''memory.max'') < 256"
    by (simp_all add: demo_dir_def)
  note set_limits = set_limit_adds [OF paths(1), simplified] set_limit_adds [OF paths(2), simplified]
  have written: "limits_written (m # W @ W')"
    if "limit_written (demo_dir @ ''/pids.max'') (ln ''8'') W"
      "limit_written (demo_dir @ ''/memory.max'') (ln ''67108864'') W'" for m W W'
    using that unfolding limits_written_def by blast
  show ?thesis
    unfolding cgroup_main_def
    by (rule addsI, simp add: wlp_step wlp_seq [where m = "explain_cgroup_error a p" for a p]
           wlp_seq [where m = "set_limit d n c" for d n c])
       (auto simp: wlp_step no_fork_preceded not_less written cgroup_outcome_intros cgroup_outcome_child
         cgroup_outcome_reaped mishap_refused wlp_seq [where m = "set_limit d n c" for d n c]
         intro!: adds_wlp [OF explain_cgroup_error_adds] adds_wlp [OF set_limits(1)] adds_wlp [OF set_limits(2)]
           adds_wlp [OF cleanup_then_1] adds_wlp [OF cgroup_child_adds] adds_wlp [OF cgroup_parent_adds])
qed

subsection \<open>Ends\<close>

text \<open>Every wait for a child is interrupted at most \<open>n\<close> times.\<close>

definition patient :: "nat \<Rightarrow> (event list \<Rightarrow> linux_call \<Rightarrow> reply) \<Rightarrow> bool" where
  "patient n answer \<longleftrightarrow>
     (\<forall>l child. n \<le> length (filter (\<lambda>(c, r). c = Sys_waitpid child \<and> rp_errno r = EINTR) l)
        \<longrightarrow> rp_errno (answer l (Sys_waitpid child)) \<noteq> EINTR)"

lemma wait_round_eq:
  "wait_round child x s =
     (let w = os s (log s) (Sys_waitpid child); s' = after s (Sys_waitpid child) w;
          c = Stderr [Txt ''waitpid'', Txt '': '', Strerror (rp_errno w)] in
      if rp_value w = child then Some (Value (Inr (Some (num w 0))), s')
      else if rp_errno w \<noteq> EINTR then Some (Value (Inr None), after s' c (os s (log s') c))
      else Some (Value (Inl ()), s'))"
  by (simp add: wait_round_def seq_def call_def get_errno_def ret_def perror_def ignore_def after_def Let_def)

lemma wait_for_child_finishes:
  assumes "patient n (os s)"
  shows "finishes (wait_for_child child) s"
  unfolding wait_for_child_def
proof (rule finishes_loop [where I = "\<lambda>_ s'. os s' = os s"
    and \<mu> = "\<lambda>_ s'. n - length (filter (\<lambda>(c, r). c = Sys_waitpid child \<and> rp_errno r = EINTR) (log s'))"])
  fix x and s' :: proc
  assume keep: "os s' = os s"
  let ?w = "os s (log s') (Sys_waitpid child)"
  let ?count = "length (filter (\<lambda>(c, r). c = Sys_waitpid child \<and> rp_errno r = EINTR) (log s'))"
  have "rp_errno ?w = EINTR \<Longrightarrow> ?count < n"
    using assms [unfolded patient_def, rule_format, of child "log s'"] by (meson not_less)
  with keep show "\<exists>r s''. wait_round child x s' = Some (r, s'') \<and>
      (\<forall>y. r = Value (Inl y) \<longrightarrow> os s'' = os s \<and>
         n - length (filter (\<lambda>(c, r). c = Sys_waitpid child \<and> rp_errno r = EINTR) (log s''))
         < n - ?count)"
    by (cases "rp_value ?w = child"; cases "rp_errno ?w = EINTR") (simp_all add: wait_round_eq Let_def)
qed simp

lemma wait_for_child_keeps: "lawful (wait_for_child child)"
  unfolding wait_for_child_def wait_round_def by (intro lawful_intros)

lemma cgroup_parts_finish [finishes_intros]:
  "finishes (explain_cgroup_error action path) s"
  "finishes (set_limit dir name content) s"
  "finishes (cleanup_cgroup dir) s"
  "finishes cgroup_child s"
  "finishes (cgroup_report reaped) s"
  unfolding explain_cgroup_error_def set_limit_def path_join_def cgroup_write_file_def cleanup_cgroup_def
    cgroup_child_def write_filef_def cgroup_report_def Let_def
  by (auto intro!: finishes_intros split: option.splits)

lemma cgroup_parts_keep [lawful_intros]:
  "lawful (explain_cgroup_error action path)"
  "lawful (set_limit dir name content)"
  "lawful (cleanup_cgroup dir)"
  unfolding explain_cgroup_error_def set_limit_def path_join_def cgroup_write_file_def cleanup_cgroup_def Let_def
  by (auto intro!: lawful_intros split: option.splits)

lemma cgroup_main_finishes:
  assumes "patient n (os s)"
  shows "finishes cgroup_main s"
  unfolding cgroup_main_def
  using assms
  by (auto intro!: finishes_seq_os finishes_if finishes_basic cgroup_parts_finish lawful_intros
      wait_for_child_finishes [of n] wait_for_child_keeps)

end
