(* ===== verification/Verdict.thy ===== *)
theory Verdict
  imports DContainer DCgroup DHardening
begin

section \<open>What a parent may conclude from its child's end\<close>

text \<open>
  Three demos start a process and end with what \<open>waitpid\<close> says of it. Here the two sides, which the
  other theories treat as separate runs, are joined: the parent's run \<open>sp\<close> and the child's run \<open>sc\<close>
  are arbitrary, and what is assumed of the system between them is that the status a successful wait
  reports is the child's.

  The container's child may be killed at any point of its run: an exit code other than 1 then says
  that the command ran, and ran isolated, or that a signal ended the child before. The control-group
  demo succeeds only if its child ran inside the limited group. For the hardening demo strict seccomp
  is described call by call, whatever the program: after the grant the first call that is not allowed
  kills, and ending the process is itself a call; the demo succeeds exactly if the child made one.
\<close>

text \<open>The status of a process that has called \<open>exit(code)\<close>.\<close>

definition exit_wait :: "int \<Rightarrow> int" where
  "exit_wait code = 256 * (code mod 256)"

lemma exit_wait_simps [simp]:
  "WIFEXITED (exit_wait code)" "\<not> WIFSIGNALED (exit_wait code)" "WEXITSTATUS (exit_wait code) = code mod 256"
  by (simp_all add: exit_wait_def WIFEXITED_def WIFSIGNALED_def WTERMSIG_def WEXITSTATUS_def)

text \<open>Every successful wait in the log reports the status.\<close>

definition told :: "int \<Rightarrow> event list \<Rightarrow> bool" where
  "told status l \<longleftrightarrow> (\<forall>pid w. (Sys_waitpid pid, w) \<in> set l \<longrightarrow> succeeds w \<longrightarrow> num w 0 = status)"

lemma toldD: "told status l \<Longrightarrow> (Sys_waitpid pid, w) \<in> set l \<Longrightarrow> succeeds w \<Longrightarrow> num w 0 = status"
  by (simp add: told_def)

subsection \<open>The container\<close>

text \<open>How the child's run ends: the calls \<open>cs\<close> that it really made and its wait status. Left alone it
  makes all the calls \<open>l\<close> of its program, and its status is that of its \<open>exit\<close>, or whatever the
  program it became ends with. A signal may end it at any point before.\<close>

definition ends_with :: "'a outcome \<Rightarrow> event list \<Rightarrow> event list \<Rightarrow> int \<Rightarrow> bool" where
  "ends_with r l cs status \<longleftrightarrow>
     cs = l \<and> (case r of Exited c \<Rightarrow> status = exit_wait c | _ \<Rightarrow> True)
     \<or> prefix cs l \<and> WIFSIGNALED status"

text \<open>The command was executed, as the last call of the child and after the complete isolation.\<close>

definition command_ran :: "child_config \<Rightarrow> event list \<Rightarrow> bool" where
  "command_ran config cs \<longleftrightarrow>
     (\<exists>pre x. cs = pre @ [(Sys_execvp (arg0 (cc_argv config)) (cc_argv config), x)]
        \<and> container_isolated config pre \<and> succeeds x)"

lemma signal_code:
  "WIFSIGNALED status \<Longrightarrow> 0 < WTERMSIG status \<and> WTERMSIG status < 127 \<and> exit_code status = 128 + WTERMSIG status"
  by (auto simp: exit_code_def WIFSIGNALED_def WIFEXITED_def)

lemma exit_code_exit_wait: "exit_code (exit_wait c) = c mod 256"
  by (simp add: exit_code_def)

lemma prefix_executes: "prefix cs l \<Longrightarrow> \<not> list_ex executes l \<Longrightarrow> \<not> list_ex executes cs"
  by (auto simp: prefix_def)

lemma child_end:
  assumes child: "log sc = []" "container_child config sc = Some (rc, sc')"
    and ends: "ends_with rc (log sc') cs status" and code: "exit_code status \<noteq> 1"
  shows "command_ran config cs \<or> WIFSIGNALED status \<and> \<not> list_ex executes cs"
proof -
  from addsD [OF container_child_executes child(2)] child(1)
  consider "rc = Exited 1" "\<not> list_ex executes (log sc')"
    | pre x where "rc = Replaced" "log sc' = pre @ [(Sys_execvp (arg0 (cc_argv config)) (cc_argv config), x)]"
      "container_isolated config pre" "succeeds x" "\<not> list_ex executes pre"
    by auto
  then show ?thesis
  proof cases
    case 1
    with ends code show ?thesis
      by (auto simp: ends_with_def exit_code_exit_wait dest: prefix_executes)
  next
    case 2
    with ends have "cs = log sc' \<or> prefix cs (log sc') \<and> WIFSIGNALED status" by (auto simp: ends_with_def)
    with 2 show ?thesis by (auto simp: command_ran_def dest: prefix_executes)
  qed
qed

lemma container_verdict:
  assumes parent: "log sp = []" "container_main argv sp = Some (Exited code, sp')"
    and child: "log sc = []" "container_child config sc = Some (rc, sc')"
    and passed: "(Sys_clone stk flags (config_fields config), x) \<in> set (log sp')"
    and ends: "ends_with rc (log sc') cs status" and wait: "told status (log sp')"
    and code: "code \<noteq> 1"
  shows "code = exit_code status \<and> container_served argv code (log sp')
    \<and> cc_argv config = drop 2 argv \<and> cc_rootfs config = argv ! 1
    \<and> (command_ran config cs
       \<or> \<not> list_ex executes cs \<and> (\<exists>sig. 0 < sig \<and> sig < 127 \<and> code = 128 + sig))"
proof -
  from addsD [OF container_main_adds parent(2)] parent(1) code
  have served: "container_served argv code (log sp')" by auto
  then obtain pid w where w: "(Sys_waitpid pid, w) \<in> set (log sp')" "succeeds w" "code = exit_code (num w 0)"
    unfolding container_served_def by blast
  from toldD [OF wait w(1,2)] w(3) have status: "code = exit_code status" by simp
  from addsD [OF container_clones parent(2)] parent(1) passed
  obtain p where "config = container_config argv p" by fastforce
  then have config: "cc_argv config = drop 2 argv" "cc_rootfs config = argv ! 1"
    by (simp_all add: container_config_def)
  from child_end [OF child ends] code status
  have "command_ran config cs \<or> WIFSIGNALED status \<and> \<not> list_ex executes cs" by simp
  with signal_code [of status] status served config show ?thesis by blast
qed

subsection \<open>The control group\<close>

lemma cgroup_verdict:
  assumes parent: "log sp = []" "cgroup_main sp = Some (Value 0, sp')"
    and child: "log sc = []" "cgroup_main sc = Some (Exited c, sc')"
    and wait: "told (exit_wait c) (log sp')"
  shows "c = 0 \<and> preceded limits_written is_fork (log sc') \<and> joined (log sc') \<and> cgroup_removal removed (log sp')"
proof -
  from addsD [OF cgroup_main_adds parent(2)] parent(1)
  obtain status where s: "WEXITSTATUS status = 0" "cgroup_reaped status (log sp')" "cgroup_removal removed (log sp')"
    by (auto simp: cgroup_outcome_def)
  from s(2) obtain pid w where "(Sys_waitpid pid, w) \<in> set (log sp')" "succeeds w" "num w 0 = status"
    by (auto simp: cgroup_reaped_def reaped_as_def list_ex_iff)
  from toldD [OF wait this(1,2)] this(3) s(1) have "c mod 256 = 0" by simp
  with addsD [OF cgroup_main_adds child(2)] child(1) s(3) show ?thesis
    by (auto simp: cgroup_outcome_def)
qed

subsection \<open>Strict seccomp\<close>

text \<open>Strict mode was granted.\<close>

definition is_strict :: "event \<Rightarrow> bool" where
  "is_strict e \<longleftrightarrow> fst e = Sys_prctl ''PR_SET_SECCOMP'' [1] \<and> succeeds (snd e)"

definition sandboxed :: "event list \<Rightarrow> bool" where
  "sandboxed l \<longleftrightarrow> list_ex is_strict l"

text \<open>The calls that strict mode allows: \<open>read\<close>, \<open>write\<close>, \<open>exit\<close> and the return from a signal handler.\<close>

definition strict_allows :: "linux_call \<Rightarrow> bool" where
  "strict_allows c =
     (case c of Sys_read _ _ \<Rightarrow> True | Sys_write _ _ \<Rightarrow> True
      | Sys_syscall name _ \<Rightarrow> name = ''SYS_exit'' \<or> name = ''SYS_rt_sigreturn'' | _ \<Rightarrow> False)"

text \<open>The calls after the grant.\<close>

fun strict_calls :: "event list \<Rightarrow> linux_call list" where
  "strict_calls [] = []"
| "strict_calls (e # l) = (if is_strict e then map fst l else strict_calls l)"

text \<open>The wait status of a process whose program makes the calls of \<open>l\<close> and then ends with the code
  \<open>c\<close>, which it does by the call \<open>bye\<close> of the C library: the kernel kills it at its first call in
  strict mode that is not allowed, be it one of \<open>l\<close> or the last.\<close>

definition strict_status :: "linux_call \<Rightarrow> event list \<Rightarrow> int \<Rightarrow> int" where
  "strict_status bye l c =
     (if sandboxed l \<and> \<not> list_all strict_allows (strict_calls l @ [bye]) then SIGKILL else exit_wait c)"

text \<open>The write by which the child shows that it got as far as strict mode lets it.\<close>

definition write_worked :: "event list \<Rightarrow> bool" where
  "write_worked l \<longleftrightarrow>
     list_ex (\<lambda>e. fst e = Sys_write 1 (ln ''child: write(2) still works after strict seccomp'') \<and> succeeds (snd e)) l"

lemma is_strict_simps [simp]: "is_strict (c, r) \<longleftrightarrow> c = Sys_prctl ''PR_SET_SECCOMP'' [1] \<and> succeeds r"
  by (simp add: is_strict_def)

lemma sandboxed_simps [simp]:
  "\<not> sandboxed []" "sandboxed (e # l) \<longleftrightarrow> is_strict e \<or> sandboxed l"
  "sandboxed (l @ l') \<longleftrightarrow> sandboxed l \<or> sandboxed l'"
  by (simp_all add: sandboxed_def)

lemma write_worked_simps [simp]:
  "\<not> write_worked []"
  "write_worked (e # l) \<longleftrightarrow>
     fst e = Sys_write 1 (ln ''child: write(2) still works after strict seccomp'') \<and> succeeds (snd e) \<or> write_worked l"
  "write_worked (l @ l') \<longleftrightarrow> write_worked l \<or> write_worked l'"
  by (simp_all add: write_worked_def)

lemma strict_calls_append [simp]:
  "strict_calls (l @ l') = (if sandboxed l then strict_calls l @ map fst l' else strict_calls l')"
  by (induction l) auto

lemma strict_allows_simps [simp]:
  "strict_allows (Sys_write fd content)" "\<not> strict_allows (Sys_syscall ''SYS_getpid'' args)"
  by (simp_all add: strict_allows_def)

lemma reads_not_strict [simp]:
  "list_all reads E \<Longrightarrow> \<not> sandboxed E" "list_all reads E \<Longrightarrow> \<not> write_worked E"
  "list_all reads E \<Longrightarrow> \<not> list_ex forbidden E"
  by (auto simp: list_all_iff list_ex_iff reads_def is_strict_def sandboxed_def write_worked_def forbidden_def)

text \<open>In strict mode the child makes a call that is not allowed exactly if its write worked: it is the
  \<open>getpid\<close> behind it.\<close>

lemma hardening_strict_calls:
  "adds hardening_main (\<lambda>r E. sandboxed E \<longrightarrow>
     (list_all strict_allows (strict_calls E) \<longleftrightarrow> \<not> write_worked E) \<and> (list_ex forbidden E \<longleftrightarrow> write_worked E))"
  unfolding hardening_main_def child_demo_def
  by (rule addsI, simp add: wlp_step wlp_seq [where m = "print_status_snapshot l" for l])
     (auto simp: wlp_step wlp_seq [where m = "print_status_snapshot l" for l]
       intro!: adds_wlp [OF print_status_snapshot_adds] adds_wlp [OF hardening_report_adds])

lemma hardening_verdict:
  assumes parent: "log sp = []" "hardening_main sp = Some (Value v, sp')"
    and child: "log sc = []" "hardening_main sc = Some (Exited c, sc')"
    and wait: "told (strict_status bye (log sc') c) (log sp')"
  shows "v = (if sandboxed (log sc') \<and> (strict_allows bye \<longrightarrow> write_worked (log sc')) then 0 else 1)
    \<and> (sandboxed (log sc') \<longrightarrow> (list_ex forbidden (log sc') \<longleftrightarrow> write_worked (log sc')))"
proof -
  from addsD [OF hardening_main_adds parent(2)] parent(1)
  obtain killed pid w where v: "v = (if killed then 0 else 1)" and w: "(Sys_waitpid pid, w) \<in> set (log sp')" "succeeds w"
    and killed: "killed \<longleftrightarrow> WIFSIGNALED (num w 0) \<and> WTERMSIG (num w 0) = SIGKILL"
    by (auto simp: hardening_outcome_def reaped_child_def)
  have "WIFSIGNALED SIGKILL" "WTERMSIG SIGKILL = SIGKILL"
    by (simp_all add: WIFSIGNALED_def WTERMSIG_def SIGKILL_def)
  with toldD [OF wait w] killed
  have "killed \<longleftrightarrow> sandboxed (log sc') \<and> \<not> list_all strict_allows (strict_calls (log sc') @ [bye])"
    by (auto simp: strict_status_def split: if_splits)
  moreover from addsD [OF hardening_strict_calls child(2)] child(1)
  have "sandboxed (log sc') \<longrightarrow> (list_all strict_allows (strict_calls (log sc')) \<longleftrightarrow> \<not> write_worked (log sc'))
      \<and> (list_ex forbidden (log sc') \<longleftrightarrow> write_worked (log sc'))"
    by simp
  ultimately show ?thesis using v by auto
qed

end
