(* ===== verification/DemoProperties.thy ===== *)
theory DemoProperties
  imports DBasics DUserns DCapabilities DMicrovm Verdict
begin

section \<open>Properties of the Linux demos\<close>

text \<open>
  The properties of the user-space programs, each with a witness where it has hypotheses. All of
  them hold for every operating system, that is for every answer to every call, apart from the
  documented behaviour that a hypothesis names.
\<close>

subsection \<open>A concrete system\<close>

text \<open>A system on which everything works: descriptor 3 for every file, 7 for every process, which
  ends with the given wait status; reads return one byte and writes everything; the run area of a
  virtual processor reports the exits of the guest.\<close>

definition value_reply :: "int \<Rightarrow> reply" where
  "value_reply v = \<lparr>rp_value = v, rp_errno = 0, rp_nums = [], rp_text = []\<rparr>"

definition sample_os :: "int \<Rightarrow> event list \<Rightarrow> linux_call \<Rightarrow> reply" where
  "sample_os status l c =
     (case c of
        Sys_open _ _ \<Rightarrow> value_reply 3
      | Sys_read _ _ \<Rightarrow> value_reply 1
      | Sys_write _ content \<Rightarrow> value_reply (int (length content))
      | Sys_pipe \<Rightarrow> (value_reply 0)\<lparr>rp_nums := [10, 11]\<rparr>
      | Sys_fork \<Rightarrow> value_reply 7
      | Sys_clone _ _ _ \<Rightarrow> value_reply 7
      | Sys_waitpid _ \<Rightarrow> (value_reply 7)\<lparr>rp_nums := [status]\<rparr>
      | Sys_mmap _ _ _ \<Rightarrow> value_reply 4096
      | Lib_malloc _ \<Rightarrow> value_reply 4096
      | Lib_fopen _ _ \<Rightarrow> value_reply 4096
      | _ \<Rightarrow> value_reply 0)"

definition sample_proc :: "int \<Rightarrow> proc" where
  "sample_proc status = \<lparr>os = sample_os status, log = [], errno = 0\<rparr>"

definition final :: "'a prog \<Rightarrow> proc \<Rightarrow> proc" where
  "final m s = snd (the (m s))"

lemmas sample_run = final_def run_steps sample_os_def value_reply_def num_def arg0_def Let_def

lemma sample_proc_log [simp]: "log (sample_proc status) = []" "os (sample_proc status) = sample_os status"
  by (simp_all add: sample_proc_def)

lemma sample_finishes: "finishes m s \<Longrightarrow> \<exists>r. m s = Some (r, final m s)"
  by (auto simp: finishes_def final_def)

subsection \<open>The container\<close>

text \<open>C14: The mini container's child ends on every system; it executes the command only after the
  complete isolation - released by the parent, host name set, mounts private, root changed, /proc
  mounted, each step granted - and otherwise exits with 1, which it
  does only if some call was refused.\<close>

theorem container_exec_isolated:
  "\<exists>r s' E. container_child config s = Some (r, s') \<and> log s' = log s @ E
    \<and> preceded (container_isolated config) is_exec E
    \<and> (r = Exited 1 \<and> list_ex refused E
       \<or> r = Replaced \<and> (\<exists>pre x. E = pre @ [(Sys_execvp (arg0 (cc_argv config)) (cc_argv config), x)]
            \<and> container_isolated config pre \<and> succeeds x))"
  by (rule adds_total [OF container_child_adds container_child_finishes])

text \<open>C15: The mini container's parent ends on every system; it starts the child with the root and the
  command of its own arguments and the end of the pipe from which to read, and releases it only after the
  cgroup was asked for and, unless that failed, every limit was written or tried; it exits with the
  child's code or 128 plus its signal only after the child was limited, released and reaped and the
  cgroup removed, and otherwise with 1, if the arguments are missing or a call was refused.\<close>

theorem container_parent_prepares:
  "\<exists>r s' E. container_main argv s = Some (r, s') \<and> log s' = log s @ E
    \<and> preceded (container_prepared argv) container_release E
    \<and> (r = Exited 1 \<and> (length argv < 3 \<or> list_ex refused E)
      \<or> (\<exists>code. r = Exited code \<and> container_served argv code E))"
  by (rule adds_total [OF container_main_adds container_main_finishes])

text \<open>C16: However the parent and the child are scheduled, if the pipe gives the child only bytes
  that the parent has written, then whenever the child has done anything but read the pipe and
  complain, the parent had tried all limits on it and only then released it.\<close>

theorem container_no_early_start:
  assumes "log sp = []" "container_main argv sp = Some (rp, sp')"
    and "log sc = []" "container_child config sc = Some (rc, sc')"
    and "pipe_run container_release (container_received config) ps cs n"
    and "prefix ps (log sp')" "prefix cs (log sc')" "e \<in> set cs" "container_acts e"
  shows "\<exists>k < length ps. container_release (ps ! k) \<and> container_prepared argv (take k ps)"
  by (rule container_pipe.prepared_before_act [OF assms(5,6) logs_ofI [where m = "container_main argv", OF assms(1,2)]
        assms(7) logs_ofI [where m = "container_child config", OF assms(3,4)] assms(8,9)])

definition sample_argv :: "string list" where
  "sample_argv = [''mini_container'', ''rootfs'', ''sh'']"

definition sample_config :: child_config where
  "sample_config = \<lparr>cc_argv = [''sh''], cc_rootfs = ''rootfs'', cc_sync_fd = 10\<rparr>"

lemma sample_container_tokens:
  "length (filter container_release (log (final (container_main sample_argv) (sample_proc 0)))) = 1"
  "length (filter (container_received sample_config) (log (final (container_child sample_config) (sample_proc 0)))) = 1"
  by (simp_all add: container_main_def try_apply_cgroup_limits_def write_or_warn_def write_file_def
      container_child_def wait_for_parent_def require_def container_received_def sample_argv_def sample_config_def
      pid_line_not_release sample_run cong: seq_cong)

lemma sample_pipe:
  "pipe_run container_release (container_received sample_config)
     (log (final (container_main sample_argv) (sample_proc 0)))
     (log (final (container_child sample_config) (sample_proc 0))) 0"
  using pipe_run_complete [of "container_received sample_config" _ container_release] sample_container_tokens
  by (metis diff_self_eq_0 order_refl)

lemma sample_child_acts:
  "(Sys_sethostname ''mini-container'', value_reply 0)
     \<in> set (log (final (container_child sample_config) (sample_proc 0)))"
  by (simp add: container_child_def wait_for_parent_def require_def sample_config_def sample_run cong: seq_cong)

theorem container_no_early_start_witness:
  "\<exists>k < length (log (final (container_main sample_argv) (sample_proc 0))).
     container_release (log (final (container_main sample_argv) (sample_proc 0)) ! k)
     \<and> container_prepared sample_argv (take k (log (final (container_main sample_argv) (sample_proc 0))))"
proof -
  obtain rp rc where "container_main sample_argv (sample_proc 0) = Some (rp, final (container_main sample_argv) (sample_proc 0))"
    and "container_child sample_config (sample_proc 0) = Some (rc, final (container_child sample_config) (sample_proc 0))"
    using sample_finishes container_main_finishes container_child_finishes by meson
  from container_no_early_start [OF _ this(1) _ this(2) sample_pipe _ _ sample_child_acts]
  show ?thesis by (simp add: container_acts_def)
qed

subsection \<open>User namespaces\<close>

text \<open>C18: The user-namespace demo's parent ends on every system; it writes the pipe only after it
  has mapped its own user id, settled \<open>setgroups\<close> and then mapped its group id for the child it
  started with the other end of the pipe, each file completely. Unless a call was refused it releases the child, waits for it, and
  returns 0 exactly if the child exited with 0.\<close>

theorem userns_parent_maps:
  "\<exists>r s' E. userns_main s = Some (r, s') \<and> log s' = log s @ E
    \<and> preceded userns_prepared userns_release E
    \<and> (r \<in> {Exited 1, Value 1} \<and> list_ex refused E
      \<or> r = Value 0 \<and> userns_served True E \<or> r = Value 1 \<and> userns_served False E)"
  by (rule adds_total [OF userns_main_adds userns_main_finishes])

text \<open>C19: However the two processes of the user-namespace demo are scheduled, if the pipe gives
  the child only bytes that the parent has written, the child does nothing in its namespace before
  both its ids are mapped.\<close>

theorem userns_no_early_start:
  assumes "log sp = []" "userns_main sp = Some (rp, sp')"
    and "log sc = []" "userns_child fd sc = Some (rc, sc')"
    and "pipe_run userns_release (userns_received fd) ps cs n"
    and "prefix ps (log sp')" "prefix cs (log sc')" "e \<in> set cs" "userns_acts e"
  shows "\<exists>k < length ps. userns_release (ps ! k) \<and> userns_prepared (take k ps)"
  by (rule userns_pipe.prepared_before_act [OF assms(5,6) logs_ofI [where m = userns_main, OF assms(1,2)]
        assms(7) logs_ofI [where m = "userns_child fd", OF assms(3,4)] assms(8,9)])

lemma sample_userns_tokens:
  "length (filter userns_release (log (final userns_main (sample_proc 0)))) = 1"
  "length (filter (userns_received 10) (log (final (userns_child 10) (sample_proc 0)))) = 1"
  by (simp_all add: userns_main_def write_id_maps_def write_text_file_def write_all_or_exit_def
      deny_setgroups_if_available_def userns_report_def WIFEXITED_def WTERMSIG_def WEXITSTATUS_def
      userns_child_def print_map_file_def userns_received_def sample_run cong: seq_cong)

lemma sample_userns_pipe:
  "pipe_run userns_release (userns_received 10)
     (log (final userns_main (sample_proc 0))) (log (final (userns_child 10) (sample_proc 0))) 0"
  using pipe_run_complete [of "userns_received 10" _ userns_release] sample_userns_tokens
  by (metis diff_self_eq_0 order_refl)

lemma sample_userns_acts: "(Sys_getuid, value_reply 0) \<in> set (log (final (userns_child 10) (sample_proc 0)))"
  by (simp add: userns_child_def print_map_file_def sample_run cong: seq_cong)

theorem userns_no_early_start_witness:
  "\<exists>k < length (log (final userns_main (sample_proc 0))).
     userns_release (log (final userns_main (sample_proc 0)) ! k)
     \<and> userns_prepared (take k (log (final userns_main (sample_proc 0))))"
proof -
  obtain rp rc where "userns_main (sample_proc 0) = Some (rp, final userns_main (sample_proc 0))"
    and "userns_child 10 (sample_proc 0) = Some (rc, final (userns_child 10) (sample_proc 0))"
    using sample_finishes userns_main_finishes userns_child_finishes by meson
  from userns_no_early_start [OF _ this(1) _ this(2) sample_userns_pipe _ _ sample_userns_acts]
  show ?thesis by (simp add: userns_acts_def)
qed

subsection \<open>Control groups\<close>

text \<open>C20: The control-group demo ends on every system that interrupts its wait only finitely often.
  The child is started only in a group whose two limits have been written, and exits with 0 only
  after it has joined; a parent that made the group removes it on every path; it returns
  the child's code only if it reaped the child and the removal worked, and it fails otherwise only
  after a refused call, a wait without an exit status or a failed removal.\<close>

theorem cgroup_demo_cleans_up:
  assumes "patient n (os s)"
  shows "\<exists>r s' E. cgroup_main s = Some (r, s') \<and> log s' = log s @ E
    \<and> preceded limits_written is_fork E \<and> cgroup_outcome r E"
  by (rule adds_total [OF cgroup_main_adds cgroup_main_finishes [OF assms]])

theorem cgroup_demo_cleans_up_witness:
  "\<exists>r s' E. cgroup_main (sample_proc 0) = Some (r, s') \<and> log s' = [] @ E
    \<and> preceded limits_written is_fork E \<and> cgroup_outcome r E"
proof -
  have "patient 0 (os (sample_proc 0))"
    by (simp add: patient_def sample_os_def value_reply_def EINTR_def)
  from cgroup_demo_cleans_up [OF this] show ?thesis by simp
qed

subsection \<open>Hardening and capabilities\<close>

text \<open>C23: The hardening demo ends on every system whose status file does. The child makes the
  forbidden call only after no_new_privs and strict seccomp were both granted, and its exit code
  tells how far it got; unless a call was refused the parent returns 0 exactly if the child was
  killed by SIGKILL.\<close>

theorem hardening_demo_verdict:
  assumes "finite_files n (os s)"
  shows "\<exists>r s' E. hardening_main s = Some (r, s') \<and> log s' = log s @ E
    \<and> preceded hardened forbidden E \<and> hardening_outcome r E"
  by (rule adds_total [OF hardening_main_adds hardening_main_finishes [OF assms]])

lemma sample_finite_files: "finite_files 0 (sample_os status)"
  by (simp add: finite_files_def sample_os_def value_reply_def)

theorem hardening_demo_verdict_witness:
  "\<exists>r s' E. hardening_main (sample_proc 9) = Some (r, s') \<and> log s' = [] @ E
    \<and> preceded hardened forbidden E \<and> hardening_outcome r E"
  using hardening_demo_verdict [of 0 "sample_proc 9"] sample_finite_files by simp

text \<open>C24: The capability demo ends on every system whose status file does. It succeeds only if an
  empty set was installed and both halves of the effective set read after it are empty, returns
  failure only if one of them is not, and exits only after a refused call.\<close>

theorem capability_demo_verdict:
  assumes "finite_files n (os s)"
  shows "\<exists>r s' E. capabilities_main s = Some (r, s') \<and> log s' = log s @ E
    \<and> (r = Exited 1 \<and> list_ex refused E \<or> r = Value 1 \<and> caps_kept E \<or> r = Value 0 \<and> caps_dropped E)"
  by (rule adds_total [OF capabilities_main_adds capabilities_main_finishes [OF assms]])

theorem capability_demo_verdict_witness:
  "\<exists>r s' E. capabilities_main (sample_proc 0) = Some (r, s') \<and> log s' = [] @ E
    \<and> (r = Exited 1 \<and> list_ex refused E \<or> r = Value 1 \<and> caps_kept E \<or> r = Value 0 \<and> caps_dropped E)"
  using capability_demo_verdict [of 0 "sample_proc 0"] sample_finite_files by simp

subsection \<open>Parent and child together\<close>

text \<open>A system on which a process is the child of its fork.\<close>

definition child_os :: "event list \<Rightarrow> linux_call \<Rightarrow> reply" where
  "child_os l c = (if c = Sys_fork then value_reply 0 else sample_os 0 l c)"

definition child_proc :: proc where
  "child_proc = \<lparr>os = child_os, log = [], errno = 0\<rparr>"

lemma child_proc_log [simp]: "log child_proc = []" "os child_proc = child_os"
  by (simp_all add: child_proc_def)

lemma sample_status_loop:
  assumes "os s (log s) (Lib_getline file line) = value_reply 0"
  shows "seq (loop (status_round label field file) line) f s = f 0 (after s (Lib_getline file line) (value_reply 0))"
  using assms by (simp add: seq_def loop.simps status_round_def call_def after_def ret_def num_def value_reply_def Let_def)

lemma sample_wait:
  assumes "os s (log s) (Sys_waitpid 7) = w" "rp_value w = 7"
  shows "seq (wait_for_child 7) f s = f (Some (num w 0)) (after s (Sys_waitpid 7) w)"
  using assms by (simp add: seq_def wait_for_child_def loop.simps wait_round_eq Let_def)

text \<open>C17: What an exit code of the mini container other than 1 says. The parent and the child are
  arbitrary runs, joined by the arguments that the parent passes to \<open>clone\<close> and by the wait status of
  the child, which may run to its end or be killed by a signal after any of its calls. Then the code
  is that status, as a shell would report it; the parent started, limited, released and reaped the
  child; the root and the command are those of the command line; and either the command was executed,
  as the last call of the child and after the complete isolation, or it was not executed at all and
  the code is 128 plus the signal that killed the child. So a code below 128 other than 1 is always
  the isolated command's own.\<close>

theorem container_code_is_the_commands:
  assumes "log sp = []" "container_main argv sp = Some (Exited code, sp')"
    and "log sc = []" "container_child config sc = Some (rc, sc')"
    and "(Sys_clone stk flags (config_fields config), x) \<in> set (log sp')"
    and "ends_with rc (log sc') cs status" "told status (log sp')" "code \<noteq> 1"
  shows "code = exit_code status \<and> container_served argv code (log sp')
    \<and> cc_argv config = drop 2 argv \<and> cc_rootfs config = argv ! 1
    \<and> (command_ran config cs
       \<or> \<not> list_ex executes cs \<and> (\<exists>sig. 0 < sig \<and> sig < 127 \<and> code = 128 + sig))"
  using assms by (rule container_verdict)

lemma sample_container_ends:
  "container_main sample_argv (sample_proc 0) = Some (Exited 0, final (container_main sample_argv) (sample_proc 0))"
  "container_child sample_config (sample_proc 0) = Some (Replaced, final (container_child sample_config) (sample_proc 0))"
  by (simp_all add: container_main_def try_apply_cgroup_limits_def write_or_warn_def write_file_def exit_code_def
      WIFEXITED_def WTERMSIG_def WEXITSTATUS_def container_child_def wait_for_parent_def require_def sample_argv_def
      sample_config_def sample_run cong: seq_cong)

lemma sample_container_joined:
  "(Sys_clone (4096 + 1024 * 1024) container_flags (config_fields sample_config), value_reply 7)
     \<in> set (log (final (container_main sample_argv) (sample_proc 0)))"
  "told 0 (log (final (container_main sample_argv) (sample_proc 0)))"
  by (simp_all add: container_main_def try_apply_cgroup_limits_def write_or_warn_def write_file_def told_def
      container_config_def sample_argv_def sample_config_def sample_run cong: seq_cong)

lemma sample_container_child_ends:
  "ends_with Replaced (log (final (container_child sample_config) (sample_proc 0)))
     (log (final (container_child sample_config) (sample_proc 0))) 0"
  by (simp add: ends_with_def)

theorem container_code_is_the_commands_witness:
  "container_served sample_argv 0 (log (final (container_main sample_argv) (sample_proc 0)))
    \<and> command_ran sample_config (log (final (container_child sample_config) (sample_proc 0)))"
  using container_code_is_the_commands [OF _ sample_container_ends(1) _ sample_container_ends(2)
      sample_container_joined(1) sample_container_child_ends sample_container_joined(2)] by auto

text \<open>C21: The control-group demo reports success only if its child did its work inside the group: if
  the wait reports how the child ended, the child was started with both limits written, had joined
  the group, and the group is gone.\<close>

theorem cgroup_success_is_limited:
  assumes "log sp = []" "cgroup_main sp = Some (Value 0, sp')"
    and "log sc = []" "cgroup_main sc = Some (Exited c, sc')" "told (exit_wait c) (log sp')"
  shows "c = 0 \<and> preceded limits_written is_fork (log sc') \<and> joined (log sc') \<and> cgroup_removal removed (log sp')"
  using assms by (rule cgroup_verdict)

lemmas sample_cgroup = cgroup_main_def set_limit_def path_join_def cgroup_write_file_def write_filef_def cgroup_child_def
  cleanup_cgroup_def cgroup_report_def demo_dir_def WIFEXITED_def WTERMSIG_def WEXITSTATUS_def dec_nat.simps dec_def

lemma sample_cgroup_ends:
  "cgroup_main (sample_proc 0) = Some (Value 0, final cgroup_main (sample_proc 0))"
  by (simp add: sample_cgroup sample_wait sample_run cong: seq_cong)

lemma sample_cgroup_child:
  "cgroup_main child_proc = Some (Exited 0, final cgroup_main child_proc)"
  by (simp add: sample_cgroup child_os_def sample_run cong: seq_cong)

lemma sample_cgroup_told: "told (exit_wait 0) (log (final cgroup_main (sample_proc 0)))"
  by (simp add: sample_cgroup sample_wait told_def exit_wait_def sample_run cong: seq_cong)

theorem cgroup_success_is_limited_witness:
  "0 = (0 :: int) \<and> preceded limits_written is_fork (log (final cgroup_main child_proc))
    \<and> joined (log (final cgroup_main child_proc)) \<and> cgroup_removal removed (log (final cgroup_main (sample_proc 0)))"
  by (rule cgroup_success_is_limited [OF _ sample_cgroup_ends _ sample_cgroup_child sample_cgroup_told]) simp_all

text \<open>C22: What the return value of the hardening demo says on a kernel that implements strict seccomp.
  The kernel decides by the child's calls alone: after the grant the first call but a read, a write,
  \<open>exit\<close> or a return from a signal kills the child with SIGKILL, and a child that makes none exits with
  its code; \<open>bye\<close> is the call that ends a process in the C library. If the wait reports that, so nothing
  else kills the child, the demo returns 0 exactly if the child was granted strict mode and, should
  \<open>bye\<close> be allowed there, its write worked as well; and in strict mode the child makes the forbidden
  call exactly if its write worked. With \<open>exit_group\<close>, which is not allowed, the demo reports success
  also for a child whose write failed and that never makes that call.\<close>

theorem hardening_success_is_sandboxed:
  assumes "log sp = []" "hardening_main sp = Some (Value v, sp')"
    and "log sc = []" "hardening_main sc = Some (Exited c, sc')"
    and "told (strict_status bye (log sc') c) (log sp')"
  shows "v = (if sandboxed (log sc') \<and> (strict_allows bye \<longrightarrow> write_worked (log sc')) then 0 else 1)
    \<and> (sandboxed (log sc') \<longrightarrow> (list_ex forbidden (log sc') \<longleftrightarrow> write_worked (log sc')))"
  using assms by (rule hardening_verdict)

lemmas sample_hardening = hardening_main_def child_demo_def print_status_snapshot_def print_status_field_def
  hardening_report_def

lemma sample_hardening_ends:
  "hardening_main (sample_proc 9) = Some (Value 0, final hardening_main (sample_proc 9))"
  by (simp add: sample_hardening sample_status_loop WIFSIGNALED_def WTERMSIG_def SIGKILL_def sample_run after_def cong: seq_cong)

lemma sample_hardening_child:
  "hardening_main child_proc = Some (Exited 4, final hardening_main child_proc)"
  by (simp add: sample_hardening sample_status_loop child_os_def sample_run cong: seq_cong)

lemma sample_hardening_told:
  "told (strict_status (Sys_syscall ''SYS_exit'' [4]) (log (final hardening_main child_proc)) 4)
     (log (final hardening_main (sample_proc 9)))"
  "sandboxed (log (final hardening_main child_proc))" "write_worked (log (final hardening_main child_proc))"
  by (simp_all add: sample_hardening sample_status_loop WIFSIGNALED_def WTERMSIG_def SIGKILL_def child_os_def told_def
    strict_status_def sample_run cong: seq_cong)

theorem hardening_success_is_sandboxed_witness:
  "(0 :: int) = (if sandboxed (log (final hardening_main child_proc))
      \<and> (strict_allows (Sys_syscall ''SYS_exit'' [4]) \<longrightarrow> write_worked (log (final hardening_main child_proc)))
    then 0 else 1) \<and> list_ex forbidden (log (final hardening_main child_proc))"
  using hardening_success_is_sandboxed [OF _ sample_hardening_ends _ sample_hardening_child sample_hardening_told(1)]
    sample_hardening_told(2, 3) by simp

subsection \<open>Virtual machines\<close>

text \<open>C25: The memory-slot demo ends on every system; no two memory regions that it has registered
  ever overlap, at any point of the run. Unless a call is refused it returns with every descriptor
  closed and no region left, and with 0 exactly if the version is the expected one and the machine
  has two slots.\<close>

theorem memory_slots_disjoint:
  "\<exists>r s' E. memory_slots_main have s = Some (r, s') \<and> log s' = log s @ E \<and> always_disjoint E
    \<and> (r = Exited 1 \<and> list_ex refused E
      \<or> all_closed E \<and> slots E = Map.empty \<and> r = Value (if slots_ready have E then 0 else 1))"
  by (rule adds_total [OF memory_slots_adds kvm_demos_finish(2)])

text \<open>C26: The capability checklist ends on every system; unless a call is refused it closes its descriptor
  and returns 0 exactly if the version is the expected one and both required capabilities are known
  to the headers and present.\<close>

theorem capability_checklist_exact:
  "\<exists>r s' E. capability_main have s = Some (r, s') \<and> log s' = log s @ E
    \<and> (r = Exited 1 \<and> list_ex refused E \<or> all_closed E \<and> r = Value (if kvm_ready have E then 0 else 1))"
  by (rule adds_total [OF capability_main_adds kvm_demos_finish(3)])

text \<open>C12: On every system that runs the guest and interrupts it only finitely often, the monitor ends;
  and unless a call was refused, the version is another or the run area too small, it set the machine
  up call by call as it should, ran the virtual processor from the start of the guest program in a
  memory that holds it at its entry, printed exactly the greeting of the guest, byte by byte from its I/O
  exits, saw it halt and gave everything back.\<close>

theorem microvm_prints_greeting:
  assumes "log s = []" "\<And>fd. runs_guest fd guest_exits (os s)" "\<And>fd. kvm_patient n fd (os s)"
  shows "\<exists>r s'. microvm_main kvm_run_size s = Some (r, s') \<and>
    (r = Exited 1 \<and> list_ex refused (log s') \<or> r = Value 1 \<and> never_ran kvm_run_size (log s')
     \<or> r = Value 0 \<and> microvm_ran kvm_run_size True (log s')
       \<and> (\<exists>vcpu. guest_loaded vcpu (log s') \<and> vm_exits vcpu (log s') \<noteq> [])
       \<and> printed (log s') = ln ''host VMM: starting vCPU'' @ greeting @ ln ''host VMM: guest halted'')"
  by (rule microvm_main_guest [OF assms])

text \<open>A system that runs the guest without interruptions: the next exit is the one after those
  reported.\<close>

definition exit_reply :: "guest_exit \<Rightarrow> reply" where
  "exit_reply x = (case x of
     Port_out p v \<Rightarrow> \<lparr>rp_value = 0, rp_errno = 0, rp_nums = [KVM_EXIT_IO, KVM_EXIT_IO_OUT, 1, uint p, 1],
        rp_text = [char_of (unat v)]\<rparr>
   | Halted \<Rightarrow> \<lparr>rp_value = 0, rp_errno = 0, rp_nums = [KVM_EXIT_HLT], rp_text = []\<rparr>)"

definition guest_os :: "event list \<Rightarrow> linux_call \<Rightarrow> reply" where
  "guest_os l c =
     (case c of
        Sys_ioctl fd request args \<Rightarrow>
          if request = ''KVM_RUN''
          then exit_reply (if length (vm_exits fd l) < 26 then guest_exits ! length (vm_exits fd l) else Halted)
          else value_reply (if request = ''KVM_GET_API_VERSION'' then KVM_API_VERSION else 4096)
      | _ \<Rightarrow> sample_os 0 l c)"

lemma exit_reply_reports: "succeeds (exit_reply x)" "reports x (exit_reply x)"
  by (cases x; simp add: exit_reply_def num_def)+

lemma guest_os_runs: "runs_guest fd guest_exits guest_os" "kvm_patient 0 fd guest_os"
proof -
  have last: "guest_exits ! k = (if k < 26 then guest_exits ! k else Halted)" if "k < length guest_exits" for k
  proof (cases "k < 26")
    case False
    with that have "k = 26" by (simp add: guest_exits_def)
    then show ?thesis by (simp add: guest_exits_def nth_append)
  qed simp
  have "guest_os l (Sys_ioctl fd ''KVM_RUN'' [0]) = exit_reply (guest_exits ! length (vm_exits fd l))"
    if "length (vm_exits fd l) < length guest_exits" for l
    using last [OF that] by (simp add: guest_os_def)
  then show "runs_guest fd guest_exits guest_os"
    by (simp add: runs_guest_def Let_def exit_reply_reports)
  show "kvm_patient 0 fd guest_os"
    by (simp add: kvm_patient_def guest_os_def exit_reply_reports)
qed

definition guest_proc :: proc where
  "guest_proc = \<lparr>os = guest_os, log = [], errno = 0\<rparr>"

lemma guest_proc_run:
  assumes "os s = guest_os" "vm_exits fd (log s) = []"
  shows "seq (run_vcpu fd) f s = f True (final (run_vcpu fd) s)"
proof -
  have "length (vm_exits fd (log s)) \<le> length (map of_char greeting :: u8 list)" using assms(2) by simp
  from run_vcpu_guest [OF guest_os_runs [where fd = fd] _ assms(1) this]
  obtain s' where "run_vcpu fd s = Some (Value True, s')" by (auto simp: guest_exits_def)
  then show ?thesis by (simp add: seq_def final_def)
qed

lemma guest_proc_succeeds: "\<exists>s'. microvm_main 2352 guest_proc = Some (Value 0, s')"
  by (simp add: microvm_main_def setup_real_mode_def kvm_ioctl_def open_kvm_device_def guest_proc_def
      guest_proc_run run_steps guest_os_def sample_os_def value_reply_def KVM_API_VERSION_def Let_def cong: seq_cong)

theorem microvm_prints_greeting_witness:
  "\<exists>s'. microvm_main 2352 guest_proc = Some (Value 0, s') \<and> microvm_ran 2352 True (log s')
     \<and> printed (log s') = ln ''host VMM: starting vCPU'' @ greeting @ ln ''host VMM: guest halted''"
proof -
  have "log guest_proc = []" "\<And>fd. runs_guest fd guest_exits (os guest_proc)" "\<And>fd. kvm_patient 0 fd (os guest_proc)"
    by (simp_all add: guest_proc_def guest_os_runs)
  from microvm_prints_greeting [OF this, of 2352] guest_proc_succeeds show ?thesis by auto
qed

text \<open>C13: The bytes of the guest program, loaded at its entry and run by the processor, write the
  greeting to the debug port, one byte at a time, and halt.\<close>

theorem guest_program_greets:
  "guest_run 135 guest_memory guest_start = Some guest_exits"
  by (simp add: guest_greets guest_exits_def)

end
