(* ===== verification/Spec2Isabelle.thy ===== *)
theory Spec2Isabelle
  imports ComponentProperties Sessions Tasks DemoProperties
begin

text \<open>
  A verification development for mini-isolation-lab: a small freestanding x86-64 kernel
  (\<open>src/mini-kernel/kernel\<close>) and fourteen Linux programs that show how processes are isolated
  (\<open>src/src/part-01-syscalls\<close> to \<open>part-14-capabilities\<close>).

  \<^bold>\<open>The kernel.\<close> \<open>kernel_start\<close> fills and loads the descriptor tables, sets up the serial port and
  says hello through a system call of a first task; it then builds a process, mounts the built-in
  filesystem and lets \<open>kuser_run\<close> interpret the init program. Every operation of a program becomes a
  trap frame, the frame registers, and the registers a call of the dispatcher, which reads and
  writes the memory of the task, the filesystem and the serial line. The theories follow the code
  from the bottom:
  \<^item> \<open>Prelude\<close>: C integer types, the two shapes of counted loop, runs of a step, and the locales
    \<open>invariant_system\<close>, \<open>total_system\<close>, \<open>simulation\<close> and \<open>codec\<close>.
  \<^item> \<open>CMemory\<close>: byte memory as a partial map from 64-bit addresses, ranges that may wrap, and the
    locale \<open>byte_store\<close> of the byte loops; \<open>KLib\<close>: \<open>lib/mem.c\<close> and \<open>lib/string.c\<close>.
  \<^item> \<open>KGdt\<close>, \<open>KIdt\<close>: \<open>arch/x86_64/gdt.c\<close> and \<open>idt.c\<close>, the packed structures as records with the
    bytes they occupy and the fields the processor reads back (\<open>codec\<close>).
  \<^item> \<open>KConsole\<close>: \<open>cpu.c\<close>, \<open>serial.c\<close>, \<open>panic.c\<close> and the log of \<open>main.c\<close>. The hardware is a stream of
    port inputs, an arbitrary function, and a trace of what the kernel does, the filling of the
    descriptor tables included, so that it shows them filled before they are loaded; \<open>byte_sink\<close> is the
    contract of everything that emits a byte.
  \<^item> \<open>KFs\<close>: \<open>fs.c\<close>. Nodes live in a typed heap, their paths and contents in memory.
  \<^item> \<open>KSyscall\<close>: \<open>syscall.c\<close>; \<open>Posix\<close>: the abstract interface \<open>posix_call\<close> and the relation
    \<open>represents\<close>; \<open>KDispatch\<close>: the dispatcher implements it, call by call and along every sequence
    (interpretation \<open>syscalls\<close>), and touches nothing but the memory of the task; \<open>Sessions\<close>: what
    sequences of calls amount to; \<open>Tasks\<close>: several tasks on one machine in any interleaving
    (interpretation \<open>tasks\<close>), and non-interference between them.
  \<^item> \<open>KEntry\<close>: \<open>syscall_entry.c\<close>; \<open>KUser\<close>: \<open>user.c\<close>; \<open>Process\<close>: the abstract interpreter \<open>spec_run\<close>
    and the proof that the run loop computes it; \<open>KInit\<close>: the built-in init program; \<open>KMain\<close>:
    \<open>kernel_start\<close>.
  \<^item> \<open>Sample\<close>: a concrete machine on which the theorems are applied; \<open>ComponentProperties\<close>: the
    properties of single components. The properties that span components are in this theory.

  A C function is a definition of the same name. Its pointers are addresses or, for a structure that
  it alone owns, an optional record; its state is passed and returned; \<^const>\<open>None\<close> is undefined
  behaviour, or a wait that never ends. Integers keep their width, so wrap-around is the code's.

  \<^bold>\<open>The Linux programs.\<close> \<open>Linux\<close> models a C program as a function over an arbitrary operating system:
  the system answers each call as it likes, depending on all calls before, and the program is known
  by its log of calls and replies. \<open>wlp\<close>, \<open>adds\<close> and \<open>emits\<close> derive what a program adds to its log,
  \<open>finishes\<close> that it ends. \<open>SyncPipe\<close> is the argument that the container and the user-namespace demo
  share: two processes, interleaved in any way, that meet in a pipe (locale \<open>sync_pipe\<close>).
  \<open>Verdict\<close> joins the two sides of a \<open>fork\<close> or \<open>clone\<close>, by the arguments that the parent passes and by
  the wait status it gets: what a parent concludes from how its child ended, be it by itself, by a
  signal at any point of its run, or by strict seccomp at its first call that is not allowed.
  \<^item> \<open>DBasics\<close>: parts 01 to 05; \<open>DCgroup\<close>: 06; \<open>DContainer\<close>: 07; \<open>DKvm\<close>: 08, 10 and 13; \<open>DMicrovm\<close>:
    09, with its guest program as bytes and the processor on the instructions it uses;
    \<open>DHardening\<close>: 11; \<open>DUserns\<close>: 12; \<open>DCapabilities\<close>: 14; \<open>DemoProperties\<close>: their properties.

  The theorems about a demo hold for every operating system; what they assume beyond that is a
  named hypothesis and documented behaviour, such as that \<open>KVM_RUN\<close> reports the exits of the guest
  (\<open>runs_guest\<close>), that a read of the pipe returns bytes written to it (\<open>pipe_run\<close>), that a wait reports how
  the child ended (\<open>told\<close>, with \<open>ends_with\<close> or \<open>strict_status\<close>), or that waits are interrupted and files are read only finitely often (\<open>patient\<close>, \<open>kvm_patient\<close>, \<open>finite_files\<close>).

  \<^bold>\<open>Bounds and fuel.\<close> The counted loops of the kernel end because their counter is a machine word
  with a bound. The waits on hardware, the scan of \<open>kstrlen\<close> and the loops of the demos may run for
  ever: they are \<open>partial_function (option)\<close>, and the theorems state that they return. The one
  definition with fuel is \<open>guest_run\<close>: 135 instructions are exactly what the guest program takes, one
  for its first instruction, five for each of 26 characters and four at the end.

  \<^bold>\<open>Not modelled.\<close> The boot sector, the stage 2 monitor, the multiboot entry and the linker script are
  assembly and layout; the assumption they make for the kernel is \<open>image_ok\<close>. The panic of the host
  build (\<open>security/assert.c\<close>) and the host tests run the same code on a development machine: this is
  the freestanding build. Copies of a helper in several demos (\<open>die\<close>, \<open>explain_open_kvm_error\<close>,
  \<open>open_kvm_device\<close>, \<open>print_status_field\<close>) are defined once. The interior of the Linux kernel, of KVM
  and of the C library is not described, only what they answer; constants of their headers appear by
  value or by name. Alignment is not modelled: \<open>sys_stat\<close> writes a structure through whatever pointer
  the user gives, which x86-64 allows and C does not. Buffering of standard output is seen through the calls that fill and flush it.
\<close>

section \<open>Properties that span components\<close>

text \<open>C1: Booting. From a well laid out image, with a serial port that eventually accepts each byte
  but otherwise answers anything, \<open>kernel_start\<close> reaches the halt loop with the descriptor tables
  filled and loaded, having transmitted exactly the banner, the launch line, the output of the init
  process (its message and the first 40 bytes of the 42-byte motd file) and the closing line, with
  CR LF line ends; outside the banner buffer and the memory of the process no byte has changed.\<close>

theorem kernel_boot:
  assumes "image_ok img (m_mem M) (m_fs M)" "mounted_nodes (m_fs M) = 0" "uart_live (m_dev M)"
    and "length (boot_gdt bt) = 5" "length (boot_idt bt) = 256" "boot_gdt_addr bt \<noteq> 0" "boot_idt_addr bt \<noteq> 0"
  shows "\<exists>bt' M'. kernel_start img bt M = Some (bt', M') \<and> boot_tables_ready bt' \<and> halted (m_dev M') \<and>
    uart_sent u0 (m_dev M') = uart_sent u0 (m_dev M) @
      concat (map crlf (
        string_bytes ''mini-kernel alive'' @ [10] @
        string_bytes ''syscall dispatcher online; launching init'' @ [10] @
        string_bytes ''init: userspace online'' @ [10] @
        string_bytes ''motd: hello from the in-memory filesyste'' @
        string_bytes ''init exited cleanly; entering secure halt loop'' @ [10])) \<and>
    confined img (m_mem M) (m_mem M')"
proof -
  have "take 40 init_motd = string_bytes ''motd: hello from the in-memory filesyste''"
    by (simp add: init_motd_def string_bytes_def)
  then have "boot_output = concat (map crlf (
        string_bytes ''mini-kernel alive'' @ [10] @
        string_bytes ''syscall dispatcher online; launching init'' @ [10] @
        string_bytes ''init: userspace online'' @ [10] @
        string_bytes ''motd: hello from the in-memory filesyste'' @
        string_bytes ''init exited cleanly; entering secure halt loop'' @ [10]))"
    by (simp only: boot_output_def console_text_def init_output_def init_message_def banner_text_def
        map_append concat_append append_assoc)
  with kernel_start_spec [OF assms, of u0] show ?thesis by (simp only:)
qed

theorem kernel_boot_witness:
  "\<exists>bt' M'. kernel_start sample_image sample_tables sample_machine = Some (bt', M') \<and>
    boot_tables_ready bt' \<and> halted (m_dev M') \<and>
    uart_sent sample_uart (m_dev M') = uart_sent sample_uart (m_dev sample_machine) @
      concat (map crlf (
        string_bytes ''mini-kernel alive'' @ [10] @
        string_bytes ''syscall dispatcher online; launching init'' @ [10] @
        string_bytes ''init: userspace online'' @ [10] @
        string_bytes ''motd: hello from the in-memory filesyste'' @
        string_bytes ''init exited cleanly; entering secure halt loop'' @ [10])) \<and>
    confined sample_image (m_mem sample_machine) (m_mem M')"
  by (rule kernel_boot)
     (simp_all add: sample_machine_def sample_image_ok sample_live sample_tables_ok sample_unmounted)

text \<open>C2: Every sequence of system calls, with arbitrary numbers and arguments, is defined, returns
  what the abstract interface \<open>posix_call\<close> returns call by call, and ends in a machine and a task
  that represent the abstract result.\<close>

theorem syscalls_follow_specification:
  assumes "represents u0 pre files M t px"
  shows "\<exists>M' t'. run_outputs dispatch_step (M, t) rs =
      Some ((M', t'), snd (spec_outputs posix_call px rs)) \<and>
    represents u0 pre files M' t' (fst (spec_outputs posix_call px rs))"
proof -
  have "step_rel u0 pre files (M, t) px" using assms by (simp add: step_rel_def)
  from syscalls.run_sim [OF this, of rs] show ?thesis by (auto simp: step_rel_def)
qed

definition sample_calls :: "ksyscall_regs list" where
  "sample_calls = [syscall_regs KSYSCALL_OPEN 0x3000 9 0, syscall_regs KSYSCALL_READ 3 0x3020 100,
     syscall_regs KSYSCALL_STAT 0x3000 9 0x3100, syscall_regs KSYSCALL_WRITE 1 0x31ff 2,
     syscall_regs KSYSCALL_CLOSE 3 0 0, syscall_regs KSYSCALL_CLOSE 3 0 0]"

theorem syscalls_follow_specification_witness:
  "\<exists>M' t'. run_outputs dispatch_step (sample_mounted, sample_task) sample_calls =
      Some ((M', t'), snd (spec_outputs posix_call sample_posix sample_calls)) \<and>
    represents sample_uart [] init_files M' t' (fst (spec_outputs posix_call sample_posix sample_calls))"
  by (rule syscalls_follow_specification [OF sample_represents])

text \<open>C3: Isolation: no sequence of system calls, whatever the numbers and arguments, faults, changes
  a byte outside the user range of the task, changes the filesystem, or changes anything of the
  task but its file table.\<close>

theorem syscalls_confined:
  assumes "represents u0 pre files M t px"
  shows "\<exists>M' t'. run_steps (\<lambda>s r. map_option fst (dispatch_step s r)) (M, t) rs = Some (M', t') \<and>
    (\<forall>q. \<not> in_range q (t_user_base t) (t_user_len t) \<longrightarrow> m_mem M' q = m_mem M q) \<and>
    dom (m_mem M') = dom (m_mem M) \<and> m_fs M' = m_fs M \<and> t' = t\<lparr>t_files := t_files t'\<rparr>"
proof -
  have "framed u0 pre files (M, t) (M, t)" using assms by (auto simp: framed_def step_rel_def)
  from contained.run_total [OF this, of rs] show ?thesis
    by (auto simp: framed_def kernel_frame_def)
qed

theorem syscalls_confined_witness:
  "\<exists>M' t'. run_steps (\<lambda>s r. map_option fst (dispatch_step s r)) (sample_mounted, sample_task) sample_calls =
      Some (M', t') \<and>
    (\<forall>q. \<not> in_range q (t_user_base sample_task) (t_user_len sample_task) \<longrightarrow>
      m_mem M' q = m_mem sample_mounted q) \<and>
    dom (m_mem M') = dom (m_mem sample_mounted) \<and> m_fs M' = m_fs sample_mounted \<and>
    t' = sample_task\<lparr>t_files := t_files t'\<rparr>"
  by (rule syscalls_confined [OF sample_represents])

text \<open>C4: Several tasks on one machine, in any interleaving of their system calls: every call is defined
  and returns what the abstract interface of the task that makes it returns, and the serial line
  receives what the tasks write in the order in which they write it.\<close>

theorem interleaved_calls_follow_specification:
  assumes "tasks_rel u0 pre files as (M, ts) (pxs, out)"
  shows "\<exists>M' ts'. run_outputs task_step (M, ts) sch = Some ((M', ts'), snd (spec_outputs tasks_call (pxs, out) sch)) \<and>
    tasks_rel u0 pre files as (M', ts') (fst (spec_outputs tasks_call (pxs, out) sch)) \<and>
    uart_sent u0 (m_dev M') = pre @ concat (map crlf (snd (fst (spec_outputs tasks_call (pxs, out) sch))))"
  using tasks.run_sim [OF assms, of sch] by (fastforce simp: tasks_rel_def)

lemma sample_tasks_rel:
  "tasks_rel sample_uart [] init_files [(0x3000, 512), (0x2000, 64)]
     (sample_mounted, [sample_task, banner_task]) ([sample_posix, banner_posix], [])"
proof -
  have "apart 0x3000 512 0x2000 64" "apart 0x2000 64 0x3000 512" by (simp_all add: apart_def)
  then have "apart_areas [(0x3000, 512), (0x2000, 64)]"
    using apart_disjoint [of "0x3000" 512 "0x2000" 64] apart_disjoint [of "0x2000" 64 "0x3000" 512]
    by (auto simp: apart_areas_def less_Suc_eq)
  moreover have "listed init_files sample_mounted sample_task" "listed init_files sample_mounted banner_task"
    by (simp_all add: listed_def sample_task_def fresh_task_def banner_task_def)
  moreover have "m_dev sample_mounted = sample_dev" by (simp add: sample_mounted_def mounted_def sample_machine_def)
  moreover have "area sample_task = (0x3000, 512)" "area banner_task = (0x2000, 64)"
    "t_write_byte sample_task = 0" "t_write_byte banner_task = 0" "px_out sample_posix = []" "px_out banner_posix = []"
    by (simp_all add: area_def sample_task_def fresh_task_def banner_task_def sample_posix_def banner_posix_def)
  ultimately show ?thesis
    using sample_represents banner_task_represents sample_ready
    by (simp add: tasks_rel_def less_Suc_eq)
qed

definition sample_schedule :: "(nat \<times> ksyscall_regs) list" where
  "sample_schedule = [(0, syscall_regs KSYSCALL_OPEN 0x3000 9 0), (1, syscall_regs KSYSCALL_WRITE 1 0x2000 3),
     (0, syscall_regs KSYSCALL_READ 3 0x3020 20), (1, syscall_regs KSYSCALL_READ 3 0x3020 20),
     (0, syscall_regs KSYSCALL_WRITE 1 0x3020 5), (2, syscall_regs KSYSCALL_GETPID 0 0 0)]"

theorem interleaved_calls_follow_specification_witness:
  "\<exists>M' ts'. run_outputs task_step (sample_mounted, [sample_task, banner_task]) sample_schedule =
      Some ((M', ts'), snd (spec_outputs tasks_call ([sample_posix, banner_posix], []) sample_schedule)) \<and>
    tasks_rel sample_uart [] init_files [(0x3000, 512), (0x2000, 64)] (M', ts')
      (fst (spec_outputs tasks_call ([sample_posix, banner_posix], []) sample_schedule)) \<and>
    uart_sent sample_uart (m_dev M') = [] @ concat (map crlf
      (snd (fst (spec_outputs tasks_call ([sample_posix, banner_posix], []) sample_schedule))))"
  by (rule interleaved_calls_follow_specification [OF sample_tasks_rel])

text \<open>C5: Non-interference: what a task gets back from its system calls and what its memory holds after
  them depends on its own calls only. Two schedules in which it makes the same calls, whatever the
  other tasks do and whenever they do it, give it the same results and the same bytes.\<close>

theorem tasks_do_not_interfere:
  assumes "tasks_rel u0 pre files as (M, ts) (pxs, out)" "k < length ts" "calls_of k sch = calls_of k sch'"
  shows "\<exists>M1 ts1 rs1 M2 ts2 rs2. run_outputs task_step (M, ts) sch = Some ((M1, ts1), rs1) \<and>
    run_outputs task_step (M, ts) sch' = Some ((M2, ts2), rs2) \<and>
    results_of k sch rs1 = results_of k sch' rs2 \<and>
    (\<forall>q. in_range q (t_user_base (ts ! k)) (t_user_len (ts ! k)) \<longrightarrow> m_mem M1 q = m_mem M2 q)"
  using tasks_run [OF assms(1,2), of sch] tasks_run [OF assms(1,2), of sch'] unfolding assms(3) by fastforce

definition sample_schedule' :: "(nat \<times> ksyscall_regs) list" where
  "sample_schedule' = [(0, syscall_regs KSYSCALL_OPEN 0x3000 9 0), (0, syscall_regs KSYSCALL_READ 3 0x3020 20),
     (0, syscall_regs KSYSCALL_WRITE 1 0x3020 5)]"

theorem tasks_do_not_interfere_witness:
  "\<exists>M1 ts1 rs1 M2 ts2 rs2. run_outputs task_step (sample_mounted, [sample_task, banner_task]) sample_schedule = Some ((M1, ts1), rs1) \<and>
    run_outputs task_step (sample_mounted, [sample_task, banner_task]) sample_schedule' = Some ((M2, ts2), rs2) \<and>
    results_of 0 sample_schedule rs1 = results_of 0 sample_schedule' rs2 \<and>
    (\<forall>q. in_range q (t_user_base ([sample_task, banner_task] ! 0)) (t_user_len ([sample_task, banner_task] ! 0)) \<longrightarrow>
      m_mem M1 q = m_mem M2 q)"
  by (rule tasks_do_not_interfere [OF sample_tasks_rel])
     (simp_all add: calls_of_def sample_schedule_def sample_schedule'_def)

text \<open>C6: Running a program whose pointers are good always returns, with the result of the abstract
  interpreter \<open>spec_run\<close> on the program's operations, and changes nothing outside the memory of the
  process but the mounted filesystem.\<close>

theorem user_program_follows_specification:
  assumes "process_rel u0 pre files0 M p us" "loadable M p prog ops init files"
  shows "\<exists>p' M'. kuser_run M (Some p) (Some prog) =
      Some (fst (spec_run (us_load us init files) ops), Some p', M') \<and>
    process_rel u0 pre files M' p' (snd (spec_run (us_load us init files) ops)) \<and>
    process_frame (mounted M prog) p M' p'"
  using assms by (rule kuser_run_refines)

theorem user_program_follows_specification_witness:
  "\<exists>p' M'. kuser_run sample_machine (Some sample_process) (Some (kuser_init_program sample_init)) =
      Some (fst (spec_run (us_load sample_us init_memory init_files) init_ops), Some p', M') \<and>
    process_rel sample_uart [] init_files M' p' (snd (spec_run (us_load sample_us init_memory init_files) init_ops)) \<and>
    process_frame (mounted sample_machine (kuser_init_program sample_init)) sample_process M' p'"
  by (rule user_program_follows_specification [OF sample_process_rel sample_loadable])

text \<open>C7: The checks of the run loop are complete: whatever the operations of a program, the only
  errors a system call returns to it are \<open>ENOENT\<close> and \<open>EMFILE\<close>, and they stop the run with
  \<open>KUSER_ESYSCALL\<close>; in particular the descriptor of a slot that is not empty is never bad, and no
  pointer handed to the kernel faults.\<close>

theorem user_program_errors:
  assumes "process_rel u0 pre files0 M p us" "loadable M p prog ops init files"
  shows "\<exists>e p' M'. kuser_run M (Some p) (Some prog) = Some (e, Some p', M') \<and>
    (if e = KUSER_ESYSCALL
     then p_last_syscall_error p' = KSYSCALL_ENOENT \<or> p_last_syscall_error p' = KSYSCALL_EMFILE
     else p_last_syscall_error p' = KSYSCALL_OK)"
proof -
  let ?r = "spec_run (us_load us init files) ops"
  have "us_ok us" using assms(1) by (rule process_relD)
  moreover have "length init \<le> 512" using assms(2) by (simp add: loadable_def)
  ultimately have "us_ok (us_load us init files)" by (rule us_ok_load)
  then have "honest_result ?r" by (rule spec_run_honest) (simp add: us_load_def)
  moreover obtain p' M' where "kuser_run M (Some p) (Some prog) = Some (fst ?r, Some p', M')"
    "process_rel u0 pre files M' p' (snd ?r)" using kuser_run_refines [OF assms] by blast
  ultimately show ?thesis by (auto simp: honest_result_def honest_def process_rel_def)
qed

theorem user_program_errors_witness:
  "\<exists>e p' M'. kuser_run sample_machine (Some sample_process) (Some (kuser_init_program sample_init)) =
      Some (e, Some p', M') \<and>
    (if e = KUSER_ESYSCALL
     then p_last_syscall_error p' = KSYSCALL_ENOENT \<or> p_last_syscall_error p' = KSYSCALL_EMFILE
     else p_last_syscall_error p' = KSYSCALL_OK)"
  by (rule user_program_errors [OF sample_process_rel sample_loadable])

text \<open>C8: The structures of a process stay well formed whatever program it runs: four slots and eight
  files, every slot is empty or names a file from 3 to 7 that is in use, and no two slots name the
  same file.\<close>

theorem process_well_formed:
  assumes "process_rel u0 pre files0 M p us" "loadable M p prog ops init files"
  shows "\<exists>e p' M'. kuser_run M (Some p) (Some prog) = Some (e, Some p', M') \<and>
    length (p_fd_slots p') = 4 \<and> length (t_files (p_task p')) = 8 \<and>
    (\<forall>i < 4. p_fd_slots p' ! i = - 1 \<or>
       (\<exists>fd \<in> {3..<8}. p_fd_slots p' ! i = of_nat fd \<and> f_used (t_files (p_task p') ! fd))) \<and>
    (\<forall>i < 4. \<forall>j < 4. i \<noteq> j \<longrightarrow> p_fd_slots p' ! i = p_fd_slots p' ! j \<longrightarrow> p_fd_slots p' ! i = - 1)"
proof -
  obtain p' M' us' where run: "kuser_run M (Some p) (Some prog) = Some (fst (spec_run (us_load us init files) ops), Some p', M')"
    and rel: "process_rel u0 pre files M' p' us'" using kuser_run_refines [OF assms] by blast
  note ok = process_relD(2) [OF rel] and slots = process_relD(4) [OF rel]
  have fds: "fds_rel M' (p_task p') (px_fds (us_px us'))"
    using process_relD(1) [OF rel] by (simp add: represents_def)
  show ?thesis using run slots_well_formed [OF ok fds] slots by auto
qed

theorem process_well_formed_witness:
  "\<exists>e p' M'. kuser_run sample_machine (Some sample_process) (Some (kuser_init_program sample_init)) = Some (e, Some p', M') \<and>
    length (p_fd_slots p') = 4 \<and> length (t_files (p_task p')) = 8 \<and>
    (\<forall>i < 4. p_fd_slots p' ! i = - 1 \<or>
       (\<exists>fd \<in> {3..<8}. p_fd_slots p' ! i = of_nat fd \<and> f_used (t_files (p_task p') ! fd))) \<and>
    (\<forall>i < 4. \<forall>j < 4. i \<noteq> j \<longrightarrow> p_fd_slots p' ! i = p_fd_slots p' ! j \<longrightarrow> p_fd_slots p' ! i = - 1)"
  by (rule process_well_formed [OF sample_process_rel sample_loadable])

text \<open>C11: \<open>kuser_init_process\<close> makes any process structure a fresh process: zeroed memory, its own
  512 bytes as the user range, no open descriptor, four empty slots, not exited, no error; no byte
  outside its memory changes.\<close>

theorem fresh_process:
  assumes "p_memory p \<noteq> 0" "unat (p_memory p) + 512 < 2 ^ 64" "mapped (p_memory p) 512 (m_mem M)"
    and "files_rel files M (fresh_task pid (p_memory p) wb ctx)"
    and "sink_rel u0 pre (m_dev M) (fresh_task pid (p_memory p) wb ctx) []"
  shows "\<exists>p' M'. kuser_init_process M (Some p) pid wb ctx = Some (Some p', M') \<and>
    process_rel u0 pre files M' p' (us_init pid (p_memory p) files) \<and>
    p_task p' = fresh_task pid (p_memory p) wb ctx \<and> p_memory p' = p_memory p \<and>
    kernel_frame M (p_task p') M' (p_task p') \<and> m_dev M' = m_dev M"
  using assms by (rule kuser_init_process_spec)

theorem fresh_process_witness:
  "\<exists>p' M'. kuser_init_process sample_machine (Some sample_process) 7 0 0 = Some (Some p', M') \<and>
    process_rel sample_uart (uart_sent sample_uart sample_dev) [] M' p' (us_init 7 (p_memory sample_process) []) \<and>
    p_task p' = fresh_task 7 (p_memory sample_process) 0 0 \<and> p_memory p' = p_memory sample_process \<and>
    kernel_frame sample_machine (p_task p') M' (p_task p') \<and> m_dev M' = m_dev sample_machine"
proof (rule fresh_process)
  show "mapped (p_memory sample_process) 512 (m_mem sample_machine)"
    using sample_writable(2) by (simp add: writable_def sample_process_def sample_machine_def)
  show "files_rel [] sample_machine (fresh_task 7 (p_memory sample_process) 0 0)"
    by (rule files_rel_unmounted) (simp add: sample_machine_def sample_unmounted)
  show "sink_rel sample_uart (uart_sent sample_uart sample_dev) (m_dev sample_machine)
      (fresh_task 7 (p_memory sample_process) 0 0) []"
    using sink_rel_log [OF sample_ready(1)] by (simp add: sample_machine_def)
qed (simp_all add: sample_process_def)

text \<open>C9: Opening a path that exists, reading \<open>k\<close> bytes and closing returns the descriptor, the
  number of bytes and success; the first \<open>k\<close> bytes of the file then lie in the buffer, and apart
  from them the process is where it was: the descriptor is free again.\<close>

theorem open_read_close:
  assumes "represents u0 pre files M t px"
    and "px_valid px p n" "px_resolve px p n = Some content"
    and "px_free_fd (px_fds px) = Some fd" "px_valid px q k"
  shows "\<exists>M' t'. run_outputs dispatch_step (M, t)
      [syscall_regs KSYSCALL_OPEN p n 0, syscall_regs KSYSCALL_READ (of_nat fd) q k,
       syscall_regs KSYSCALL_CLOSE (of_nat fd) 0 0] =
      Some ((M', t'), [px_ok (of_nat fd), px_ok (of_nat (length (take (unat k) content))), px_ok 0]) \<and>
    holds (m_mem M') q (take (unat k) content) \<and>
    represents u0 pre files M' t' (px_store q (take (unat k) content) px)"
  using assms by (rule read_session)

lemma sample_resolve:
  "px_valid sample_posix 0x3000 9" "px_resolve sample_posix 0x3000 9 = Some init_motd"
  "px_free_fd (px_fds sample_posix) = Some 3" "px_valid sample_posix 0x3020 20"
proof -
  have "take 9 sample_user = string_bytes ''/etc/motd''" by (simp add: sample_user_def)
  then show "px_resolve sample_posix 0x3000 9 = Some init_motd"
    by (simp add: px_resolve_def px_slice_def px_off_def sample_posix_def init_files_def)
  show "px_free_fd (px_fds sample_posix) = Some 3"
    by (simp add: px_free_fd_def first_hit_step sample_posix_def)
qed (simp_all add: px_valid_def sample_posix_def length_sample_user)

theorem open_read_close_witness:
  "\<exists>M' t'. run_outputs dispatch_step (sample_mounted, sample_task)
      [syscall_regs KSYSCALL_OPEN 0x3000 9 0, syscall_regs KSYSCALL_READ (of_nat 3) 0x3020 20,
       syscall_regs KSYSCALL_CLOSE (of_nat 3) 0 0] =
      Some ((M', t'), [px_ok (of_nat 3), px_ok (of_nat (length (take (unat (20 :: u64)) init_motd))), px_ok 0]) \<and>
    holds (m_mem M') 0x3020 (take (unat (20 :: u64)) init_motd) \<and>
    represents sample_uart [] init_files M' t' (px_store 0x3020 (take (unat (20 :: u64)) init_motd) sample_posix)"
  by (rule open_read_close [OF sample_represents sample_resolve])

text \<open>C10: Opening an existing path returns the least descriptor from 3 on that is free, and fails
  with \<open>EMFILE\<close> exactly when descriptors 3 to 7 are all in use.\<close>

theorem open_least_descriptor:
  assumes "represents u0 pre files M t px" "px_valid px p n" "px_resolve px p n = Some content"
  shows "\<exists>t' M'. ksyscall_dispatch M (Some t) (Some (syscall_regs KSYSCALL_OPEN p n 0)) =
    Some (if \<forall>fd \<in> {3..<8}. px_fds px fd \<noteq> None then px_err KSYSCALL_EMFILE
          else px_ok (of_nat (LEAST fd. 3 \<le> fd \<and> px_fds px fd = None)), Some t', M')"
proof -
  have "snd (posix_call px (syscall_regs KSYSCALL_OPEN p n 0)) =
    (if \<forall>fd \<in> {3..<8}. px_fds px fd \<noteq> None then px_err KSYSCALL_EMFILE
     else px_ok (of_nat (LEAST fd. 3 \<le> fd \<and> px_fds px fd = None)))"
    using assms(2,3) px_free_fd_least [of "px_fds px"] by (simp add: posix_call_def px_open_def del: not_None_eq)
  note eq = this
  obtain t' M' where "ksyscall_dispatch M (Some t) (Some (syscall_regs KSYSCALL_OPEN p n 0)) =
      Some (snd (posix_call px (syscall_regs KSYSCALL_OPEN p n 0)), Some t', M')"
    using dispatch_once [OF assms(1)] by blast
  then show ?thesis unfolding eq by blast
qed

theorem open_least_descriptor_witness:
  "\<exists>t' M'. ksyscall_dispatch sample_mounted (Some sample_task) (Some (syscall_regs KSYSCALL_OPEN 0x3000 9 0)) =
    Some (if \<forall>fd \<in> {3..<8}. px_fds sample_posix fd \<noteq> None then px_err KSYSCALL_EMFILE
          else px_ok (of_nat (LEAST fd. 3 \<le> fd \<and> px_fds sample_posix fd = None)), Some t', M')"
  by (rule open_least_descriptor [OF sample_represents sample_resolve(1,2)])

end
